(* ===== verification/Bio_Prelude.thy ===== *)
theory Bio_Prelude
  imports Main "HOL-Library.Word" "HOL-Library.Signed_Division"
begin

text \<open>
  Shared vocabulary of the development: faults of C code as values, results and their
  sequencing, checked buffer reads, C strings with their terminator, \<open>int\<close> arithmetic with
  its range, and the generic list lemmas the components share.
\<close>

section \<open>Faults and results\<close>

text \<open>
  What a C function can do besides returning: follow a null pointer, access a buffer out of
  its bounds, overflow a signed \<open>int\<close>, wait for ever, or use memory that was freed or never
  written. A model function that can do so
  returns a sum, with the fault on the left.
\<close>

datatype fault = Null_deref | Out_of_bounds | Int_overflow | Hang | Bad_memory

type_synonym 'a res = "fault + 'a"

fun bindR :: "'a res \<Rightarrow> ('a \<Rightarrow> 'b res) \<Rightarrow> 'b res" where
  "bindR (Inl e) f = Inl e"
| "bindR (Inr x) f = f x"

lemma bindR_eq_Inr: "bindR m f = Inr y \<longleftrightarrow> (\<exists>x. m = Inr x \<and> f x = Inr y)"
  by (cases m) auto

lemma bindR_assoc: "bindR (bindR m f) g = bindR m (\<lambda>x. bindR (f x) g)"
  by (cases m) auto

lemma bindR_cong [fundef_cong]:
  "m = n \<Longrightarrow> (\<And>x. n = Inr x \<Longrightarrow> f x = g x) \<Longrightarrow> bindR m f = bindR n g"
  by (cases n) auto

text \<open>What every returned value satisfies (partial correctness), and that there is one (total).\<close>

definition on_return :: "'a res \<Rightarrow> ('a \<Rightarrow> bool) \<Rightarrow> bool" where
  "on_return m Q \<longleftrightarrow> (\<forall>x. m = Inr x \<longrightarrow> Q x)"

definition returns :: "'a res \<Rightarrow> ('a \<Rightarrow> bool) \<Rightarrow> bool" where
  "returns m Q \<longleftrightarrow> (\<exists>x. m = Inr x \<and> Q x)"

lemma on_return_simps [simp]: "on_return (Inr x) Q = Q x" "on_return (Inl e) Q"
  by (simp_all add: on_return_def)

lemma returns_simps [simp]: "returns (Inr x) Q = Q x" "\<not> returns (Inl e) Q"
  by (simp_all add: returns_def)

lemma on_return_bind: "on_return (bindR m f) Q = on_return m (\<lambda>x. on_return (f x) Q)"
  by (cases m) simp_all

lemma returns_bind: "returns (bindR m f) Q = returns m (\<lambda>x. returns (f x) Q)"
  by (cases m) simp_all

lemma on_return_mono: "on_return m P \<Longrightarrow> (\<And>x. P x \<Longrightarrow> Q x) \<Longrightarrow> on_return m Q"
  by (auto simp: on_return_def)

lemma returns_mono: "returns m P \<Longrightarrow> (\<And>x. P x \<Longrightarrow> Q x) \<Longrightarrow> returns m Q"
  by (auto simp: returns_def)

section \<open>Buffers and C strings\<close>

type_synonym byte = "8 word"

text \<open>Reading an array: an index outside it is undefined behaviour, hence a fault.\<close>

definition rd :: "'a list \<Rightarrow> nat \<Rightarrow> 'a res" where
  "rd xs i = (if i < length xs then Inr (xs ! i) else Inl Out_of_bounds)"

lemma rd_in [simp]: "i < length xs \<Longrightarrow> rd xs i = Inr (xs ! i)"
  by (simp add: rd_def)

lemma rd_out [simp]: "length xs \<le> i \<Longrightarrow> rd xs i = Inl Out_of_bounds"
  by (simp add: rd_def)

text \<open>
  Reading a character of a NUL-terminated string: the position after the last character
  holds the terminator, and what lies beyond it does not belong to the string.
\<close>

definition nul :: char where
  "nul = CHR 0x00"

definition rdz :: "string \<Rightarrow> nat \<Rightarrow> char res" where
  "rdz s i = rd (s @ [nul]) i"

lemma rdz_in [simp]: "i < length s \<Longrightarrow> rdz s i = Inr (s ! i)"
  by (simp add: rdz_def nth_append)

lemma rdz_end [simp]: "rdz s (length s) = Inr nul"
  by (simp add: rdz_def)

lemma rdz_beyond [simp]: "length s < i \<Longrightarrow> rdz s i = Inl Out_of_bounds"
  by (simp add: rdz_def)

section \<open>Signed 32-bit integers\<close>

text \<open>
  \<open>int\<close> values are modelled as mathematical integers; where the source computes with values
  it does not bound, the result goes through \<open>c_int\<close>, and leaving the range is a fault.
  C's \<open>/\<close> and \<open>%\<close> truncate towards zero: they are \<open>sdiv\<close> and \<open>smod\<close> of the library.
\<close>

definition INT_MAX :: int where "INT_MAX = 2147483647"
definition INT_MIN :: int where "INT_MIN = -2147483648"

definition c_int :: "int \<Rightarrow> int res" where
  "c_int x = (if INT_MIN \<le> x \<and> x \<le> INT_MAX then Inr x else Inl Int_overflow)"

lemma c_int_in: "INT_MIN \<le> x \<Longrightarrow> x \<le> INT_MAX \<Longrightarrow> c_int x = Inr x"
  by (simp add: c_int_def)

lemma sdiv_nonneg: "0 \<le> a \<Longrightarrow> 0 < b \<Longrightarrow> a sdiv b = a div (b::int)"
  by (cases "a = 0") (simp_all add: signed_divide_int_def)

lemma smod_nonneg: "0 \<le> a \<Longrightarrow> 0 < b \<Longrightarrow> a smod b = a mod (b::int)"
  by (cases "a = 0") (auto simp: signed_modulo_int_def sdiv_nonneg minus_mult_div_eq_mod)

section \<open>Bytes\<close>

text \<open>Two bytes are equal when their eight bits are: the simplifier decides the rest.\<close>

lemma byte_eqI:
  fixes a b :: byte
  assumes "bit a 0 = bit b 0" "bit a 1 = bit b 1" "bit a 2 = bit b 2" "bit a 3 = bit b 3"
    "bit a 4 = bit b 4" "bit a 5 = bit b 5" "bit a 6 = bit b 6" "bit a 7 = bit b 7"
  shows "a = b"
proof (rule bit_word_eqI)
  fix n assume "n < LENGTH(8)"
  then have "n \<in> {0, 1, 2, 3, 4, 5, 6, 7}" by auto
  then show "bit a n = bit b n" using assms by auto
qed

section \<open>Lists\<close>

lemma list_all_upt_nth:
  "list_all P [0..<n] \<Longrightarrow> i < n \<Longrightarrow> P i"
  by (simp add: list_all_iff)

lemma list_ge4:
  assumes "4 \<le> length s"
  obtains a b c d r where "s = a # b # c # d # r"
  using assms by (cases s; cases "tl s"; cases "tl (tl s)"; cases "tl (tl (tl s))") auto

end
