(* ===== verification/Bio_Base64.thy ===== *)
theory Bio_Base64
  imports Bio_Prelude
begin

text \<open>
  \<open>bio_base64_encode\<close> and \<open>bio_base64_decode\<close> of \<open>src/src/lib/biometric_common.c\<close>, the
  codec that stores encrypted feature templates in the TEXT column of the database. The loops
  are modelled with their indices, every read of the input checked; the output buffer is the
  list of what has been written to it.
\<close>

unbundle bit_operations_syntax

section \<open>The code\<close>

definition base64char :: string where
  "base64char = ''ABCDEFGHIJKLMNOPQRSTUVWXYZabcdefghijklmnopqrstuvwxyz0123456789+/''"

function b64_enc_loop :: "byte list \<Rightarrow> nat \<Rightarrow> nat \<Rightarrow> string \<Rightarrow> string res" where
  "b64_enc_loop bin_data bin_len i out =
     (if i < bin_len then
        bindR (rd bin_data i) (\<lambda>b0.
        bindR (rd base64char (unat ((drop_bit 2 b0) AND 0x3F))) (\<lambda>c0.
        let current = push_bit 4 b0 AND 0x30 in
        if bin_len \<le> i + 1 then
          bindR (rd base64char (unat current)) (\<lambda>c1. Inr (out @ [c0, c1, CHR ''='', CHR ''='']))
        else
        bindR (rd bin_data (i + 1)) (\<lambda>b1.
        bindR (rd base64char (unat (current OR (drop_bit 4 b1 AND 0x0F)))) (\<lambda>c1.
        let current = push_bit 2 b1 AND 0x3C in
        if bin_len \<le> i + 2 then
          bindR (rd base64char (unat current)) (\<lambda>c2. Inr (out @ [c0, c1, c2, CHR ''='']))
        else
        bindR (rd bin_data (i + 2)) (\<lambda>b2.
        bindR (rd base64char (unat (current OR (drop_bit 6 b2 AND 0x03)))) (\<lambda>c2.
        bindR (rd base64char (unat (b2 AND 0x3F))) (\<lambda>c3.
        b64_enc_loop bin_data bin_len (i + 3) (out @ [c0, c1, c2, c3]))))))))
      else Inr out)"
  by pat_completeness auto
termination
  by (relation "measure (\<lambda>(bin_data, bin_len, i, out). bin_len - i)") auto

declare b64_enc_loop.simps [simp del]

definition bio_base64_encode :: "byte list \<Rightarrow> nat \<Rightarrow> string res" where
  "bio_base64_encode bin_data bin_len = b64_enc_loop bin_data bin_len 0 []"

text \<open>The inner loop over \<open>k\<close>: the last position of the alphabet that holds the character,
  the initial \<open>0xFF\<close> when none does.\<close>

definition b64_lookup :: "char \<Rightarrow> byte" where
  "b64_lookup c = foldl (\<lambda>t k. if base64char ! k = c then word_of_nat k else t) 0xFF [0..<64]"

function b64_dec_loop :: "string \<Rightarrow> nat \<Rightarrow> byte list \<Rightarrow> byte list res" where
  "b64_dec_loop base64 i out =
     bindR (rdz base64 i) (\<lambda>c0.
     if c0 = nul then Inr out else
     bindR (rdz base64 (i + 1)) (\<lambda>c1.
     bindR (rdz base64 (i + 2)) (\<lambda>c2.
     bindR (rdz base64 (i + 3)) (\<lambda>c3.
     let t0 = b64_lookup c0; t1 = b64_lookup c1; t2 = b64_lookup c2; t3 = b64_lookup c3;
         out = out @ [(push_bit 2 t0 AND 0xFC) OR (drop_bit 4 t1 AND 0x03)]
     in if c2 = CHR ''='' then Inr out else
     let out = out @ [(push_bit 4 t1 AND 0xF0) OR (drop_bit 2 t2 AND 0x0F)]
     in if c3 = CHR ''='' then Inr out else
     b64_dec_loop base64 (i + 4)
       (out @ [(push_bit 6 t2 AND 0xF0) OR (t3 AND 0x3F)])))))"
  by pat_completeness auto
termination
  by (relation "measure (\<lambda>(base64, i, out). Suc (length base64) - i)")
    (auto simp: rdz_def rd_def split: if_splits)

declare b64_dec_loop.simps [simp del]

definition bio_base64_decode :: "string \<Rightarrow> byte list res" where
  "bio_base64_decode base64 = b64_dec_loop base64 0 []"

section \<open>A reference encoder\<close>

text \<open>
  The four sextets of a three-byte group. The last group of the input uses them too, with 0
  in the place of the bytes it lacks.
\<close>

definition sx0 :: "byte \<Rightarrow> byte" where
  "sx0 x = drop_bit 2 x AND 0x3F"
definition sx1 :: "byte \<Rightarrow> byte \<Rightarrow> byte" where
  "sx1 x y = (push_bit 4 x AND 0x30) OR (drop_bit 4 y AND 0x0F)"
definition sx2 :: "byte \<Rightarrow> byte \<Rightarrow> byte" where
  "sx2 y z = (push_bit 2 y AND 0x3C) OR (drop_bit 6 z AND 0x03)"
definition sx3 :: "byte \<Rightarrow> byte" where
  "sx3 z = z AND 0x3F"

lemmas sx_defs = sx0_def sx1_def sx2_def sx3_def

definition b64c :: "byte \<Rightarrow> char" where
  "b64c w = base64char ! unat w"

fun b64_ref :: "byte list \<Rightarrow> string" where
  "b64_ref [] = []"
| "b64_ref [x] = [b64c (sx0 x), b64c (sx1 x 0), CHR ''='', CHR ''='']"
| "b64_ref [x, y] = [b64c (sx0 x), b64c (sx1 x y), b64c (sx2 y 0), CHR ''='']"
| "b64_ref (x # y # z # bs) =
     b64c (sx0 x) # b64c (sx1 x y) # b64c (sx2 y z) # b64c (sx3 z) # b64_ref bs"

lemma byte_lt64: "take_bit 6 (w::byte) = w \<Longrightarrow> unat w < 64"
  using take_bit_nat_less_exp [of 6 "unat w"] by (simp add: unsigned_take_bit_eq [symmetric])

lemma sx_lt64 [simp]:
  "unat (sx0 x) < 64" "unat (sx1 x y) < 64" "unat (sx2 y z) < 64" "unat (sx3 z) < 64"
  unfolding sx_defs by (rule byte_lt64, rule byte_eqI, simp_all add: bit_simps)+

text \<open>The decoder's byte expressions undo the sextets.\<close>

lemma sx_join [simp]:
  "(push_bit 2 (sx0 x) AND 0xFC) OR (drop_bit 4 (sx1 x y) AND 0x03) = x"
  "(push_bit 4 (sx1 x y) AND 0xF0) OR (drop_bit 2 (sx2 y z) AND 0x0F) = y"
  "(push_bit 6 (sx2 y z) AND 0xF0) OR (sx3 z AND 0x3F) = z"
  unfolding sx_defs by (rule byte_eqI, simp_all add: bit_simps)+

lemma base64char_length [simp]: "length base64char = 64"
  by code_simp

lemma b64_char_facts:
  assumes "i < 64"
  shows "b64_lookup (base64char ! i) = word_of_nat i"
    and "base64char ! i \<noteq> CHR ''=''" and "base64char ! i \<noteq> nul"
proof -
  let ?P = "\<lambda>i. b64_lookup (base64char ! i) = word_of_nat i \<and>
    base64char ! i \<noteq> CHR ''='' \<and> base64char ! i \<noteq> nul"
  have "list_all ?P [0..<64]" by code_simp
  then have "?P i" using assms by (rule list_all_upt_nth)
  then show "b64_lookup (base64char ! i) = word_of_nat i"
    and "base64char ! i \<noteq> CHR ''=''" and "base64char ! i \<noteq> nul" by auto
qed

lemma b64c_facts [simp]:
  assumes "unat w < 64"
  shows "b64_lookup (b64c w) = w" "b64c w \<noteq> CHR ''=''" "b64c w \<noteq> nul"
  using b64_char_facts [OF assms] by (simp_all add: b64c_def)

lemmas sx_bounds = sx_lt64 [unfolded sx_defs]
  sx_lt64(2) [of x 0, unfolded sx_defs, simplified]
  sx_lt64(3) [of y 0, unfolded sx_defs, simplified] for x y

lemma b64_enc_loop_ref:
  "b64_enc_loop (pre @ bs) (length (pre @ bs)) (length pre) out = Inr (out @ b64_ref bs)"
proof (induction bs arbitrary: pre out rule: b64_ref.induct)
  case 1
  show ?case by (subst b64_enc_loop.simps) simp
next
  case (2 x)
  show ?case
    by (subst b64_enc_loop.simps) (simp add: nth_append sx_bounds sx_defs b64c_def Let_def)
next
  case (3 x y)
  show ?case
    by (subst b64_enc_loop.simps) (simp add: nth_append sx_bounds sx_defs b64c_def Let_def)
next
  case (4 x y z bs)
  have "b64_enc_loop (pre @ x # y # z # bs) (length (pre @ x # y # z # bs)) (length pre) out =
    b64_enc_loop ((pre @ [x, y, z]) @ bs) (length ((pre @ [x, y, z]) @ bs)) (length (pre @ [x, y, z]))
      (out @ [b64c (sx0 x), b64c (sx1 x y), b64c (sx2 y z), b64c (sx3 z)])"
    by (subst b64_enc_loop.simps)
      (simp add: nth_append sx_bounds sx_defs b64c_def Let_def numeral_3_eq_3)
  then show ?case using "4.IH" [of "pre @ [x, y, z]"] by simp
qed

lemma bio_base64_encode_ref: "bio_base64_encode bs (length bs) = Inr (b64_ref bs)"
  using b64_enc_loop_ref [of "[]" bs "[]"] by (simp add: bio_base64_encode_def)

section \<open>Decoding\<close>

text \<open>One group of the text: \<open>pre\<close> has been read, \<open>rest\<close> follows.\<close>

lemma b64_dec_group:
  assumes "c0 \<noteq> nul"
  shows "b64_dec_loop (pre @ c0 # c1 # c2 # c3 # rest) (length pre) out =
    (let t0 = b64_lookup c0; t1 = b64_lookup c1; t2 = b64_lookup c2; t3 = b64_lookup c3;
         w0 = (push_bit 2 t0 AND 0xFC) OR (drop_bit 4 t1 AND 0x03);
         w1 = (push_bit 4 t1 AND 0xF0) OR (drop_bit 2 t2 AND 0x0F);
         w2 = (push_bit 6 t2 AND 0xF0) OR (t3 AND 0x3F)
     in if c2 = CHR ''='' then Inr (out @ [w0])
        else if c3 = CHR ''='' then Inr (out @ [w0, w1])
        else b64_dec_loop ((pre @ [c0, c1, c2, c3]) @ rest) (length (pre @ [c0, c1, c2, c3]))
               (out @ [w0, w1, w2]))"
proof -
  have l: "length (pre @ [c0, c1, c2, c3]) = length pre + 4" by simp
  show ?thesis unfolding l
    using assms by (subst b64_dec_loop.simps) (simp add: nth_append Let_def)
qed

lemma b64_dec_end: "b64_dec_loop s (length s) out = Inr out"
  by (subst b64_dec_loop.simps) simp

lemma b64_dec_loop_ref:
  "b64_dec_loop (pre @ b64_ref bs) (length pre) out = Inr (out @ bs)"
proof (induction bs arbitrary: pre out rule: b64_ref.induct)
  case 1
  show ?case using b64_dec_end [of pre] by simp
next
  case (4 x y z bs)
  then show ?case
    by (simp add: b64_dec_group Let_def del: append_assoc length_append)
qed (simp_all add: b64_dec_group Let_def)

lemma bio_base64_decode_ref: "bio_base64_decode (b64_ref bs) = Inr bs"
  using b64_dec_loop_ref [of "[]" bs "[]"] by (simp add: bio_base64_decode_def)

lemma length_b64_ref: "length (b64_ref bs) = 4 * ((length bs + 2) div 3)"
proof (induction bs rule: b64_ref.induct)
  case (4 x y z bs)
  have "(length (x # y # z # bs) + 2) div 3 = Suc ((length bs + 2) div 3)"
    using div_add_self2 [of 3 "length bs + 2"] by simp
  then show ?case using 4 by simp
qed simp_all

lemma b64c_in_alphabet: "unat w < 64 \<Longrightarrow> b64c w \<in> set base64char"
  by (simp add: b64c_def)

lemma set_b64_ref: "set (b64_ref bs) \<subseteq> insert (CHR ''='') (set base64char)"
  by (induction bs rule: b64_ref.induct) (auto intro: b64c_in_alphabet)

text \<open>A text that ends inside a group: the reads of the group leave the string.\<close>

lemma b64_dec_short:
  assumes "nul \<notin> set s" "CHR ''='' \<notin> set s" "0 < length s" "length s < 4"
  shows "b64_dec_loop (pre @ s) (length pre) out = Inl Out_of_bounds"
proof (cases "length s = 3")
  case True
  then obtain c0 c1 c2 where s: "s = [c0, c1, c2]"
    by (auto simp: length_Suc_conv numeral_3_eq_3)
  have "nul \<noteq> CHR ''=''" by (simp add: nul_def)
  moreover have beyond: "b64_dec_loop (pre @ [c0, c1, c2]) (length pre + 4) out' = Inl Out_of_bounds"
    for out' by (subst b64_dec_loop.simps) simp
  ultimately show ?thesis using assms
    by (subst b64_dec_loop.simps) (auto simp: s nth_append rdz_def Let_def beyond)
next
  case False
  then obtain c0 where "s = [c0] \<or> (\<exists>c1. s = [c0, c1])"
    using assms by (cases s; cases "tl s"; cases "tl (tl s)") auto
  then show ?thesis using assms
    by (subst b64_dec_loop.simps) (auto simp: nth_append rdz_def)
qed

lemma b64_dec_loop_misaligned:
  assumes "CHR ''='' \<notin> set s" "nul \<notin> set s" "length s mod 4 \<noteq> 0"
  shows "b64_dec_loop (pre @ s) (length pre) out = Inl Out_of_bounds"
  using assms
proof (induction "length s" arbitrary: s pre out rule: less_induct)
  case less
  show ?case
  proof (cases "4 \<le> length s")
    case True
    then obtain c0 c1 c2 c3 rest where s: "s = c0 # c1 # c2 # c3 # rest"
      by (rule list_ge4)
    have "b64_dec_loop ((pre @ [c0, c1, c2, c3]) @ rest) (length (pre @ [c0, c1, c2, c3])) out' =
      Inl Out_of_bounds" for out'
      using less.prems by (intro less.hyps) (auto simp: s mod_Suc_eq)
    moreover have "c0 \<noteq> nul" "c2 \<noteq> CHR ''=''" "c3 \<noteq> CHR ''=''"
      using less.prems(1,2) by (auto simp: s)
    ultimately show ?thesis
      unfolding s by (subst b64_dec_group) (simp_all only: Let_def if_False not_False_eq_True)
  next
    case False
    with less.prems show ?thesis by (intro b64_dec_short) (auto intro!: Nat.gr0I)
  qed
qed

section \<open>Properties\<close>

text \<open>
  C23. Base64 round trip: encoding any byte string and decoding the text gives back the byte
  string, and neither direction reads outside its input.
\<close>

theorem base64_roundtrip:
  "bindR (bio_base64_encode bs (length bs)) bio_base64_decode = Inr bs"
  by (simp add: bio_base64_encode_ref bio_base64_decode_ref)

text \<open>
  The text produced for \<open>n\<close> bytes has exactly \<open>4 * \<lceil>n / 3\<rceil>\<close> characters, all of them in
  the alphabet or the padding sign: it holds no terminator, so the \<open>strlen\<close> the function
  returns is this length.
\<close>

theorem base64_encode_shape:
  "\<exists>s. bio_base64_encode bs (length bs) = Inr s \<and> length s = 4 * ((length bs + 2) div 3) \<and>
       set s \<subseteq> insert (CHR ''='') (set base64char) \<and> nul \<notin> set s"
proof -
  have "nul \<notin> insert (CHR ''='') (set base64char)" by code_simp
  then show ?thesis
    using set_b64_ref [of bs] by (auto simp: bio_base64_encode_ref length_b64_ref)
qed

text \<open>
  The decoder trusts its input: on a text without padding whose length is not a multiple
  of four it runs past the terminator.
\<close>

theorem base64_decode_misaligned:
  assumes "CHR ''='' \<notin> set s" "nul \<notin> set s" "length s mod 4 \<noteq> 0"
  shows "bio_base64_decode s = Inl Out_of_bounds"
  using b64_dec_loop_misaligned [OF assms, of "[]"] by (simp add: bio_base64_decode_def)

theorem base64_decode_misaligned_witness:
  "bio_base64_decode ''QUJD9'' = Inl Out_of_bounds"
  by (rule base64_decode_misaligned) (simp_all add: nul_def)

end
