(* ===== verification/Aes_Cfb.thy ===== *)
theory Aes_Cfb
  imports Bio_Prelude
begin

text \<open>
  \<open>src/src/drivers/community-multidevice/aes_128_cfb.c\<close>: AES with a 128-bit key, and the CFB
  mode in which the community driver encrypts a fingerprint template before it is stored. A
  \<open>state[4][4]\<close> array is the list of its four rows; the loop nests over \<open>r\<close> and \<open>c\<close> that write
  every element once build it with \<open>mat\<close>.
\<close>

unbundle bit_operations_syntax

section \<open>Tables and arrays\<close>

type_synonym state = "byte list list"
type_synonym schedule = "state list"

definition SBox :: "byte list" where
  "SBox =
  [0x63, 0x7c, 0x77, 0x7b, 0xf2, 0x6b, 0x6f, 0xc5, 0x30, 0x01, 0x67, 0x2b, 0xfe, 0xd7, 0xab, 0x76,
   0xca, 0x82, 0xc9, 0x7d, 0xfa, 0x59, 0x47, 0xf0, 0xad, 0xd4, 0xa2, 0xaf, 0x9c, 0xa4, 0x72, 0xc0,
   0xb7, 0xfd, 0x93, 0x26, 0x36, 0x3f, 0xf7, 0xcc, 0x34, 0xa5, 0xe5, 0xf1, 0x71, 0xd8, 0x31, 0x15,
   0x04, 0xc7, 0x23, 0xc3, 0x18, 0x96, 0x05, 0x9a, 0x07, 0x12, 0x80, 0xe2, 0xeb, 0x27, 0xb2, 0x75,
   0x09, 0x83, 0x2c, 0x1a, 0x1b, 0x6e, 0x5a, 0xa0, 0x52, 0x3b, 0xd6, 0xb3, 0x29, 0xe3, 0x2f, 0x84,
   0x53, 0xd1, 0x00, 0xed, 0x20, 0xfc, 0xb1, 0x5b, 0x6a, 0xcb, 0xbe, 0x39, 0x4a, 0x4c, 0x58, 0xcf,
   0xd0, 0xef, 0xaa, 0xfb, 0x43, 0x4d, 0x33, 0x85, 0x45, 0xf9, 0x02, 0x7f, 0x50, 0x3c, 0x9f, 0xa8,
   0x51, 0xa3, 0x40, 0x8f, 0x92, 0x9d, 0x38, 0xf5, 0xbc, 0xb6, 0xda, 0x21, 0x10, 0xff, 0xf3, 0xd2,
   0xcd, 0x0c, 0x13, 0xec, 0x5f, 0x97, 0x44, 0x17, 0xc4, 0xa7, 0x7e, 0x3d, 0x64, 0x5d, 0x19, 0x73,
   0x60, 0x81, 0x4f, 0xdc, 0x22, 0x2a, 0x90, 0x88, 0x46, 0xee, 0xb8, 0x14, 0xde, 0x5e, 0x0b, 0xdb,
   0xe0, 0x32, 0x3a, 0x0a, 0x49, 0x06, 0x24, 0x5c, 0xc2, 0xd3, 0xac, 0x62, 0x91, 0x95, 0xe4, 0x79,
   0xe7, 0xc8, 0x37, 0x6d, 0x8d, 0xd5, 0x4e, 0xa9, 0x6c, 0x56, 0xf4, 0xea, 0x65, 0x7a, 0xae, 0x08,
   0xba, 0x78, 0x25, 0x2e, 0x1c, 0xa6, 0xb4, 0xc6, 0xe8, 0xdd, 0x74, 0x1f, 0x4b, 0xbd, 0x8b, 0x8a,
   0x70, 0x3e, 0xb5, 0x66, 0x48, 0x03, 0xf6, 0x0e, 0x61, 0x35, 0x57, 0xb9, 0x86, 0xc1, 0x1d, 0x9e,
   0xe1, 0xf8, 0x98, 0x11, 0x69, 0xd9, 0x8e, 0x94, 0x9b, 0x1e, 0x87, 0xe9, 0xce, 0x55, 0x28, 0xdf,
   0x8c, 0xa1, 0x89, 0x0d, 0xbf, 0xe6, 0x42, 0x68, 0x41, 0x99, 0x2d, 0x0f, 0xb0, 0x54, 0xbb, 0x16]"

definition InvSBox :: "byte list" where
  "InvSBox =
  [0x52, 0x09, 0x6a, 0xd5, 0x30, 0x36, 0xa5, 0x38, 0xbf, 0x40, 0xa3, 0x9e, 0x81, 0xf3, 0xd7, 0xfb,
   0x7c, 0xe3, 0x39, 0x82, 0x9b, 0x2f, 0xff, 0x87, 0x34, 0x8e, 0x43, 0x44, 0xc4, 0xde, 0xe9, 0xcb,
   0x54, 0x7b, 0x94, 0x32, 0xa6, 0xc2, 0x23, 0x3d, 0xee, 0x4c, 0x95, 0x0b, 0x42, 0xfa, 0xc3, 0x4e,
   0x08, 0x2e, 0xa1, 0x66, 0x28, 0xd9, 0x24, 0xb2, 0x76, 0x5b, 0xa2, 0x49, 0x6d, 0x8b, 0xd1, 0x25,
   0x72, 0xf8, 0xf6, 0x64, 0x86, 0x68, 0x98, 0x16, 0xd4, 0xa4, 0x5c, 0xcc, 0x5d, 0x65, 0xb6, 0x92,
   0x6c, 0x70, 0x48, 0x50, 0xfd, 0xed, 0xb9, 0xda, 0x5e, 0x15, 0x46, 0x57, 0xa7, 0x8d, 0x9d, 0x84,
   0x90, 0xd8, 0xab, 0x00, 0x8c, 0xbc, 0xd3, 0x0a, 0xf7, 0xe4, 0x58, 0x05, 0xb8, 0xb3, 0x45, 0x06,
   0xd0, 0x2c, 0x1e, 0x8f, 0xca, 0x3f, 0x0f, 0x02, 0xc1, 0xaf, 0xbd, 0x03, 0x01, 0x13, 0x8a, 0x6b,
   0x3a, 0x91, 0x11, 0x41, 0x4f, 0x67, 0xdc, 0xea, 0x97, 0xf2, 0xcf, 0xce, 0xf0, 0xb4, 0xe6, 0x73,
   0x96, 0xac, 0x74, 0x22, 0xe7, 0xad, 0x35, 0x85, 0xe2, 0xf9, 0x37, 0xe8, 0x1c, 0x75, 0xdf, 0x6e,
   0x47, 0xf1, 0x1a, 0x71, 0x1d, 0x29, 0xc5, 0x89, 0x6f, 0xb7, 0x62, 0x0e, 0xaa, 0x18, 0xbe, 0x1b,
   0xfc, 0x56, 0x3e, 0x4b, 0xc6, 0xd2, 0x79, 0x20, 0x9a, 0xdb, 0xc0, 0xfe, 0x78, 0xcd, 0x5a, 0xf4,
   0x1f, 0xdd, 0xa8, 0x33, 0x88, 0x07, 0xc7, 0x31, 0xb1, 0x12, 0x10, 0x59, 0x27, 0x80, 0xec, 0x5f,
   0x60, 0x51, 0x7f, 0xa9, 0x19, 0xb5, 0x4a, 0x0d, 0x2d, 0xe5, 0x7a, 0x9f, 0x93, 0xc9, 0x9c, 0xef,
   0xa0, 0xe0, 0x3b, 0x4d, 0xae, 0x2a, 0xf5, 0xb0, 0xc8, 0xeb, 0xbb, 0x3c, 0x83, 0x53, 0x99, 0x61,
   0x17, 0x2b, 0x04, 0x7e, 0xba, 0x77, 0xd6, 0x26, 0xe1, 0x69, 0x14, 0x63, 0x55, 0x21, 0x0c, 0x7d]"

definition mat :: "(nat \<Rightarrow> nat \<Rightarrow> byte) \<Rightarrow> state" where
  "mat f = map (\<lambda>r. map (f r) [0..<4]) [0..<4]"

section \<open>Key expansion\<close>

text \<open>An assignment \<open>w[i][r][j] = v\<close>.\<close>

definition w_upd :: "schedule \<Rightarrow> nat \<Rightarrow> nat \<Rightarrow> nat \<Rightarrow> byte \<Rightarrow> schedule" where
  "w_upd w i r j v = w[i := (w ! i)[r := (w ! i ! r)[j := v]]]"

definition rc :: "byte list" where
  "rc = [0x01, 0x02, 0x04, 0x08, 0x10, 0x20, 0x40, 0x80, 0x1b, 0x36]"

text \<open>The body of the loop over \<open>j\<close>: the word \<open>t\<close>, rotated and substituted for the first
  column, then the four assignments of the column.\<close>

definition key_word :: "schedule \<Rightarrow> nat \<Rightarrow> nat \<Rightarrow> byte list" where
  "key_word w i j =
     (let t = map (\<lambda>r. if j \<noteq> 0 then w ! i ! r ! (j - 1) else w ! (i - 1) ! r ! 3) [0..<4]
      in if j = 0
         then [(SBox ! unat (t ! 1)) XOR rc ! (i - 1), SBox ! unat (t ! 2),
               SBox ! unat (t ! 3), SBox ! unat (t ! 0)]
         else t)"

definition key_column :: "schedule \<Rightarrow> nat \<times> nat \<Rightarrow> schedule" where
  "key_column w ij =
     (let (i, j) = ij; t = key_word w i j
      in foldl (\<lambda>w r. w_upd w i r j ((w ! (i - 1) ! r ! j) XOR t ! r)) w [0..<4])"

definition keyExpansion :: "byte list \<Rightarrow> schedule res" where
  "keyExpansion key =
     (if length key < 16 then Inl Out_of_bounds
      else Inr (foldl key_column
        (mat (\<lambda>r c. key ! (r + c * 4)) # replicate 10 (mat (\<lambda>r c. 0)))
        (concat (map (\<lambda>i. map (Pair i) [0..<4]) [1..<11]))))"

section \<open>Round functions\<close>

definition ff_double :: "byte \<Rightarrow> byte" where
  "ff_double x = (if x AND 0x80 \<noteq> 0 then push_bit 1 x XOR 0x1b else push_bit 1 x)"

definition FFmul :: "byte \<Rightarrow> byte \<Rightarrow> byte" where
  "FFmul a b =
     (let b1 = ff_double b; b2 = ff_double b1; b3 = ff_double b2; bw = [b, b1, b2, b3]
      in foldl (\<lambda>res i. if drop_bit i a AND 0x01 \<noteq> 0 then res XOR bw ! i else res) 0 [0..<4])"

definition subBytes :: "state \<Rightarrow> state" where
  "subBytes s = mat (\<lambda>r c. SBox ! unat (s ! r ! c))"

definition shiftRows :: "state \<Rightarrow> state" where
  "shiftRows s = mat (\<lambda>r c. if 1 \<le> r then s ! r ! ((c + r) mod 4) else s ! r ! c)"

definition mixColumns :: "state \<Rightarrow> state" where
  "mixColumns s = mat (\<lambda>r c.
     FFmul 0x02 (s ! r ! c) XOR FFmul 0x03 (s ! ((r + 1) mod 4) ! c) XOR
     FFmul 0x01 (s ! ((r + 2) mod 4) ! c) XOR FFmul 0x01 (s ! ((r + 3) mod 4) ! c))"

definition invSubBytes :: "state \<Rightarrow> state" where
  "invSubBytes s = mat (\<lambda>r c. InvSBox ! unat (s ! r ! c))"

definition invShiftRows :: "state \<Rightarrow> state" where
  "invShiftRows s = mat (\<lambda>r c. if 1 \<le> r then s ! r ! ((c + 4 - r) mod 4) else s ! r ! c)"

definition invMixColumns :: "state \<Rightarrow> state" where
  "invMixColumns s = mat (\<lambda>r c.
     FFmul 0x0e (s ! r ! c) XOR FFmul 0x0b (s ! ((r + 1) mod 4) ! c) XOR
     FFmul 0x0d (s ! ((r + 2) mod 4) ! c) XOR FFmul 0x09 (s ! ((r + 3) mod 4) ! c))"

definition addRoundKey :: "state \<Rightarrow> state \<Rightarrow> state" where
  "addRoundKey s k = mat (\<lambda>r c. (s ! r ! c) XOR (k ! r ! c))"

section \<open>The block cipher and its inverse\<close>

definition load_state :: "byte list \<Rightarrow> state" where
  "load_state inp = mat (\<lambda>r c. inp ! (c * 4 + r))"

definition store_state :: "state \<Rightarrow> byte list" where
  "store_state s = map (\<lambda>k. s ! (k mod 4) ! (k div 4)) [0..<16]"

definition cipher_round :: "schedule \<Rightarrow> state \<Rightarrow> nat \<Rightarrow> state" where
  "cipher_round w s i =
     (let s = shiftRows (subBytes s); s = (if i \<noteq> 10 then mixColumns s else s)
      in addRoundKey s (w ! i))"

definition cipher :: "schedule \<Rightarrow> byte list \<Rightarrow> byte list" where
  "cipher w input =
     store_state (foldl (cipher_round w) (addRoundKey (load_state input) (w ! 0)) [1..<11])"

definition inv_cipher_round :: "schedule \<Rightarrow> state \<Rightarrow> nat \<Rightarrow> state" where
  "inv_cipher_round w s i =
     (let s = addRoundKey (invSubBytes (invShiftRows s)) (w ! i)
      in if i \<noteq> 0 then invMixColumns s else s)"

definition invCipher :: "schedule \<Rightarrow> byte list \<Rightarrow> byte list" where
  "invCipher w input =
     store_state (foldl (inv_cipher_round w) (addRoundKey (load_state input) (w ! 10)) (rev [0..<10]))"

section \<open>Cipher feedback mode\<close>

text \<open>
  One iteration of the loop over \<open>r\<close>: \<open>n = end - start\<close> bytes of the data, padded with zeros to
  a block, the key stream of the feedback register, and the 16 bytes both sides combine to.
  The loop carries the feedback register (initially \<open>iv\<close>) and the data not yet processed.
\<close>

definition cfb_block :: "nat \<Rightarrow> byte list \<Rightarrow> byte list \<Rightarrow> byte list" where
  "cfb_block n blk ks = map (\<lambda>i. if i < n then blk ! i XOR ks ! i else 0 XOR ks ! i) [0..<16]"

definition pad_block :: "byte list \<Rightarrow> byte list" where
  "pad_block d = take 16 d @ replicate (16 - length d) 0"

fun cfb_encrypt_rounds :: "schedule \<Rightarrow> byte list \<Rightarrow> byte list \<Rightarrow> byte list" where
  "cfb_encrypt_rounds w fb [] = []"
| "cfb_encrypt_rounds w fb (d # ds) =
     (let n = min 16 (length (d # ds));
          plainText = pad_block (d # ds);
          cipherText = cfb_block n plainText (cipher w fb)
      in take n cipherText @ cfb_encrypt_rounds w cipherText (drop 16 (d # ds)))"

fun cfb_decrypt_rounds :: "schedule \<Rightarrow> byte list \<Rightarrow> byte list \<Rightarrow> byte list" where
  "cfb_decrypt_rounds w fb [] = []"
| "cfb_decrypt_rounds w fb (d # ds) =
     (let n = min 16 (length (d # ds));
          cipherText = pad_block (d # ds);
          plainText = cfb_block n cipherText (cipher w fb)
      in take n plainText @ cfb_decrypt_rounds w cipherText (drop 16 (d # ds)))"

definition AES_128_CFB_Encrypt ::
    "byte list \<Rightarrow> byte list \<Rightarrow> byte list \<Rightarrow> nat \<Rightarrow> byte list res" where
  "AES_128_CFB_Encrypt key iv inData inLen =
     bindR (keyExpansion key) (\<lambda>w.
     if length iv < 16 \<or> length inData < inLen then Inl Out_of_bounds
     else Inr (cfb_encrypt_rounds w (take 16 iv) (take inLen inData)))"

definition AES_128_CFB_Decrypt ::
    "byte list \<Rightarrow> byte list \<Rightarrow> byte list \<Rightarrow> nat \<Rightarrow> byte list res" where
  "AES_128_CFB_Decrypt key iv inData inLen =
     bindR (keyExpansion key) (\<lambda>w.
     if length iv < 16 \<or> length inData < inLen then Inl Out_of_bounds
     else Inr (cfb_decrypt_rounds w (take 16 iv) (take inLen inData)))"

section \<open>Matrices\<close>

lemma mat_nth [simp]: "r < 4 \<Longrightarrow> c < 4 \<Longrightarrow> mat f ! r ! c = f r c"
  by (simp add: mat_def)

lemma mat_cong: "(\<And>r c. r < 4 \<Longrightarrow> c < 4 \<Longrightarrow> f r c = g r c) \<Longrightarrow> mat f = mat g"
  by (simp add: mat_def)

text \<open>A well-formed state is the matrix of its own entries.\<close>

definition wf_state :: "state \<Rightarrow> bool" where
  "wf_state s \<longleftrightarrow> s = mat (\<lambda>r c. s ! r ! c)"

lemma wf_mat [simp]: "wf_state (mat f)"
  unfolding wf_state_def by (rule mat_cong) simp

lemma wf_round_functions [simp]:
  "wf_state (subBytes s)" "wf_state (shiftRows s)" "wf_state (mixColumns s)"
  "wf_state (addRoundKey s k)" "wf_state (load_state inp)"
  by (simp_all add: subBytes_def shiftRows_def mixColumns_def addRoundKey_def load_state_def)

lemma mat_eq_wf: "wf_state s \<Longrightarrow> (\<And>r c. r < 4 \<Longrightarrow> c < 4 \<Longrightarrow> f r c = s ! r ! c) \<Longrightarrow> mat f = s"
  by (subst (2) wf_state_def [THEN iffD1], assumption) (rule mat_cong)

lemma lt4_cases: "(r::nat) < 4 \<Longrightarrow> r = 0 \<or> r = 1 \<or> r = 2 \<or> r = 3"
  by auto

section \<open>Every round function has its inverse\<close>

lemma addRoundKey_inverse [simp]: "wf_state s \<Longrightarrow> addRoundKey (addRoundKey s k) k = s"
  unfolding addRoundKey_def by (rule mat_eq_wf) (simp_all add: xor.assoc)

lemma SBox_inverse [simp]: "InvSBox ! unat (SBox ! unat x) = x"
proof -
  have "list_all (\<lambda>i. InvSBox ! unat (SBox ! i) = word_of_nat i) [0..<256]"
    by code_simp
  moreover have "unat x < 256" using unsigned_less [of x] by simp
  ultimately show ?thesis
    using list_all_upt_nth [of "\<lambda>i. InvSBox ! unat (SBox ! i) = word_of_nat i" 256 "unat x"] by simp
qed

lemma subBytes_inverse [simp]: "wf_state s \<Longrightarrow> invSubBytes (subBytes s) = s"
  unfolding invSubBytes_def subBytes_def by (rule mat_eq_wf) simp_all

lemma shiftRows_inverse [simp]: "wf_state s \<Longrightarrow> invShiftRows (shiftRows s) = s"
  unfolding invShiftRows_def shiftRows_def
  by (rule mat_eq_wf) (auto dest!: lt4_cases simp: numeral_2_eq_2 [symmetric] simp del: One_nat_def)

lemma ff_double_xor: "ff_double (x XOR y) = ff_double x XOR ff_double y"
proof -
  have bit7: "(z AND 0x80 \<noteq> 0) = bit z 7" for z :: byte
  proof -
    have "z AND 0x80 = (if bit z 7 then 0x80 else 0)"
      by (rule byte_eqI) (simp_all add: bit_simps)
    then show ?thesis by simp
  qed
  show ?thesis
    unfolding ff_double_def bit7
    by (rule byte_eqI) (auto simp: bit_simps)
qed

lemma FFmul_xor: "FFmul a (x XOR y) = FFmul a x XOR FFmul a y"
  by (simp add: FFmul_def Let_def ff_double_xor upt_rec ac_simps)

lemma FFmul_consts:
  "FFmul 0x01 x = x"
  "FFmul 0x02 x = ff_double x"
  "FFmul 0x03 x = x XOR ff_double x"
  "FFmul 0x09 x = x XOR ff_double (ff_double (ff_double x))"
  "FFmul 0x0b x = x XOR ff_double x XOR ff_double (ff_double (ff_double x))"
  "FFmul 0x0d x = x XOR ff_double (ff_double x) XOR ff_double (ff_double (ff_double x))"
  "FFmul 0x0e x = ff_double x XOR ff_double (ff_double x) XOR ff_double (ff_double (ff_double x))"
  by (simp_all add: FFmul_def Let_def upt_rec xor.assoc)

lemmas FFmul_expand = FFmul_consts FFmul_xor ff_double_xor

text \<open>The product of the two MixColumns matrices is the identity, entry by entry.\<close>

lemma xor_self_left [simp]: "(x::byte) XOR (x XOR y) = y"
  by (simp add: xor.assoc [symmetric])

lemma mixColumns_inverse [simp]: "wf_state s \<Longrightarrow> invMixColumns (mixColumns s) = s"
  unfolding invMixColumns_def mixColumns_def
  by (rule mat_eq_wf) (auto dest!: lt4_cases simp: FFmul_expand ac_simps numeral_2_eq_2 [symmetric] simp del: One_nat_def)

section \<open>The inverse cipher\<close>

text \<open>
  After the step for round \<open>i\<close> the inverse cipher holds the state that the forward cipher had
  after the ShiftRows of round \<open>i\<close> (after the last step, the initial state).
\<close>

definition cipher_states :: "schedule \<Rightarrow> state \<Rightarrow> nat \<Rightarrow> state" where
  "cipher_states w s n = foldl (cipher_round w) s [1..<Suc n]"

lemma cipher_states_Suc:
  "cipher_states w s (Suc n) = cipher_round w (cipher_states w s n) (Suc n)"
  by (simp add: cipher_states_def)

lemma wf_cipher_states [simp]: "wf_state s \<Longrightarrow> wf_state (cipher_states w s n)"
  by (cases n) (simp_all add: cipher_states_def cipher_round_def Let_def)

lemma inv_cipher_round_undoes:
  assumes "wf_state s" "i \<le> 9"
  shows "inv_cipher_round w (shiftRows (subBytes (cipher_states w s i))) i =
    (if i = 0 then addRoundKey s (w ! 0) else shiftRows (subBytes (cipher_states w s (i - 1))))"
proof (cases i)
  case 0
  then show ?thesis using assms
    by (simp add: inv_cipher_round_def cipher_states_def Let_def)
next
  case (Suc k)
  have "cipher_states w s i = addRoundKey (mixColumns (shiftRows (subBytes (cipher_states w s k)))) (w ! i)"
    using assms(2) by (simp add: Suc cipher_states_Suc cipher_round_def Let_def)
  then show ?thesis using assms by (simp add: inv_cipher_round_def Suc Let_def)
qed

lemma inv_cipher_rounds:
  "wf_state s \<Longrightarrow> n \<le> 9 \<Longrightarrow>
   foldl (inv_cipher_round w) (shiftRows (subBytes (cipher_states w s n))) (rev [0..<Suc n]) =
     addRoundKey s (w ! 0)"
proof (induction n)
  case 0
  then show ?case by (simp add: inv_cipher_round_undoes)
next
  case (Suc n)
  then show ?case by (simp add: inv_cipher_round_undoes)
qed

lemma load_store [simp]: "wf_state s \<Longrightarrow> load_state (store_state s) = s"
  unfolding load_state_def store_state_def by (rule mat_eq_wf) (auto dest!: lt4_cases)

lemma nth_16_cases: "length xs = 16 \<Longrightarrow> (\<And>k. k < 16 \<Longrightarrow> ys k = xs ! k) \<Longrightarrow> map ys [0..<16] = xs"
  by (rule nth_equalityI) auto

lemma store_load: "length inp = 16 \<Longrightarrow> store_state (load_state inp) = inp"
  unfolding store_state_def load_state_def
  by (rule nth_16_cases) auto

lemma invCipher_cipher:
  assumes "length inp = 16"
  shows "invCipher w (cipher w inp) = inp"
proof -
  let ?s = "addRoundKey (load_state inp) (w ! 0)"
  have "cipher w inp = store_state (cipher_states w ?s 10)"
    by (simp add: cipher_def cipher_states_def)
  moreover have "cipher_states w ?s 10 = addRoundKey (shiftRows (subBytes (cipher_states w ?s 9))) (w ! 10)"
    using cipher_states_Suc [of w ?s 9] by (simp add: cipher_round_def)
  ultimately have "invCipher w (cipher w inp) =
      store_state (foldl (inv_cipher_round w) (shiftRows (subBytes (cipher_states w ?s 9))) (rev [0..<Suc 9]))"
    by (simp add: invCipher_def)
  also have "\<dots> = store_state (addRoundKey ?s (w ! 0))"
    by (subst inv_cipher_rounds) simp_all
  finally show ?thesis using assms by (simp add: store_load)
qed

section \<open>Cipher feedback is a bijection on data of any length\<close>

lemma length_cfb_block [simp]: "length (cfb_block n b k) = 16"
  by (simp add: cfb_block_def)

lemma length_pad_block [simp]: "length (pad_block d) = 16"
  by (simp add: pad_block_def)

lemma pad_block_nth: "i < length d \<Longrightarrow> i < 16 \<Longrightarrow> pad_block d ! i = d ! i"
  by (simp add: pad_block_def nth_append)

lemma cfb_block_undo:
  assumes "n \<le> 16" "length p = 16" "\<And>i. i < n \<Longrightarrow> b ! i = cfb_block n p k ! i"
  shows "take n (cfb_block n b k) = take n p"
proof (rule nth_equalityI)
  show "length (take n (cfb_block n b k)) = length (take n p)" using assms by simp
  fix i assume "i < length (take n (cfb_block n b k))"
  then have i: "i < n" "i < 16" using assms(1) by auto
  then have "cfb_block n b k ! i = (p ! i XOR k ! i) XOR k ! i"
    using assms(3) [of i] by (simp add: cfb_block_def)
  then show "take n (cfb_block n b k) ! i = take n p ! i" using i by (simp add: xor.assoc)
qed

lemma cfb_roundtrip: "cfb_decrypt_rounds w fb (cfb_encrypt_rounds w fb d) = d"
proof (induction w fb d rule: cfb_encrypt_rounds.induct)
  case (2 w fb d ds)
  let ?D = "d # ds" let ?n = "min 16 (length ?D)"
  let ?k = "cipher w fb" let ?c = "cfb_block ?n (pad_block ?D) ?k"
  let ?E = "take ?n ?c @ cfb_encrypt_rounds w ?c (drop 16 ?D)"
  have enc: "cfb_encrypt_rounds w fb ?D = ?E" by (simp add: Let_def)
  have n: "take ?n ?D = take 16 ?D" by (simp add: min_def)
  have E: "min 16 (length ?E) = ?n" "drop 16 ?E = cfb_encrypt_rounds w ?c (drop 16 ?D)"
    by (auto simp: min_def)
  have "?c \<noteq> []" using length_cfb_block by (metis list.size(3) zero_neq_numeral)
  then obtain e es where Ee: "?E = e # es" by (cases ?E) auto
  have undo: "take ?n (cfb_block ?n (pad_block ?E) ?k) = take ?n (pad_block ?D)"
    by (rule cfb_block_undo) (auto simp: pad_block_def nth_append)
  have fb: "16 \<le> length ?D \<Longrightarrow> pad_block ?E = ?c"
    by (simp add: pad_block_def)
  have "cfb_decrypt_rounds w fb ?E = take ?n (cfb_block ?n (pad_block ?E) ?k) @
      cfb_decrypt_rounds w (pad_block ?E) (drop 16 ?E)"
    by (metis Ee E(1) cfb_decrypt_rounds.simps(2))
  also have "\<dots> = take 16 ?D @ cfb_decrypt_rounds w (pad_block ?E) (cfb_encrypt_rounds w ?c (drop 16 ?D))"
    unfolding E(2) undo by (simp add: pad_block_def min_def)
  also have "\<dots> = take 16 ?D @ drop 16 ?D"
  proof (cases "16 \<le> length ?D")
    case True
    then show ?thesis using "2.IH" [OF refl refl refl] fb by simp
  next
    case False
    then show ?thesis by simp
  qed
  finally show ?case unfolding enc by simp
qed simp

lemma length_cfb_encrypt: "length (cfb_encrypt_rounds w fb d) = length d"
  by (induction w fb d rule: cfb_encrypt_rounds.induct) (auto simp: Let_def)
lemma length_cfb_decrypt: "length (cfb_decrypt_rounds w fb d) = length d"
  by (induction w fb d rule: cfb_decrypt_rounds.induct) (auto simp: Let_def)

lemma AES_Encrypt_eq:
  "16 \<le> length key \<Longrightarrow> 16 \<le> length iv \<Longrightarrow> n \<le> length d \<Longrightarrow>
   \<exists>w. keyExpansion key = Inr w \<and>
       AES_128_CFB_Encrypt key iv d n = Inr (cfb_encrypt_rounds w (take 16 iv) (take n d))"
  by (simp add: AES_128_CFB_Encrypt_def keyExpansion_def)

section \<open>Properties\<close>

text \<open>
  The inverse cipher undoes the cipher: for every block of 16 bytes and every key
  schedule, decrypting the encrypted block gives the block back. This rests on every round
  function having its inverse: the two substitution tables, the row rotations, and the product
  of the two MixColumns matrices over GF(2^8).
\<close>

theorem aes_block_inverse:
  assumes "length inp = 16"
  shows "invCipher w (cipher w inp) = inp"
  using assms by (rule invCipher_cipher)

theorem aes_block_inverse_witness:
  "length (replicate 16 (0x2a::byte)) = 16 \<and>
   invCipher (replicate 11 (mat (\<lambda>r c. 7))) (cipher (replicate 11 (mat (\<lambda>r c. 7))) (replicate 16 0x2a)) =
     replicate 16 0x2a"
  using aes_block_inverse [of "replicate 16 0x2a"] by simp

text \<open>
  C22. CFB encryption followed by CFB decryption with the same key and initial vector is the
  identity on data of every length, the last partial block included, and keeps the length.
\<close>

theorem aes_cfb_roundtrip:
  assumes "16 \<le> length key" "16 \<le> length iv"
  shows "\<exists>e. AES_128_CFB_Encrypt key iv d (length d) = Inr e \<and> length e = length d \<and>
    AES_128_CFB_Decrypt key iv e (length e) = Inr d"
  using assms
  by (simp add: AES_128_CFB_Encrypt_def AES_128_CFB_Decrypt_def keyExpansion_def
      length_cfb_encrypt cfb_roundtrip)

theorem aes_cfb_roundtrip_witness:
  "\<exists>e. AES_128_CFB_Encrypt (replicate 16 1) (replicate 16 2) [3, 4, 5] 3 = Inr e \<and> length e = 3 \<and>
    AES_128_CFB_Decrypt (replicate 16 1) (replicate 16 2) e (length e) = Inr [3, 4, 5]"
  using aes_cfb_roundtrip [of "replicate 16 1" "replicate 16 2" "[3, 4, 5]"]
  by (simp add: numeral_3_eq_3)

end
