(* ===== verification/Template_Codec.thy ===== *)
theory Template_Codec
  imports Bio_Base64 Aes_Cfb "HOL-Library.Char_ord"
begin

text \<open>
  The path of a fingerprint template through the community driver: the AES key the driver
  configures (\<open>community_para_config\<close>), encryption and Base64 when \<open>on_enroll_completed\<close>
  stores the template, and the reverse when \<open>community_ops_verify\<close> and \<open>create_prints\<close> read it.
  Sources: \<open>src/src/drivers/community-multidevice/driver_internal.c\<close>, \<open>close.c\<close>,
  \<open>community_ops.c\<close>.
\<close>

section \<open>The AES key buffer\<close>

definition byte_of_char :: "char \<Rightarrow> byte" where
  "byte_of_char c = word_of_nat (of_char c)"

definition DEFAULT_AES_KEY :: string where
  "DEFAULT_AES_KEY = ''This is UKUI default AES key.''"

definition DEFAULT_AES_KEY_MAX_LEN :: nat where
  "DEFAULT_AES_KEY_MAX_LEN = 256 div 8"

definition default_key_buf :: "byte list" where
  "default_key_buf = map byte_of_char DEFAULT_AES_KEY @ [0]"

text \<open>
  What the function asks of its environment: the \<open>AESKey\<close> entry of the driver's configuration
  group (\<open>None\<close> for a \<open>GError\<close>), whether that file exists and is readable, and its content
  (\<open>None\<close> when \<open>fopen\<close> fails).
\<close>

record key_env =
  aes_key_file :: "string option"
  key_readable :: "string \<Rightarrow> bool"
  key_content :: "string \<Rightarrow> byte list option"

text \<open>The buffer \<open>priv->aes_key\<close>, terminator included, after \<open>community_para_config\<close>.\<close>

definition community_para_config :: "key_env \<Rightarrow> byte list" where
  "community_para_config env =
     (case aes_key_file env of
        None \<Rightarrow> default_key_buf
      | Some key_file \<Rightarrow>
          if \<not> key_readable env key_file then default_key_buf
          else case key_content env key_file of
            None \<Rightarrow> default_key_buf
          | Some content \<Rightarrow>
              let len = length content in
              if len = 0 then default_key_buf
              else let len = (if DEFAULT_AES_KEY_MAX_LEN < len then DEFAULT_AES_KEY_MAX_LEN else len);
                       aes_key = take len content @ [0]
                   in if aes_key ! 0 = 0 then default_key_buf else aes_key)"

section \<open>Encryption and decryption of a template\<close>

definition aes_iv :: "byte list" where
  "aes_iv = map word_of_nat [0..<16]"

text \<open>Pointers are options; on a null pointer the functions return \<open>-1\<close> and write nothing.\<close>

definition community_internal_aes_encrypt ::
    "byte list option \<Rightarrow> nat \<Rightarrow> byte list option \<Rightarrow> byte list option \<Rightarrow> (int \<times> byte list option) res" where
  "community_internal_aes_encrypt inp len key out =
     (case (inp, key, out) of
        (Some i, Some k, Some _) \<Rightarrow> bindR (AES_128_CFB_Encrypt k aes_iv i len) (\<lambda>o'. Inr (0, Some o'))
      | _ \<Rightarrow> Inr (-1, out))"

definition community_internal_aes_decrypt ::
    "byte list option \<Rightarrow> nat \<Rightarrow> byte list option \<Rightarrow> byte list option \<Rightarrow> (int \<times> byte list option) res" where
  "community_internal_aes_decrypt inp len key out =
     (case (inp, key, out) of
        (Some i, Some k, Some _) \<Rightarrow> bindR (AES_128_CFB_Decrypt k aes_iv i len) (\<lambda>o'. Inr (0, Some o'))
      | _ \<Rightarrow> Inr (-1, out))"

text \<open>Writing \<open>n\<close> bytes into a buffer of \<open>cap\<close> bytes.\<close>

definition fits :: "nat \<Rightarrow> nat \<Rightarrow> unit res" where
  "fits n cap = (if n \<le> cap then Inr () else Inl Out_of_bounds)"

definition buf_alloc :: "nat \<Rightarrow> byte list" where
  "buf_alloc n = replicate n 0"

text \<open>
  \<open>on_enroll_completed\<close>, from the serialised template to the string that is stored:
  \<open>feature_data\<close> has \<open>size\<close> bytes, \<open>feature_encode\<close> has \<open>size * 2 + 1\<close>.
\<close>

definition encode_template :: "byte list option \<Rightarrow> byte list \<Rightarrow> string res" where
  "encode_template aes_key data =
     (let data_size = length data; feature_data = buf_alloc data_size in
      bindR (community_internal_aes_encrypt (Some data) data_size aes_key (Some feature_data)) (\<lambda>(_, fd).
      case fd of None \<Rightarrow> Inl Null_deref | Some feature_data \<Rightarrow>
      bindR (bio_base64_encode feature_data data_size) (\<lambda>feature_encode.
      bindR (fits (length feature_encode + 1) (data_size * 2 + 1)) (\<lambda>_. Inr feature_encode))))"

text \<open>
  \<open>community_ops_verify\<close> and \<open>create_prints\<close>, from the stored string (\<open>sample->data\<close>) and its
  recorded size (\<open>sample->no\<close>) to the buffer handed to \<open>fp_print_deserialize\<close>.
\<close>

definition decode_template :: "byte list option \<Rightarrow> string \<Rightarrow> nat \<Rightarrow> byte list res" where
  "decode_template aes_key data no =
     bindR (bio_base64_decode data) (\<lambda>dec.
     bindR (fits (length dec) no) (\<lambda>_.
     let feature_data = dec @ drop (length dec) (buf_alloc no) in
     bindR (community_internal_aes_decrypt (Some feature_data) no aes_key (Some (buf_alloc no))) (\<lambda>(_, td).
     case td of None \<Rightarrow> Inl Null_deref | Some template_data \<Rightarrow> Inr template_data)))"

section \<open>Lemmas\<close>

lemma length_aes_iv [simp]: "length aes_iv = 16"
  by (simp add: aes_iv_def)

lemma length_default_key_buf: "length default_key_buf = 30"
  by (simp add: default_key_buf_def DEFAULT_AES_KEY_def)

lemma encode_template_eq:
  assumes "16 \<le> length k" "length data \<noteq> 1"
  shows "\<exists>w. keyExpansion k = Inr w \<and>
    encode_template (Some k) data = Inr (b64_ref (cfb_encrypt_rounds w aes_iv data))"
proof -
  obtain w where w: "keyExpansion k = Inr w"
    "AES_128_CFB_Encrypt k aes_iv data (length data) = Inr (cfb_encrypt_rounds w aes_iv data)"
    using AES_Encrypt_eq [OF assms(1), of aes_iv "length data" data] by auto
  let ?e = "cfb_encrypt_rounds w aes_iv data"
  have l: "length ?e = length data" by (rule length_cfb_encrypt)
  have "bio_base64_encode ?e (length data) = Inr (b64_ref ?e)"
    using bio_base64_encode_ref [of ?e] unfolding l .
  moreover have "4 * ((length data + 2) div 3) \<le> length data * 2"
    using assms(2) by presburger
  ultimately show ?thesis using w
    by (simp add: encode_template_def community_internal_aes_encrypt_def fits_def length_b64_ref l)
qed

lemma encode_template_single:
  assumes "16 \<le> length k"
  shows "encode_template (Some k) [b] = Inl Out_of_bounds"
proof -
  obtain w where w: "AES_128_CFB_Encrypt k aes_iv [b] 1 = Inr (cfb_encrypt_rounds w aes_iv [b])"
    using AES_Encrypt_eq [OF assms, of aes_iv 1 "[b]"] by auto
  let ?e = "cfb_encrypt_rounds w aes_iv [b]"
  have l: "length ?e = 1" using length_cfb_encrypt [of w aes_iv "[b]"] by simp
  then have "bio_base64_encode ?e 1 = Inr (b64_ref ?e)"
    using bio_base64_encode_ref [of ?e] by simp
  then show ?thesis using w l
    by (simp add: encode_template_def community_internal_aes_encrypt_def fits_def length_b64_ref)
qed

lemma decode_encoded:
  assumes "16 \<le> length k" "length data \<noteq> 1"
  shows "\<exists>s. encode_template (Some k) data = Inr s \<and> decode_template (Some k) s (length data) = Inr data"
proof -
  obtain w where w: "keyExpansion k = Inr w"
    "encode_template (Some k) data = Inr (b64_ref (cfb_encrypt_rounds w aes_iv data))"
    using encode_template_eq [OF assms] by blast
  then show ?thesis
    by (simp add: decode_template_def bio_base64_decode_ref length_cfb_encrypt fits_def buf_alloc_def
        community_internal_aes_decrypt_def AES_128_CFB_Decrypt_def cfb_roundtrip)
qed

section \<open>Properties\<close>

text \<open>
  C21. What enrolment stores is what verification compares against: decoding the stored string
  with the recorded size gives back the serialised template, for every template of other than
  one byte and every key of at least 16 bytes; every buffer access on the way is in bounds.
\<close>

theorem template_roundtrip:
  assumes "16 \<le> length k" "length data \<noteq> 1"
  shows "bindR (encode_template (Some k) data) (\<lambda>s. decode_template (Some k) s (length data)) = Inr data"
  using decode_encoded [OF assms] by auto

theorem template_roundtrip_witness:
  "bindR (encode_template (Some default_key_buf) [1, 2, 3])
     (\<lambda>s. decode_template (Some default_key_buf) s 3) = Inr [1, 2, 3]"
  using template_roundtrip [of default_key_buf "[1, 2, 3]"]
  by (simp add: length_default_key_buf numeral_3_eq_3)

text \<open>
  The output buffer of \<open>size * 2 + 1\<close> bytes is large enough for the encoded text of every
  template except one of a single byte, whose four characters and terminator need five bytes
  where three are allocated.
\<close>

theorem template_encode_bounds:
  assumes "16 \<le> length k"
  shows "encode_template (Some k) data = Inl Out_of_bounds \<longleftrightarrow> length data = 1"
  using encode_template_eq [OF assms, of data] encode_template_single [OF assms]
  by (cases "length data = 1") (auto simp: length_Suc_conv)

theorem template_encode_bounds_witness:
  "encode_template (Some default_key_buf) [65] = Inl Out_of_bounds"
  using template_encode_bounds [of default_key_buf "[65]"] by (simp add: length_default_key_buf)

text \<open>
  The key expansion reads 16 bytes of the key buffer. The buffer that
  \<open>community_para_config\<close> leaves is long enough except for a readable key file with a
  content of one to fourteen bytes that does not start with 0.
\<close>

theorem aes_key_buffer_bounds:
  "keyExpansion (community_para_config env) = Inl Out_of_bounds \<longleftrightarrow>
     (\<exists>path content. aes_key_file env = Some path \<and> key_readable env path \<and>
        key_content env path = Some content \<and> content \<noteq> [] \<and> hd content \<noteq> 0 \<and> length content < 15)"
proof -
  have "nth (take n c @ [0]) 0 = hd c" if "c \<noteq> []" "0 < n" for n and c :: "byte list"
    using that by (cases c; cases n) auto
  then show ?thesis
    by (auto simp: community_para_config_def keyExpansion_def length_default_key_buf
        DEFAULT_AES_KEY_MAX_LEN_def Let_def split: option.splits if_splits)
qed

end
