(* ===== verification/Bio_Status.thy ===== *)
theory Bio_Status
  imports Bio_Prelude
begin

text \<open>
  The device record of \<open>src/src/lib/biometric_common.h\<close>, the codes of its three status words,
  and the functions of \<open>biometric_common.c\<close> that set them, notify the listeners and turn them
  into messages. The enumerations are C \<open>int\<close>s, since the code computes with them.
\<close>

section \<open>Status codes\<close>

abbreviation (input) DEVS_COMM_IDLE :: int where "DEVS_COMM_IDLE \<equiv> 0"
abbreviation (input) DEVS_COMM_DOING :: int where "DEVS_COMM_DOING \<equiv> 1"
abbreviation (input) DEVS_COMM_STOP_BY_USER :: int where "DEVS_COMM_STOP_BY_USER \<equiv> 2"
abbreviation (input) DEVS_COMM_DISABLE :: int where "DEVS_COMM_DISABLE \<equiv> 3"
abbreviation (input) DEVS_COMM_MAX :: int where "DEVS_COMM_MAX \<equiv> 4"
abbreviation (input) DEVS_OPEN_DOING :: int where "DEVS_OPEN_DOING \<equiv> 101"
abbreviation (input) DEVS_OPEN_STOP_BY_USER :: int where "DEVS_OPEN_STOP_BY_USER \<equiv> 102"
abbreviation (input) DEVS_OPEN_MAX :: int where "DEVS_OPEN_MAX \<equiv> 103"
abbreviation (input) DEVS_ENROLL_DOING :: int where "DEVS_ENROLL_DOING \<equiv> 201"
abbreviation (input) DEVS_ENROLL_STOP_BY_USER :: int where "DEVS_ENROLL_STOP_BY_USER \<equiv> 202"
abbreviation (input) DEVS_ENROLL_MAX :: int where "DEVS_ENROLL_MAX \<equiv> 203"
abbreviation (input) DEVS_VERIFY_DOING :: int where "DEVS_VERIFY_DOING \<equiv> 301"
abbreviation (input) DEVS_VERIFY_STOP_BY_USER :: int where "DEVS_VERIFY_STOP_BY_USER \<equiv> 302"
abbreviation (input) DEVS_VERIFY_MAX :: int where "DEVS_VERIFY_MAX \<equiv> 303"
abbreviation (input) DEVS_IDENTIFY_DOING :: int where "DEVS_IDENTIFY_DOING \<equiv> 401"
abbreviation (input) DEVS_IDENTIFY_STOP_BY_USER :: int where "DEVS_IDENTIFY_STOP_BY_USER \<equiv> 402"
abbreviation (input) DEVS_IDENTIFY_MAX :: int where "DEVS_IDENTIFY_MAX \<equiv> 403"
abbreviation (input) DEVS_CAPTURE_DOING :: int where "DEVS_CAPTURE_DOING \<equiv> 501"
abbreviation (input) DEVS_CAPTURE_STOP_BY_USER :: int where "DEVS_CAPTURE_STOP_BY_USER \<equiv> 502"
abbreviation (input) DEVS_CAPTURE_MAX :: int where "DEVS_CAPTURE_MAX \<equiv> 503"
abbreviation (input) DEVS_SEARCH_DOING :: int where "DEVS_SEARCH_DOING \<equiv> 601"
abbreviation (input) DEVS_SEARCH_STOP_BY_USER :: int where "DEVS_SEARCH_STOP_BY_USER \<equiv> 602"
abbreviation (input) DEVS_SEARCH_MAX :: int where "DEVS_SEARCH_MAX \<equiv> 603"
abbreviation (input) DEVS_CLEAN_DOING :: int where "DEVS_CLEAN_DOING \<equiv> 701"
abbreviation (input) DEVS_CLEAN_STOP_BY_USER :: int where "DEVS_CLEAN_STOP_BY_USER \<equiv> 702"
abbreviation (input) DEVS_CLEAN_MAX :: int where "DEVS_CLEAN_MAX \<equiv> 703"
abbreviation (input) DEVS_GET_FLIST_DOING :: int where "DEVS_GET_FLIST_DOING \<equiv> 801"
abbreviation (input) DEVS_GET_FLIST_STOP_BY_USER :: int where "DEVS_GET_FLIST_STOP_BY_USER \<equiv> 802"
abbreviation (input) DEVS_GET_FLIST_MAX :: int where "DEVS_GET_FLIST_MAX \<equiv> 803"
abbreviation (input) DEVS_RENAME_DOING :: int where "DEVS_RENAME_DOING \<equiv> 901"
abbreviation (input) DEVS_RENAME_STOP_BY_USER :: int where "DEVS_RENAME_STOP_BY_USER \<equiv> 902"
abbreviation (input) DEVS_RENAME_MAX :: int where "DEVS_RENAME_MAX \<equiv> 903"
abbreviation (input) DEVS_CLOSE_DOING :: int where "DEVS_CLOSE_DOING \<equiv> 1001"
abbreviation (input) DEVS_CLOSE_STOP_BY_USER :: int where "DEVS_CLOSE_STOP_BY_USER \<equiv> 1002"
abbreviation (input) DEVS_CLOSE_MAX :: int where "DEVS_CLOSE_MAX \<equiv> 1003"

abbreviation (input) OPS_COMM_SUCCESS :: int where "OPS_COMM_SUCCESS \<equiv> 0"
abbreviation (input) OPS_COMM_FAIL :: int where "OPS_COMM_FAIL \<equiv> 1"
abbreviation (input) OPS_COMM_NO_MATCH :: int where "OPS_COMM_NO_MATCH \<equiv> 1"
abbreviation (input) OPS_COMM_ERROR :: int where "OPS_COMM_ERROR \<equiv> 2"
abbreviation (input) OPS_COMM_STOP_BY_USER :: int where "OPS_COMM_STOP_BY_USER \<equiv> 3"
abbreviation (input) OPS_COMM_TIMEOUT :: int where "OPS_COMM_TIMEOUT \<equiv> 4"
abbreviation (input) OPS_COMM_OUT_OF_MEM :: int where "OPS_COMM_OUT_OF_MEM \<equiv> 5"
abbreviation (input) OPS_COMM_MAX :: int where "OPS_COMM_MAX \<equiv> 6"
abbreviation (input) OPS_OPEN_SUCCESS :: int where "OPS_OPEN_SUCCESS \<equiv> 100"
abbreviation (input) OPS_OPEN_FAIL :: int where "OPS_OPEN_FAIL \<equiv> 101"
abbreviation (input) OPS_OPEN_ERROR :: int where "OPS_OPEN_ERROR \<equiv> 102"
abbreviation (input) OPS_OPEN_MAX :: int where "OPS_OPEN_MAX \<equiv> 103"
abbreviation (input) OPS_ENROLL_SUCCESS :: int where "OPS_ENROLL_SUCCESS \<equiv> 200"
abbreviation (input) OPS_ENROLL_FAIL :: int where "OPS_ENROLL_FAIL \<equiv> 201"
abbreviation (input) OPS_ENROLL_ERROR :: int where "OPS_ENROLL_ERROR \<equiv> 202"
abbreviation (input) OPS_ENROLL_STOP_BY_USER :: int where "OPS_ENROLL_STOP_BY_USER \<equiv> 203"
abbreviation (input) OPS_ENROLL_TIMEOUT :: int where "OPS_ENROLL_TIMEOUT \<equiv> 204"
abbreviation (input) OPS_ENROLL_MAX :: int where "OPS_ENROLL_MAX \<equiv> 205"
abbreviation (input) OPS_VERIFY_MATCH :: int where "OPS_VERIFY_MATCH \<equiv> 300"
abbreviation (input) OPS_VERIFY_NO_MATCH :: int where "OPS_VERIFY_NO_MATCH \<equiv> 301"
abbreviation (input) OPS_VERIFY_ERROR :: int where "OPS_VERIFY_ERROR \<equiv> 302"
abbreviation (input) OPS_VERIFY_STOP_BY_USER :: int where "OPS_VERIFY_STOP_BY_USER \<equiv> 303"
abbreviation (input) OPS_VERIFY_TIMEOUT :: int where "OPS_VERIFY_TIMEOUT \<equiv> 304"
abbreviation (input) OPS_VERIFY_MAX :: int where "OPS_VERIFY_MAX \<equiv> 305"
abbreviation (input) OPS_IDENTIFY_MATCH :: int where "OPS_IDENTIFY_MATCH \<equiv> 400"
abbreviation (input) OPS_IDENTIFY_NO_MATCH :: int where "OPS_IDENTIFY_NO_MATCH \<equiv> 401"
abbreviation (input) OPS_IDENTIFY_ERROR :: int where "OPS_IDENTIFY_ERROR \<equiv> 402"
abbreviation (input) OPS_IDENTIFY_STOP_BY_USER :: int where "OPS_IDENTIFY_STOP_BY_USER \<equiv> 403"
abbreviation (input) OPS_IDENTIFY_TIMEOUT :: int where "OPS_IDENTIFY_TIMEOUT \<equiv> 404"
abbreviation (input) OPS_IDENTIFY_MAX :: int where "OPS_IDENTIFY_MAX \<equiv> 405"
abbreviation (input) OPS_CAPTURE_SUCCESS :: int where "OPS_CAPTURE_SUCCESS \<equiv> 500"
abbreviation (input) OPS_CAPTURE_FAIL :: int where "OPS_CAPTURE_FAIL \<equiv> 501"
abbreviation (input) OPS_CAPTURE_ERROR :: int where "OPS_CAPTURE_ERROR \<equiv> 502"
abbreviation (input) OPS_CAPTURE_STOP_BY_USER :: int where "OPS_CAPTURE_STOP_BY_USER \<equiv> 503"
abbreviation (input) OPS_CAPTURE_TIMEOUT :: int where "OPS_CAPTURE_TIMEOUT \<equiv> 504"
abbreviation (input) OPS_CAPTURE_MAX :: int where "OPS_CAPTURE_MAX \<equiv> 505"
abbreviation (input) OPS_SEARCH_MATCH :: int where "OPS_SEARCH_MATCH \<equiv> 600"
abbreviation (input) OPS_SEARCH_NO_MATCH :: int where "OPS_SEARCH_NO_MATCH \<equiv> 601"
abbreviation (input) OPS_SEARCH_ERROR :: int where "OPS_SEARCH_ERROR \<equiv> 602"
abbreviation (input) OPS_SEARCH_STOP_BY_USER :: int where "OPS_SEARCH_STOP_BY_USER \<equiv> 603"
abbreviation (input) OPS_SEARCH_TIMEOUT :: int where "OPS_SEARCH_TIMEOUT \<equiv> 604"
abbreviation (input) OPS_SEARCH_MAX :: int where "OPS_SEARCH_MAX \<equiv> 605"
abbreviation (input) OPS_CLEAN_SUCCESS :: int where "OPS_CLEAN_SUCCESS \<equiv> 700"
abbreviation (input) OPS_CLEAN_FAIL :: int where "OPS_CLEAN_FAIL \<equiv> 701"
abbreviation (input) OPS_CLEAN_ERROR :: int where "OPS_CLEAN_ERROR \<equiv> 702"
abbreviation (input) OPS_CLEAN_STOP_BY_USER :: int where "OPS_CLEAN_STOP_BY_USER \<equiv> 703"
abbreviation (input) OPS_CLEAN_TIMEOUT :: int where "OPS_CLEAN_TIMEOUT \<equiv> 704"
abbreviation (input) OPS_CLEAN_MAX :: int where "OPS_CLEAN_MAX \<equiv> 705"
abbreviation (input) OPS_GET_FLIST_SUCCESS :: int where "OPS_GET_FLIST_SUCCESS \<equiv> 800"
abbreviation (input) OPS_GET_FLIST_FAIL :: int where "OPS_GET_FLIST_FAIL \<equiv> 801"
abbreviation (input) OPS_GET_FLIST_ERROR :: int where "OPS_GET_FLIST_ERROR \<equiv> 802"
abbreviation (input) OPS_GET_FLIST_STOP_BY_USER :: int where "OPS_GET_FLIST_STOP_BY_USER \<equiv> 803"
abbreviation (input) OPS_GET_FLIST_TIMEOUT :: int where "OPS_GET_FLIST_TIMEOUT \<equiv> 804"
abbreviation (input) OPS_GET_FLIST_MAX :: int where "OPS_GET_FLIST_MAX \<equiv> 805"
abbreviation (input) OPS_RENAME_SUCCESS :: int where "OPS_RENAME_SUCCESS \<equiv> 900"
abbreviation (input) OPS_RENAME_FAIL :: int where "OPS_RENAME_FAIL \<equiv> 901"
abbreviation (input) OPS_RENAME_ERROR :: int where "OPS_RENAME_ERROR \<equiv> 902"
abbreviation (input) OPS_RENAME_STOP_BY_USER :: int where "OPS_RENAME_STOP_BY_USER \<equiv> 903"
abbreviation (input) OPS_RENAME_TIMEOUT :: int where "OPS_RENAME_TIMEOUT \<equiv> 904"
abbreviation (input) OPS_RENAME_MAX :: int where "OPS_RENAME_MAX \<equiv> 905"
abbreviation (input) OPS_CLOSE_SUCCESS :: int where "OPS_CLOSE_SUCCESS \<equiv> 1000"
abbreviation (input) OPS_CLOSE_FAIL :: int where "OPS_CLOSE_FAIL \<equiv> 1001"
abbreviation (input) OPS_CLOSE_ERROR :: int where "OPS_CLOSE_ERROR \<equiv> 1002"
abbreviation (input) OPS_CLOSE_MAX :: int where "OPS_CLOSE_MAX \<equiv> 1003"

abbreviation (input) NOTIFY_COMM_IDLE :: int where "NOTIFY_COMM_IDLE \<equiv> 0"
abbreviation (input) NOTIFY_COMM_SUCCESS :: int where "NOTIFY_COMM_SUCCESS \<equiv> 0"
abbreviation (input) NOTIFY_COMM_FAIL :: int where "NOTIFY_COMM_FAIL \<equiv> 1"
abbreviation (input) NOTIFY_COMM_NO_MATCH :: int where "NOTIFY_COMM_NO_MATCH \<equiv> 1"
abbreviation (input) NOTIFY_COMM_ERROR :: int where "NOTIFY_COMM_ERROR \<equiv> 2"
abbreviation (input) NOTIFY_COMM_STOP_BY_USER :: int where "NOTIFY_COMM_STOP_BY_USER \<equiv> 3"
abbreviation (input) NOTIFY_COMM_TIMEOUT :: int where "NOTIFY_COMM_TIMEOUT \<equiv> 4"
abbreviation (input) NOTIFY_COMM_DISABLE :: int where "NOTIFY_COMM_DISABLE \<equiv> 5"
abbreviation (input) NOTIFY_COMM_OUT_OF_MEM :: int where "NOTIFY_COMM_OUT_OF_MEM \<equiv> 6"
abbreviation (input) NOTIFY_COMM_UNSUPPORTED_OPS :: int where "NOTIFY_COMM_UNSUPPORTED_OPS \<equiv> 7"
abbreviation (input) NOTIFY_COMM_MAX :: int where "NOTIFY_COMM_MAX \<equiv> 8"
abbreviation (input) NOTIFY_OPEN_SUCCESS :: int where "NOTIFY_OPEN_SUCCESS \<equiv> 100"
abbreviation (input) NOTIFY_OPEN_FAIL :: int where "NOTIFY_OPEN_FAIL \<equiv> 101"
abbreviation (input) NOTIFY_OPEN_ERROR :: int where "NOTIFY_OPEN_ERROR \<equiv> 102"
abbreviation (input) NOTIFY_OPEN_MAX :: int where "NOTIFY_OPEN_MAX \<equiv> 103"
abbreviation (input) NOTIFY_ENROLL_SUCCESS :: int where "NOTIFY_ENROLL_SUCCESS \<equiv> 200"
abbreviation (input) NOTIFY_ENROLL_FAIL :: int where "NOTIFY_ENROLL_FAIL \<equiv> 201"
abbreviation (input) NOTIFY_ENROLL_ERROR :: int where "NOTIFY_ENROLL_ERROR \<equiv> 202"
abbreviation (input) NOTIFY_ENROLL_STOP_BY_USER :: int where "NOTIFY_ENROLL_STOP_BY_USER \<equiv> 203"
abbreviation (input) NOTIFY_ENROLL_TIMEOUT :: int where "NOTIFY_ENROLL_TIMEOUT \<equiv> 204"
abbreviation (input) NOTIFY_ENROLL_MAX :: int where "NOTIFY_ENROLL_MAX \<equiv> 205"
abbreviation (input) NOTIFY_VERIFY_MATCH :: int where "NOTIFY_VERIFY_MATCH \<equiv> 300"
abbreviation (input) NOTIFY_VERIFY_NO_MATCH :: int where "NOTIFY_VERIFY_NO_MATCH \<equiv> 301"
abbreviation (input) NOTIFY_VERIFY_ERROR :: int where "NOTIFY_VERIFY_ERROR \<equiv> 302"
abbreviation (input) NOTIFY_VERIFY_STOP_BY_USER :: int where "NOTIFY_VERIFY_STOP_BY_USER \<equiv> 303"
abbreviation (input) NOTIFY_VERIFY_TIMEOUT :: int where "NOTIFY_VERIFY_TIMEOUT \<equiv> 304"
abbreviation (input) NOTIFY_VERIFY_MAX :: int where "NOTIFY_VERIFY_MAX \<equiv> 305"
abbreviation (input) NOTIFY_IDENTIFY_MATCH :: int where "NOTIFY_IDENTIFY_MATCH \<equiv> 400"
abbreviation (input) NOTIFY_IDENTIFY_NO_MATCH :: int where "NOTIFY_IDENTIFY_NO_MATCH \<equiv> 401"
abbreviation (input) NOTIFY_IDENTIFY_ERROR :: int where "NOTIFY_IDENTIFY_ERROR \<equiv> 402"
abbreviation (input) NOTIFY_IDENTIFY_STOP_BY_USER :: int where "NOTIFY_IDENTIFY_STOP_BY_USER \<equiv> 403"
abbreviation (input) NOTIFY_IDENTIFY_TIMEOUT :: int where "NOTIFY_IDENTIFY_TIMEOUT \<equiv> 404"
abbreviation (input) NOTIFY_IDENTIFY_MAX :: int where "NOTIFY_IDENTIFY_MAX \<equiv> 405"
abbreviation (input) NOTIFY_CAPTURE_SUCCESS :: int where "NOTIFY_CAPTURE_SUCCESS \<equiv> 500"
abbreviation (input) NOTIFY_CAPTURE_FAIL :: int where "NOTIFY_CAPTURE_FAIL \<equiv> 501"
abbreviation (input) NOTIFY_CAPTURE_ERROR :: int where "NOTIFY_CAPTURE_ERROR \<equiv> 502"
abbreviation (input) NOTIFY_CAPTURE_STOP_BY_USER :: int where "NOTIFY_CAPTURE_STOP_BY_USER \<equiv> 503"
abbreviation (input) NOTIFY_CAPTURE_TIMEOUT :: int where "NOTIFY_CAPTURE_TIMEOUT \<equiv> 504"
abbreviation (input) NOTIFY_CAPTURE_MAX :: int where "NOTIFY_CAPTURE_MAX \<equiv> 505"
abbreviation (input) NOTIFY_SEARCH_MATCH :: int where "NOTIFY_SEARCH_MATCH \<equiv> 600"
abbreviation (input) NOTIFY_SEARCH_NO_MATCH :: int where "NOTIFY_SEARCH_NO_MATCH \<equiv> 601"
abbreviation (input) NOTIFY_SEARCH_ERROR :: int where "NOTIFY_SEARCH_ERROR \<equiv> 602"
abbreviation (input) NOTIFY_SEARCH_STOP_BY_USER :: int where "NOTIFY_SEARCH_STOP_BY_USER \<equiv> 603"
abbreviation (input) NOTIFY_SEARCH_TIMEOUT :: int where "NOTIFY_SEARCH_TIMEOUT \<equiv> 604"
abbreviation (input) NOTIFY_SEARCH_MAX :: int where "NOTIFY_SEARCH_MAX \<equiv> 605"
abbreviation (input) NOTIFY_CLEAN_SUCCESS :: int where "NOTIFY_CLEAN_SUCCESS \<equiv> 700"
abbreviation (input) NOTIFY_CLEAN_FAIL :: int where "NOTIFY_CLEAN_FAIL \<equiv> 701"
abbreviation (input) NOTIFY_CLEAN_ERROR :: int where "NOTIFY_CLEAN_ERROR \<equiv> 702"
abbreviation (input) NOTIFY_CLEAN_STOP_BY_USER :: int where "NOTIFY_CLEAN_STOP_BY_USER \<equiv> 703"
abbreviation (input) NOTIFY_CLEAN_TIMEOUT :: int where "NOTIFY_CLEAN_TIMEOUT \<equiv> 704"
abbreviation (input) NOTIFY_CLEAN_MAX :: int where "NOTIFY_CLEAN_MAX \<equiv> 705"
abbreviation (input) NOTIFY_GET_FLIST_SUCCESS :: int where "NOTIFY_GET_FLIST_SUCCESS \<equiv> 800"
abbreviation (input) NOTIFY_GET_FLIST_FAIL :: int where "NOTIFY_GET_FLIST_FAIL \<equiv> 801"
abbreviation (input) NOTIFY_GET_FLIST_ERROR :: int where "NOTIFY_GET_FLIST_ERROR \<equiv> 802"
abbreviation (input) NOTIFY_GET_FLIST_STOP_BY_USER :: int where "NOTIFY_GET_FLIST_STOP_BY_USER \<equiv> 803"
abbreviation (input) NOTIFY_GET_FLIST_TIMEOUT :: int where "NOTIFY_GET_FLIST_TIMEOUT \<equiv> 804"
abbreviation (input) NOTIFY_GET_FLIST_MAX :: int where "NOTIFY_GET_FLIST_MAX \<equiv> 805"
abbreviation (input) NOTIFY_RENAME_SUCCESS :: int where "NOTIFY_RENAME_SUCCESS \<equiv> 900"
abbreviation (input) NOTIFY_RENAME_FAIL :: int where "NOTIFY_RENAME_FAIL \<equiv> 901"
abbreviation (input) NOTIFY_RENAME_ERROR :: int where "NOTIFY_RENAME_ERROR \<equiv> 902"
abbreviation (input) NOTIFY_RENAME_INCOMPLETE :: int where "NOTIFY_RENAME_INCOMPLETE \<equiv> 903"
abbreviation (input) NOTIFY_CLOSE_SUCCESS :: int where "NOTIFY_CLOSE_SUCCESS \<equiv> 1000"
abbreviation (input) NOTIFY_CLOSE_FAIL :: int where "NOTIFY_CLOSE_FAIL \<equiv> 1001"
abbreviation (input) NOTIFY_CLOSE_ERROR :: int where "NOTIFY_CLOSE_ERROR \<equiv> 1002"
abbreviation (input) NOTIFY_CLOSE_MAX :: int where "NOTIFY_CLOSE_MAX \<equiv> 1003"

text \<open>The enumerators of the three types, in the order of their declaration.\<close>

definition DevStatus :: "(string \<times> int) list" where
  "DevStatus =
  [(''DEVS_COMM_IDLE'', 0),
   (''DEVS_COMM_DOING'', 1),
   (''DEVS_COMM_STOP_BY_USER'', 2),
   (''DEVS_COMM_DISABLE'', 3),
   (''DEVS_COMM_MAX'', 4),
   (''DEVS_OPEN_DOING'', 101),
   (''DEVS_OPEN_STOP_BY_USER'', 102),
   (''DEVS_OPEN_MAX'', 103),
   (''DEVS_ENROLL_DOING'', 201),
   (''DEVS_ENROLL_STOP_BY_USER'', 202),
   (''DEVS_ENROLL_MAX'', 203),
   (''DEVS_VERIFY_DOING'', 301),
   (''DEVS_VERIFY_STOP_BY_USER'', 302),
   (''DEVS_VERIFY_MAX'', 303),
   (''DEVS_IDENTIFY_DOING'', 401),
   (''DEVS_IDENTIFY_STOP_BY_USER'', 402),
   (''DEVS_IDENTIFY_MAX'', 403),
   (''DEVS_CAPTURE_DOING'', 501),
   (''DEVS_CAPTURE_STOP_BY_USER'', 502),
   (''DEVS_CAPTURE_MAX'', 503),
   (''DEVS_SEARCH_DOING'', 601),
   (''DEVS_SEARCH_STOP_BY_USER'', 602),
   (''DEVS_SEARCH_MAX'', 603),
   (''DEVS_CLEAN_DOING'', 701),
   (''DEVS_CLEAN_STOP_BY_USER'', 702),
   (''DEVS_CLEAN_MAX'', 703),
   (''DEVS_GET_FLIST_DOING'', 801),
   (''DEVS_GET_FLIST_STOP_BY_USER'', 802),
   (''DEVS_GET_FLIST_MAX'', 803),
   (''DEVS_RENAME_DOING'', 901),
   (''DEVS_RENAME_STOP_BY_USER'', 902),
   (''DEVS_RENAME_MAX'', 903),
   (''DEVS_CLOSE_DOING'', 1001),
   (''DEVS_CLOSE_STOP_BY_USER'', 1002),
   (''DEVS_CLOSE_MAX'', 1003)]"

definition OpsResult :: "(string \<times> int) list" where
  "OpsResult =
  [(''OPS_COMM_SUCCESS'', 0),
   (''OPS_COMM_FAIL'', 1),
   (''OPS_COMM_NO_MATCH'', 1),
   (''OPS_COMM_ERROR'', 2),
   (''OPS_COMM_STOP_BY_USER'', 3),
   (''OPS_COMM_TIMEOUT'', 4),
   (''OPS_COMM_OUT_OF_MEM'', 5),
   (''OPS_COMM_MAX'', 6),
   (''OPS_OPEN_SUCCESS'', 100),
   (''OPS_OPEN_FAIL'', 101),
   (''OPS_OPEN_ERROR'', 102),
   (''OPS_OPEN_MAX'', 103),
   (''OPS_ENROLL_SUCCESS'', 200),
   (''OPS_ENROLL_FAIL'', 201),
   (''OPS_ENROLL_ERROR'', 202),
   (''OPS_ENROLL_STOP_BY_USER'', 203),
   (''OPS_ENROLL_TIMEOUT'', 204),
   (''OPS_ENROLL_MAX'', 205),
   (''OPS_VERIFY_MATCH'', 300),
   (''OPS_VERIFY_NO_MATCH'', 301),
   (''OPS_VERIFY_ERROR'', 302),
   (''OPS_VERIFY_STOP_BY_USER'', 303),
   (''OPS_VERIFY_TIMEOUT'', 304),
   (''OPS_VERIFY_MAX'', 305),
   (''OPS_IDENTIFY_MATCH'', 400),
   (''OPS_IDENTIFY_NO_MATCH'', 401),
   (''OPS_IDENTIFY_ERROR'', 402),
   (''OPS_IDENTIFY_STOP_BY_USER'', 403),
   (''OPS_IDENTIFY_TIMEOUT'', 404),
   (''OPS_IDENTIFY_MAX'', 405),
   (''OPS_CAPTURE_SUCCESS'', 500),
   (''OPS_CAPTURE_FAIL'', 501),
   (''OPS_CAPTURE_ERROR'', 502),
   (''OPS_CAPTURE_STOP_BY_USER'', 503),
   (''OPS_CAPTURE_TIMEOUT'', 504),
   (''OPS_CAPTURE_MAX'', 505),
   (''OPS_SEARCH_MATCH'', 600),
   (''OPS_SEARCH_NO_MATCH'', 601),
   (''OPS_SEARCH_ERROR'', 602),
   (''OPS_SEARCH_STOP_BY_USER'', 603),
   (''OPS_SEARCH_TIMEOUT'', 604),
   (''OPS_SEARCH_MAX'', 605),
   (''OPS_CLEAN_SUCCESS'', 700),
   (''OPS_CLEAN_FAIL'', 701),
   (''OPS_CLEAN_ERROR'', 702),
   (''OPS_CLEAN_STOP_BY_USER'', 703),
   (''OPS_CLEAN_TIMEOUT'', 704),
   (''OPS_CLEAN_MAX'', 705),
   (''OPS_GET_FLIST_SUCCESS'', 800),
   (''OPS_GET_FLIST_FAIL'', 801),
   (''OPS_GET_FLIST_ERROR'', 802),
   (''OPS_GET_FLIST_STOP_BY_USER'', 803),
   (''OPS_GET_FLIST_TIMEOUT'', 804),
   (''OPS_GET_FLIST_MAX'', 805),
   (''OPS_RENAME_SUCCESS'', 900),
   (''OPS_RENAME_FAIL'', 901),
   (''OPS_RENAME_ERROR'', 902),
   (''OPS_RENAME_STOP_BY_USER'', 903),
   (''OPS_RENAME_TIMEOUT'', 904),
   (''OPS_RENAME_MAX'', 905),
   (''OPS_CLOSE_SUCCESS'', 1000),
   (''OPS_CLOSE_FAIL'', 1001),
   (''OPS_CLOSE_ERROR'', 1002),
   (''OPS_CLOSE_MAX'', 1003)]"

definition NotifyMID :: "(string \<times> int) list" where
  "NotifyMID =
  [(''NOTIFY_COMM_IDLE'', 0),
   (''NOTIFY_COMM_SUCCESS'', 0),
   (''NOTIFY_COMM_FAIL'', 1),
   (''NOTIFY_COMM_NO_MATCH'', 1),
   (''NOTIFY_COMM_ERROR'', 2),
   (''NOTIFY_COMM_STOP_BY_USER'', 3),
   (''NOTIFY_COMM_TIMEOUT'', 4),
   (''NOTIFY_COMM_DISABLE'', 5),
   (''NOTIFY_COMM_OUT_OF_MEM'', 6),
   (''NOTIFY_COMM_UNSUPPORTED_OPS'', 7),
   (''NOTIFY_COMM_MAX'', 8),
   (''NOTIFY_OPEN_SUCCESS'', 100),
   (''NOTIFY_OPEN_FAIL'', 101),
   (''NOTIFY_OPEN_ERROR'', 102),
   (''NOTIFY_OPEN_MAX'', 103),
   (''NOTIFY_ENROLL_SUCCESS'', 200),
   (''NOTIFY_ENROLL_FAIL'', 201),
   (''NOTIFY_ENROLL_ERROR'', 202),
   (''NOTIFY_ENROLL_STOP_BY_USER'', 203),
   (''NOTIFY_ENROLL_TIMEOUT'', 204),
   (''NOTIFY_ENROLL_MAX'', 205),
   (''NOTIFY_VERIFY_MATCH'', 300),
   (''NOTIFY_VERIFY_NO_MATCH'', 301),
   (''NOTIFY_VERIFY_ERROR'', 302),
   (''NOTIFY_VERIFY_STOP_BY_USER'', 303),
   (''NOTIFY_VERIFY_TIMEOUT'', 304),
   (''NOTIFY_VERIFY_MAX'', 305),
   (''NOTIFY_IDENTIFY_MATCH'', 400),
   (''NOTIFY_IDENTIFY_NO_MATCH'', 401),
   (''NOTIFY_IDENTIFY_ERROR'', 402),
   (''NOTIFY_IDENTIFY_STOP_BY_USER'', 403),
   (''NOTIFY_IDENTIFY_TIMEOUT'', 404),
   (''NOTIFY_IDENTIFY_MAX'', 405),
   (''NOTIFY_CAPTURE_SUCCESS'', 500),
   (''NOTIFY_CAPTURE_FAIL'', 501),
   (''NOTIFY_CAPTURE_ERROR'', 502),
   (''NOTIFY_CAPTURE_STOP_BY_USER'', 503),
   (''NOTIFY_CAPTURE_TIMEOUT'', 504),
   (''NOTIFY_CAPTURE_MAX'', 505),
   (''NOTIFY_SEARCH_MATCH'', 600),
   (''NOTIFY_SEARCH_NO_MATCH'', 601),
   (''NOTIFY_SEARCH_ERROR'', 602),
   (''NOTIFY_SEARCH_STOP_BY_USER'', 603),
   (''NOTIFY_SEARCH_TIMEOUT'', 604),
   (''NOTIFY_SEARCH_MAX'', 605),
   (''NOTIFY_CLEAN_SUCCESS'', 700),
   (''NOTIFY_CLEAN_FAIL'', 701),
   (''NOTIFY_CLEAN_ERROR'', 702),
   (''NOTIFY_CLEAN_STOP_BY_USER'', 703),
   (''NOTIFY_CLEAN_TIMEOUT'', 704),
   (''NOTIFY_CLEAN_MAX'', 705),
   (''NOTIFY_GET_FLIST_SUCCESS'', 800),
   (''NOTIFY_GET_FLIST_FAIL'', 801),
   (''NOTIFY_GET_FLIST_ERROR'', 802),
   (''NOTIFY_GET_FLIST_STOP_BY_USER'', 803),
   (''NOTIFY_GET_FLIST_TIMEOUT'', 804),
   (''NOTIFY_GET_FLIST_MAX'', 805),
   (''NOTIFY_RENAME_SUCCESS'', 900),
   (''NOTIFY_RENAME_FAIL'', 901),
   (''NOTIFY_RENAME_ERROR'', 902),
   (''NOTIFY_RENAME_INCOMPLETE'', 903),
   (''NOTIFY_CLOSE_SUCCESS'', 1000),
   (''NOTIFY_CLOSE_FAIL'', 1001),
   (''NOTIFY_CLOSE_ERROR'', 1002),
   (''NOTIFY_CLOSE_MAX'', 1003)]"

text \<open>The kinds of change a listener is told about.\<close>

abbreviation (input) STATUS_TYPE_DEVICE :: int where "STATUS_TYPE_DEVICE \<equiv> 0"
abbreviation (input) STATUS_TYPE_OPERATION :: int where "STATUS_TYPE_OPERATION \<equiv> 1"
abbreviation (input) STATUS_TYPE_NOTIFY :: int where "STATUS_TYPE_NOTIFY \<equiv> 2"

section \<open>The device record\<close>

record api_version =
  v_major :: int
  v_minor :: int
  v_function :: int

datatype BioType = BioT_FingerPrint | BioT_FingerVein | BioT_Iris | BioT_Face | BioT_VoicePrint
datatype StoType = StoT_Device | StoT_OS | StoT_Mix
datatype EigType = EigT_Data | EigT_Eigenvalue | EigT_Eigenvector
datatype VerType = VerT_Hardware | VerT_Software | VerT_Mix | VerT_Other
datatype IdType = IdT_Hardware | IdT_Software | IdT_Mix | IdT_Other
datatype BusType = BusT_Serial | BusT_USB | BusT_PCIE | BusT_Any | BusT_Other

fun biotype_code :: "BioType \<Rightarrow> int" where
  "biotype_code BioT_FingerPrint = 0"
| "biotype_code BioT_FingerVein = 1"
| "biotype_code BioT_Iris = 2"
| "biotype_code BioT_Face = 3"
| "biotype_code BioT_VoicePrint = 4"

record usb_id =
  idVendor :: "16 word"
  idProduct :: "16 word"
  description :: "string option"

record BioInfo =
  biotype :: BioType
  stotype :: StoType
  eigtype :: EigType
  vertype :: VerType
  idtype :: IdType
  bustype :: BusType

text \<open>
  \<open>struct bio_dev_t\<close>. Strings that may be \<open>NULL\<close> are options; the function pointers of the
  driver are kept apart (theory \<open>Bio_Ops\<close>), except the status callback, which is the identity of
  a function.
\<close>

record bio_dev =
  driver_id :: int
  device_name :: "string option"
  full_name :: "string option"
  drv_api_version :: api_version
  enable :: int
  dev_num :: int
  bioinfo :: BioInfo
  serial_path :: string
  id_table :: "usb_id list option"
  driver_data :: int
  dev_status :: int
  ops_result :: int
  notify_mid :: int
  ops_status_changed_callback :: "nat option"

text \<open>
  The world a status function sees: the device, the global \<open>bio_status_changed_callback\<close>, and
  the calls made to listeners so far (function, driver id, type of the change).
\<close>

record world =
  w_dev :: bio_dev
  bio_status_changed_callback :: "nat option"
  w_calls :: "(nat \<times> int \<times> int) list"

definition upd_dev :: "(bio_dev \<Rightarrow> bio_dev) \<Rightarrow> 'a world_scheme \<Rightarrow> 'a world_scheme" where
  "upd_dev f w = w\<lparr>w_dev := f (w_dev w)\<rparr>"

section \<open>Getting and setting the status words\<close>

definition bio_get_dev_status :: "'a world_scheme \<Rightarrow> int" where
  "bio_get_dev_status w = dev_status (w_dev w)"

definition bio_get_ops_result :: "'a world_scheme \<Rightarrow> int" where
  "bio_get_ops_result w = ops_result (w_dev w)"

definition bio_get_notify_mid :: "'a world_scheme \<Rightarrow> int" where
  "bio_get_notify_mid w = notify_mid (w_dev w)"

definition bio_is_stop_by_user :: "'a world_scheme \<Rightarrow> bool" where
  "bio_is_stop_by_user w \<longleftrightarrow> dev_status (w_dev w) smod 100 = DEVS_COMM_STOP_BY_USER"

definition call_listener :: "nat \<Rightarrow> int \<Rightarrow> 'a world_scheme \<Rightarrow> 'a world_scheme" where
  "call_listener f type w = w\<lparr>w_calls := w_calls w @ [(f, driver_id (w_dev w), type)]\<rparr>"

text \<open>\<open>bio_status_changed_common_callback\<close>.\<close>

definition bio_status_changed_common_callback :: "int \<Rightarrow> 'a world_scheme \<Rightarrow> 'a world_scheme" where
  "bio_status_changed_common_callback type w =
     (case bio_status_changed_callback w of None \<Rightarrow> w | Some f \<Rightarrow> call_listener f type w)"

text \<open>
  The guarded calls of the device's own callback: only when it is set and is not the common
  callback, once per type of change.
\<close>

definition device_callback :: "int list \<Rightarrow> 'a world_scheme \<Rightarrow> 'a world_scheme" where
  "device_callback types w =
     (case ops_status_changed_callback (w_dev w) of
        None \<Rightarrow> w
      | Some f \<Rightarrow> if bio_status_changed_callback w = Some f then w
                  else foldl (\<lambda>w type. call_listener f type w) w types)"

definition notify_listeners :: "int list \<Rightarrow> 'a world_scheme \<Rightarrow> 'a world_scheme" where
  "notify_listeners types w =
     foldl (\<lambda>w type. bio_status_changed_common_callback type w) (device_callback types w) types"

definition bio_set_dev_status :: "int \<Rightarrow> 'a world_scheme \<Rightarrow> 'a world_scheme" where
  "bio_set_dev_status status w =
     notify_listeners [STATUS_TYPE_DEVICE] (upd_dev (\<lambda>d. d\<lparr>dev_status := status\<rparr>) w)"

definition bio_set_dev_abs_status :: "int \<Rightarrow> 'a world_scheme \<Rightarrow> 'a world_scheme" where
  "bio_set_dev_abs_status status w =
     notify_listeners [STATUS_TYPE_DEVICE] (upd_dev (\<lambda>d. d\<lparr>dev_status := status\<rparr>) w)"

definition bio_set_ops_result :: "int \<Rightarrow> 'a world_scheme \<Rightarrow> 'a world_scheme" where
  "bio_set_ops_result result w =
     (let ops = bio_get_dev_status w sdiv 100; result = result smod 100
      in notify_listeners [STATUS_TYPE_OPERATION]
           (upd_dev (\<lambda>d. d\<lparr>ops_result := ops * 100 + result\<rparr>) w))"

definition bio_set_ops_abs_result :: "int \<Rightarrow> 'a world_scheme \<Rightarrow> 'a world_scheme" where
  "bio_set_ops_abs_result result w =
     notify_listeners [STATUS_TYPE_OPERATION] (upd_dev (\<lambda>d. d\<lparr>ops_result := result\<rparr>) w)"

definition bio_set_notify_mid :: "int \<Rightarrow> 'a world_scheme \<Rightarrow> 'a world_scheme" where
  "bio_set_notify_mid mid w =
     (let ops = bio_get_dev_status w sdiv 100; mid = mid smod 100
      in notify_listeners [STATUS_TYPE_NOTIFY]
           (upd_dev (\<lambda>d. d\<lparr>notify_mid := ops * 100 + mid\<rparr>) w))"

definition bio_set_notify_abs_mid :: "int \<Rightarrow> 'a world_scheme \<Rightarrow> 'a world_scheme" where
  "bio_set_notify_abs_mid mid w =
     notify_listeners [STATUS_TYPE_NOTIFY] (upd_dev (\<lambda>d. d\<lparr>notify_mid := mid\<rparr>) w)"

definition bio_set_all_status :: "int \<Rightarrow> int \<Rightarrow> int \<Rightarrow> 'a world_scheme \<Rightarrow> 'a world_scheme" where
  "bio_set_all_status status result mid w =
     (let type = bio_get_dev_status w sdiv 100
      in notify_listeners [STATUS_TYPE_DEVICE, STATUS_TYPE_OPERATION, STATUS_TYPE_NOTIFY]
           (upd_dev (\<lambda>d. d\<lparr>dev_status := type * 100 + status smod 100,
                           ops_result := type * 100 + result smod 100,
                           notify_mid := type * 100 + mid smod 100\<rparr>) w))"

definition bio_set_all_abs_status :: "int \<Rightarrow> int \<Rightarrow> int \<Rightarrow> 'a world_scheme \<Rightarrow> 'a world_scheme" where
  "bio_set_all_abs_status status result mid w =
     notify_listeners [STATUS_TYPE_DEVICE, STATUS_TYPE_OPERATION, STATUS_TYPE_NOTIFY]
       (upd_dev (\<lambda>d. d\<lparr>dev_status := status, ops_result := result, notify_mid := mid\<rparr>) w)"

section \<open>Messages\<close>

text \<open>
  The driver's own function answers first (\<open>hook\<close>; calling a null pointer is a fault), then the
  \<open>switch\<close>, whose labels are distinct, and its \<open>default\<close>.
\<close>

definition dev_status_mesgs :: "(int \<times> string) list" where
  "dev_status_mesgs =
  [(DEVS_COMM_IDLE, ''Device idle''),
   (DEVS_COMM_DOING, ''Device is in process''),
   (DEVS_COMM_STOP_BY_USER, ''Terminating current operation''),
   (DEVS_COMM_DISABLE, ''Device is disabled''),
   (DEVS_OPEN_DOING, ''Opening device''),
   (DEVS_OPEN_STOP_BY_USER, ''Terminating open operation''),
   (DEVS_ENROLL_DOING, ''Enrolling''),
   (DEVS_ENROLL_STOP_BY_USER, ''Terminating enroll operation''),
   (DEVS_VERIFY_DOING, ''Verifying''),
   (DEVS_VERIFY_STOP_BY_USER, ''Terminating Verify operation''),
   (DEVS_IDENTIFY_DOING, ''Identifying''),
   (DEVS_IDENTIFY_STOP_BY_USER, ''Terminating identify operation''),
   (DEVS_CAPTURE_DOING, ''Capturing''),
   (DEVS_CAPTURE_STOP_BY_USER, ''Terminating capture operation''),
   (DEVS_SEARCH_DOING, ''Searching''),
   (DEVS_SEARCH_STOP_BY_USER, ''Terminating search operation''),
   (DEVS_CLEAN_DOING, ''Cleaning''),
   (DEVS_CLEAN_STOP_BY_USER, ''Terminating clean operation''),
   (DEVS_GET_FLIST_DOING, ''Getting feature list''),
   (DEVS_GET_FLIST_STOP_BY_USER, ''Terminating get feature list operation''),
   (DEVS_RENAME_DOING, ''Renaming feature''),
   (DEVS_RENAME_STOP_BY_USER, ''Terminating feature rename operation''),
   (DEVS_CLOSE_DOING, ''Closing''),
   (DEVS_CLOSE_STOP_BY_USER, ''Terminating close operation'')]"

definition ops_result_mesgs :: "(int \<times> string) list" where
  "ops_result_mesgs =
  [(OPS_COMM_SUCCESS, ''Operation successful''),
   (OPS_COMM_FAIL, ''Operation failed''),
   (OPS_COMM_ERROR, ''An error was encountered during the operation''),
   (OPS_COMM_STOP_BY_USER, ''The operation was interrupted by the user''),
   (OPS_COMM_TIMEOUT, ''Operation timeout''),
   (OPS_COMM_OUT_OF_MEM, ''Out of memory''),
   (OPS_OPEN_SUCCESS, ''Open device completion''),
   (OPS_OPEN_FAIL, ''Open device failed''),
   (OPS_OPEN_ERROR, ''An error was encountered during the opening''),
   (OPS_ENROLL_SUCCESS, ''Enroll feature successful''),
   (OPS_ENROLL_FAIL, ''Enroll feature failed''),
   (OPS_ENROLL_ERROR, ''An error was encountered during enrolling''),
   (OPS_ENROLL_STOP_BY_USER, ''Enroll operation was interrupted by the user''),
   (OPS_ENROLL_TIMEOUT, ''Enroll operation timeout''),
   (OPS_VERIFY_MATCH, ''Verify feature match''),
   (OPS_VERIFY_NO_MATCH, ''Verify feature no match''),
   (OPS_VERIFY_ERROR, ''An error was encountered during verifying''),
   (OPS_VERIFY_STOP_BY_USER, ''Verify operation was interrupted by the user''),
   (OPS_VERIFY_TIMEOUT, ''Verify operation timeout''),
   (OPS_IDENTIFY_MATCH, ''Identify feature match''),
   (OPS_IDENTIFY_NO_MATCH, ''Identify feature no match''),
   (OPS_IDENTIFY_ERROR, ''An error was encountered during identifying''),
   (OPS_IDENTIFY_STOP_BY_USER, ''Identify operation was interrupted by the user''),
   (OPS_IDENTIFY_TIMEOUT, ''Identify operation timeout''),
   (OPS_CAPTURE_SUCCESS, ''Capture feature successful''),
   (OPS_CAPTURE_FAIL, ''Capture feature failed''),
   (OPS_CAPTURE_ERROR, ''An error was encountered during capturing''),
   (OPS_CAPTURE_STOP_BY_USER, ''Capture operation was interrupted by the user''),
   (OPS_CAPTURE_TIMEOUT, ''Capture operation timeout''),
   (OPS_SEARCH_MATCH, ''Find the specified features''),
   (OPS_SEARCH_NO_MATCH, ''No specified features were found''),
   (OPS_SEARCH_ERROR, ''An error was encountered during searching''),
   (OPS_SEARCH_STOP_BY_USER, ''Search operation was interrupted by the user''),
   (OPS_SEARCH_TIMEOUT, ''Search operation timeout''),
   (OPS_CLEAN_SUCCESS, ''Clean feature successful''),
   (OPS_CLEAN_FAIL, ''Clean feature failed''),
   (OPS_CLEAN_ERROR, ''An error was encountered during cleaning''),
   (OPS_CLEAN_STOP_BY_USER, ''Clean operation was interrupted by the user''),
   (OPS_CLEAN_TIMEOUT, ''Clean operation timeout''),
   (OPS_GET_FLIST_SUCCESS, ''Get feature list completion''),
   (OPS_GET_FLIST_FAIL, ''Get feature list failed''),
   (OPS_GET_FLIST_ERROR, ''An error was encountered during getting feature list''),
   (OPS_RENAME_SUCCESS, ''Rename feature successful''),
   (OPS_RENAME_FAIL, ''Rename feature failed''),
   (OPS_RENAME_ERROR, ''An error was encountered during renaming''),
   (OPS_CLOSE_SUCCESS, ''Close device completion''),
   (OPS_CLOSE_FAIL, ''Close device failed''),
   (OPS_CLOSE_ERROR, ''An error was encountered during closing'')]"

definition notify_mid_mesgs :: "(int \<times> string) list" where
  "notify_mid_mesgs =
  [(NOTIFY_COMM_IDLE, ''Device idle''),
   (NOTIFY_COMM_FAIL, ''Operation failed''),
   (NOTIFY_COMM_ERROR, ''An error was encountered during the operation''),
   (NOTIFY_COMM_STOP_BY_USER, ''The operation was interrupted by the user''),
   (NOTIFY_COMM_TIMEOUT, ''Operation timeout''),
   (NOTIFY_COMM_DISABLE, ''Device is disable''),
   (NOTIFY_COMM_OUT_OF_MEM, ''Out of memory''),
   (NOTIFY_COMM_UNSUPPORTED_OPS, ''The device or driver does not support this operation''),
   (NOTIFY_OPEN_SUCCESS, ''Open device completion''),
   (NOTIFY_OPEN_FAIL, ''Open device failed''),
   (NOTIFY_OPEN_ERROR, ''An error was encountered during the opening''),
   (NOTIFY_ENROLL_SUCCESS, ''Enroll feature successful''),
   (NOTIFY_ENROLL_FAIL, ''Enroll feature failed''),
   (NOTIFY_ENROLL_ERROR, ''An error was encountered during enrolling''),
   (NOTIFY_ENROLL_STOP_BY_USER, ''Enroll operation was interrupted by the user''),
   (NOTIFY_ENROLL_TIMEOUT, ''Enroll operation timeout''),
   (NOTIFY_VERIFY_MATCH, ''Verify feature match''),
   (NOTIFY_VERIFY_NO_MATCH, ''Verify feature no match''),
   (NOTIFY_VERIFY_ERROR, ''An error was encountered during verifying''),
   (NOTIFY_VERIFY_STOP_BY_USER, ''Verify operation was interrupted by the user''),
   (NOTIFY_VERIFY_TIMEOUT, ''Verify operation timeout''),
   (NOTIFY_IDENTIFY_MATCH, ''Identify feature match''),
   (NOTIFY_IDENTIFY_NO_MATCH, ''Identify feature no match''),
   (NOTIFY_IDENTIFY_ERROR, ''An error was encountered during identifying''),
   (NOTIFY_IDENTIFY_STOP_BY_USER, ''Identify operation was interrupted by the user''),
   (NOTIFY_IDENTIFY_TIMEOUT, ''Identify operation timeout''),
   (NOTIFY_CAPTURE_SUCCESS, ''Capture feature successful''),
   (NOTIFY_CAPTURE_FAIL, ''Capture feature failed''),
   (NOTIFY_CAPTURE_ERROR, ''An error was encountered during capturing''),
   (NOTIFY_CAPTURE_STOP_BY_USER, ''Capture operation was interrupted by the user''),
   (NOTIFY_CAPTURE_TIMEOUT, ''Capture operation timeout''),
   (NOTIFY_SEARCH_MATCH, ''Find the specified features''),
   (NOTIFY_SEARCH_NO_MATCH, ''No specified features were found''),
   (NOTIFY_SEARCH_ERROR, ''An error was encountered during searching''),
   (NOTIFY_SEARCH_STOP_BY_USER, ''Search operation was interrupted by the user''),
   (NOTIFY_SEARCH_TIMEOUT, ''Search operation timeout''),
   (NOTIFY_CLEAN_SUCCESS, ''Clean feature successful''),
   (NOTIFY_CLEAN_FAIL, ''Clean feature failed''),
   (NOTIFY_CLEAN_ERROR, ''An error was encountered during cleaning''),
   (NOTIFY_CLEAN_STOP_BY_USER, ''Clean operation was interrupted by the user''),
   (NOTIFY_CLEAN_TIMEOUT, ''Clean operation timeout''),
   (NOTIFY_GET_FLIST_SUCCESS, ''Get feature list completion''),
   (NOTIFY_GET_FLIST_FAIL, ''Get feature list failed''),
   (NOTIFY_GET_FLIST_ERROR, ''An error was encountered during getting feature list''),
   (NOTIFY_RENAME_SUCCESS, ''Rename feature successful''),
   (NOTIFY_RENAME_FAIL, ''Rename feature failed''),
   (NOTIFY_RENAME_ERROR, ''An error was encountered during renaming''),
   (NOTIFY_RENAME_INCOMPLETE, ''Feature renaming is not complete, please try again''),
   (NOTIFY_CLOSE_SUCCESS, ''Close device completion''),
   (NOTIFY_CLOSE_FAIL, ''Close device failed''),
   (NOTIFY_CLOSE_ERROR, ''An error was encountered during closing'')]"

definition switch_mesg :: "(int \<times> string) list \<Rightarrow> string \<Rightarrow> int \<Rightarrow> string" where
  "switch_mesg cases dflt code = (case map_of cases code of Some m \<Rightarrow> m | None \<Rightarrow> dflt)"

definition hooked_mesg :: "('w \<Rightarrow> string option) option \<Rightarrow> 'w \<Rightarrow> string \<Rightarrow> string res" where
  "hooked_mesg hook w m =
     (case hook of
        None \<Rightarrow> Inl Null_deref
      | Some h \<Rightarrow> Inr (case h w of Some mesg \<Rightarrow> mesg | None \<Rightarrow> m))"

definition unknown_dev_status :: string where
  "unknown_dev_status = ''Device is in an unknown status...''"
definition unknown_ops_result :: string where
  "unknown_ops_result = ''Operation is in an unknown status......''"
definition unknown_notify_mid :: string where
  "unknown_notify_mid = ''Device internal error''"

definition bio_get_dev_status_mesg ::
    "('a world_scheme \<Rightarrow> string option) option \<Rightarrow> 'a world_scheme \<Rightarrow> string res" where
  "bio_get_dev_status_mesg hook w =
     hooked_mesg hook w (switch_mesg dev_status_mesgs unknown_dev_status (bio_get_dev_status w))"

definition bio_get_ops_result_mesg ::
    "('a world_scheme \<Rightarrow> string option) option \<Rightarrow> 'a world_scheme \<Rightarrow> string res" where
  "bio_get_ops_result_mesg hook w =
     hooked_mesg hook w (switch_mesg ops_result_mesgs unknown_ops_result (bio_get_ops_result w))"

definition bio_get_notify_mid_mesg ::
    "('a world_scheme \<Rightarrow> string option) option \<Rightarrow> 'a world_scheme \<Rightarrow> string res" where
  "bio_get_notify_mid_mesg hook w =
     hooked_mesg hook w (switch_mesg notify_mid_mesgs unknown_notify_mid (bio_get_notify_mid w))"

section \<open>Who is told of a change\<close>

text \<open>
  Specification of the notification: the listeners are the device's callback and the common
  callback, the same function counted once; \<open>told\<close> is what one listener hears between two
  worlds.
\<close>

definition listeners :: "'a world_scheme \<Rightarrow> nat list" where
  "listeners w =
     (case ops_status_changed_callback (w_dev w) of
        None \<Rightarrow> [] | Some f \<Rightarrow> if bio_status_changed_callback w = Some f then [] else [f]) @
     (case bio_status_changed_callback w of None \<Rightarrow> [] | Some g \<Rightarrow> [g])"

definition told :: "nat \<Rightarrow> 'a world_scheme \<Rightarrow> 'a world_scheme \<Rightarrow> (int \<times> int) list" where
  "told f w w' = map snd (filter (\<lambda>c. fst c = f) (drop (length (w_calls w)) (w_calls w')))"

lemma upd_dev_simps [simp]:
  "w_dev (upd_dev h w) = h (w_dev w)" "w_calls (upd_dev h w) = w_calls w"
  "bio_status_changed_callback (upd_dev h w) = bio_status_changed_callback w"
  "world.more (upd_dev h w) = world.more w"
  by (simp_all add: upd_dev_def)

lemma call_listener_simps [simp]:
  "w_dev (call_listener f t w) = w_dev w"
  "bio_status_changed_callback (call_listener f t w) = bio_status_changed_callback w"
  "world.more (call_listener f t w) = world.more w"
  "w_calls (call_listener f t w) = w_calls w @ [(f, driver_id (w_dev w), t)]"
  by (simp_all add: call_listener_def)

lemma call_listener_foldl [simp]:
  "w_dev (foldl (\<lambda>w t. call_listener f t w) w ts) = w_dev w"
  "bio_status_changed_callback (foldl (\<lambda>w t. call_listener f t w) w ts)
     = bio_status_changed_callback w"
  "world.more (foldl (\<lambda>w t. call_listener f t w) w ts) = world.more w"
  "w_calls (foldl (\<lambda>w t. call_listener f t w) w ts)
     = w_calls w @ map (\<lambda>t. (f, driver_id (w_dev w), t)) ts"
  by (induction ts arbitrary: w) simp_all

lemma common_callback_simps [simp]:
  "w_dev (bio_status_changed_common_callback t w) = w_dev w"
  "bio_status_changed_callback (bio_status_changed_common_callback t w)
     = bio_status_changed_callback w"
  "world.more (bio_status_changed_common_callback t w) = world.more w"
  by (simp_all add: bio_status_changed_common_callback_def split: option.split)

lemma common_callback_foldl [simp]:
  "w_dev (foldl (\<lambda>w t. bio_status_changed_common_callback t w) w ts) = w_dev w"
  "bio_status_changed_callback (foldl (\<lambda>w t. bio_status_changed_common_callback t w) w ts)
     = bio_status_changed_callback w"
  "world.more (foldl (\<lambda>w t. bio_status_changed_common_callback t w) w ts) = world.more w"
  "w_calls (foldl (\<lambda>w t. bio_status_changed_common_callback t w) w ts)
     = w_calls w @ (case bio_status_changed_callback w of None \<Rightarrow> []
                    | Some g \<Rightarrow> map (\<lambda>t. (g, driver_id (w_dev w), t)) ts)"
  by (induction ts arbitrary: w)
     (simp_all, auto simp: bio_status_changed_common_callback_def split: option.split)

lemma device_callback_simps [simp]:
  "w_dev (device_callback ts w) = w_dev w"
  "bio_status_changed_callback (device_callback ts w) = bio_status_changed_callback w"
  "world.more (device_callback ts w) = world.more w"
  by (simp_all add: device_callback_def split: option.split)

lemma notify_listeners_simps [simp]:
  "w_dev (notify_listeners ts w) = w_dev w"
  "bio_status_changed_callback (notify_listeners ts w) = bio_status_changed_callback w"
  "world.more (notify_listeners ts w) = world.more w"
  by (simp_all add: notify_listeners_def)

lemma notify_listeners_calls:
  "w_calls (notify_listeners ts w) =
     w_calls w @ concat (map (\<lambda>f. map (\<lambda>t. (f, driver_id (w_dev w), t)) ts) (listeners w))"
  by (simp add: notify_listeners_def device_callback_def listeners_def split: option.split)

lemma listeners_distinct: "distinct (listeners w)"
  by (simp add: listeners_def split: option.split)

lemma listeners_upd [simp]:
  "ops_status_changed_callback (h (w_dev w)) = ops_status_changed_callback (w_dev w) \<Longrightarrow>
   listeners (upd_dev h w) = listeners w"
  by (simp add: listeners_def split: option.split)

lemma filter_concat_distinct:
  assumes "distinct fs"
  shows "filter (\<lambda>c. fst c = f) (concat (map (\<lambda>g. map (\<lambda>t. (g, h t)) ts) fs)) =
         (if f \<in> set fs then map (\<lambda>t. (f, h t)) ts else [])"
  using assms by (induction fs) (auto simp: filter_map comp_def filter_empty_conv)

lemma told_notify:
  assumes "w_calls v = w_calls w" "listeners v = listeners w"
    "driver_id (w_dev v) = driver_id (w_dev w)"
  shows "told f w (notify_listeners ts v) =
         (if f \<in> set (listeners w) then map (\<lambda>t. (driver_id (w_dev w), t)) ts else [])"
proof -
  have "drop (length (w_calls w)) (w_calls (notify_listeners ts v)) =
        concat (map (\<lambda>g. map (\<lambda>t. (g, driver_id (w_dev w), t)) ts) (listeners w))"
    by (simp add: notify_listeners_calls assms)
  then show ?thesis
    by (simp add: told_def filter_concat_distinct [OF listeners_distinct] comp_def)
qed

lemmas setter_defs =
  bio_set_dev_status_def bio_set_dev_abs_status_def bio_set_ops_result_def
  bio_set_ops_abs_result_def bio_set_notify_mid_def bio_set_notify_abs_mid_def
  bio_set_all_status_def bio_set_all_abs_status_def

text \<open>
  Every setter of a status word tells every listener of the device, and nobody else, of
  the kinds of change it made, each once and in order, even when the device's own callback is
  the common one; the three words are already written when the listeners are called.
\<close>

theorem setters_notify_once:
  "told f w (bio_set_dev_status s w) =
     (if f \<in> set (listeners w) then [(driver_id (w_dev w), STATUS_TYPE_DEVICE)] else [])
   \<and> told f w (bio_set_dev_abs_status s w) =
     (if f \<in> set (listeners w) then [(driver_id (w_dev w), STATUS_TYPE_DEVICE)] else [])
   \<and> told f w (bio_set_ops_result r w) =
     (if f \<in> set (listeners w) then [(driver_id (w_dev w), STATUS_TYPE_OPERATION)] else [])
   \<and> told f w (bio_set_ops_abs_result r w) =
     (if f \<in> set (listeners w) then [(driver_id (w_dev w), STATUS_TYPE_OPERATION)] else [])
   \<and> told f w (bio_set_notify_mid m w) =
     (if f \<in> set (listeners w) then [(driver_id (w_dev w), STATUS_TYPE_NOTIFY)] else [])
   \<and> told f w (bio_set_notify_abs_mid m w) =
     (if f \<in> set (listeners w) then [(driver_id (w_dev w), STATUS_TYPE_NOTIFY)] else [])
   \<and> told f w (bio_set_all_status s r m w) =
     (if f \<in> set (listeners w)
      then [(driver_id (w_dev w), STATUS_TYPE_DEVICE), (driver_id (w_dev w), STATUS_TYPE_OPERATION),
            (driver_id (w_dev w), STATUS_TYPE_NOTIFY)] else [])
   \<and> told f w (bio_set_all_abs_status s r m w) =
     (if f \<in> set (listeners w)
      then [(driver_id (w_dev w), STATUS_TYPE_DEVICE), (driver_id (w_dev w), STATUS_TYPE_OPERATION),
            (driver_id (w_dev w), STATUS_TYPE_NOTIFY)] else [])"
  by (simp add: setter_defs told_notify Let_def)

text \<open>
  C33. The relative setter of all three words changes only the last two digits of the device
  status and stamps the operation class of the running operation on the result and the
  notification: a status of class \<open>k\<close> (\<open>k * 100 + x\<close>) stays in class \<open>k\<close>.
\<close>

theorem set_all_status_keeps_class:
  assumes "0 \<le> dev_status (w_dev w)" "0 \<le> s" "0 \<le> r" "0 \<le> m"
  defines "d \<equiv> w_dev (bio_set_all_status s r m w)"
  shows "dev_status d div 100 = dev_status (w_dev w) div 100 \<and> dev_status d mod 100 = s mod 100
       \<and> ops_result d div 100 = dev_status (w_dev w) div 100 \<and> ops_result d mod 100 = r mod 100
       \<and> notify_mid d div 100 = dev_status (w_dev w) div 100 \<and> notify_mid d mod 100 = m mod 100"
  using assms
  by (simp add: d_def bio_set_all_status_def Let_def bio_get_dev_status_def sdiv_nonneg smod_nonneg)

definition idle_dev :: bio_dev where
  "idle_dev = \<lparr>driver_id = 3, device_name = Some ''aes2501'', full_name = None,
     drv_api_version = \<lparr>v_major = 0, v_minor = 10, v_function = 2\<rparr>, enable = 1, dev_num = 1,
     bioinfo = \<lparr>biotype = BioT_FingerPrint, stotype = StoT_OS, eigtype = EigT_Data,
                vertype = VerT_Other, idtype = IdT_Other, bustype = BusT_USB\<rparr>,
     serial_path = '''', id_table = None, driver_data = 0, dev_status = 0, ops_result = 0, notify_mid = 0,
     ops_status_changed_callback = None\<rparr>"

theorem set_all_status_keeps_class_witness:
  "dev_status (w_dev (bio_set_all_status 2 203 3
      \<lparr>w_dev = idle_dev\<lparr>dev_status := 201\<rparr>, bio_status_changed_callback = None, w_calls = []\<rparr>))
     div 100 = 2"
  using set_all_status_keeps_class
    [of "\<lparr>w_dev = idle_dev\<lparr>dev_status := 201\<rparr>, bio_status_changed_callback = None, w_calls = []\<rparr>"
        2 203 3]
  by simp

text \<open>
  The setter \<open>bio_set_dev_status\<close>, which the header documents as relative to the current
  operation, is absolute: it does exactly what \<open>bio_set_dev_abs_status\<close> does. A relative result
  or notification set after it therefore takes its class from the new status: an enrolment
  interrupted with \<open>DEVS_COMM_STOP_BY_USER\<close> ends in state 2 and not 202, and its result is
  reported in the common class.
\<close>

theorem set_dev_status_is_absolute:
  "bio_set_dev_status s w = bio_set_dev_abs_status s w
   \<and> ops_result (w_dev (bio_set_ops_result r (bio_set_dev_status s w))) =
       s sdiv 100 * 100 + r smod 100
   \<and> notify_mid (w_dev (bio_set_notify_mid m (bio_set_dev_status s w))) =
       s sdiv 100 * 100 + m smod 100
   \<and> dev_status (w_dev (bio_set_dev_status DEVS_COMM_STOP_BY_USER
        (bio_set_dev_status DEVS_ENROLL_DOING w))) \<noteq> DEVS_ENROLL_STOP_BY_USER"
  by (simp add: setter_defs Let_def bio_get_dev_status_def)

text \<open>
  Among all values a device status can be enumerated to have, the operations see a stop
  request in exactly the eleven \<open>*_STOP_BY_USER\<close> states.
\<close>

theorem stop_by_user_states:
  "filter (\<lambda>(n, v). bio_is_stop_by_user (upd_dev (\<lambda>d. d\<lparr>dev_status := v\<rparr>) w)) DevStatus =
   [(''DEVS_COMM_STOP_BY_USER'', DEVS_COMM_STOP_BY_USER),
    (''DEVS_OPEN_STOP_BY_USER'', DEVS_OPEN_STOP_BY_USER),
    (''DEVS_ENROLL_STOP_BY_USER'', DEVS_ENROLL_STOP_BY_USER),
    (''DEVS_VERIFY_STOP_BY_USER'', DEVS_VERIFY_STOP_BY_USER),
    (''DEVS_IDENTIFY_STOP_BY_USER'', DEVS_IDENTIFY_STOP_BY_USER),
    (''DEVS_CAPTURE_STOP_BY_USER'', DEVS_CAPTURE_STOP_BY_USER),
    (''DEVS_SEARCH_STOP_BY_USER'', DEVS_SEARCH_STOP_BY_USER),
    (''DEVS_CLEAN_STOP_BY_USER'', DEVS_CLEAN_STOP_BY_USER),
    (''DEVS_GET_FLIST_STOP_BY_USER'', DEVS_GET_FLIST_STOP_BY_USER),
    (''DEVS_RENAME_STOP_BY_USER'', DEVS_RENAME_STOP_BY_USER),
    (''DEVS_CLOSE_STOP_BY_USER'', DEVS_CLOSE_STOP_BY_USER)]"
  by (simp add: DevStatus_def bio_is_stop_by_user_def smod_nonneg)

definition has_mesg :: "(int \<times> string) list \<Rightarrow> int \<Rightarrow> bool" where
  "has_mesg cases code \<longleftrightarrow> map_of cases code \<noteq> None"

definition is_limit :: "string \<Rightarrow> bool" where
  "is_limit n \<longleftrightarrow> take 4 (rev n) = ''XAM_''"

text \<open>
  Every status of the header has a message of its own, apart from the \<open>*_MAX\<close> limits; so
  has every result and every notification, except the interrupted and timed out listings and
  (results only) renamings, for which the user reads the text for an unknown code.
\<close>

theorem message_coverage:
  "filter (\<lambda>(n, v). \<not> is_limit n \<and> \<not> has_mesg dev_status_mesgs v) DevStatus = []
   \<and> filter (\<lambda>(n, v). \<not> is_limit n \<and> \<not> has_mesg ops_result_mesgs v) OpsResult =
      [(''OPS_GET_FLIST_STOP_BY_USER'', OPS_GET_FLIST_STOP_BY_USER),
       (''OPS_GET_FLIST_TIMEOUT'', OPS_GET_FLIST_TIMEOUT),
       (''OPS_RENAME_STOP_BY_USER'', OPS_RENAME_STOP_BY_USER),
       (''OPS_RENAME_TIMEOUT'', OPS_RENAME_TIMEOUT)]
   \<and> filter (\<lambda>(n, v). \<not> is_limit n \<and> \<not> has_mesg notify_mid_mesgs v) NotifyMID =
      [(''NOTIFY_GET_FLIST_STOP_BY_USER'', NOTIFY_GET_FLIST_STOP_BY_USER),
       (''NOTIFY_GET_FLIST_TIMEOUT'', NOTIFY_GET_FLIST_TIMEOUT)]"
  by code_simp

end
