(* ===== verification/Bio_Version.thy ===== *)
theory Bio_Version
  imports Bio_Status
begin

text \<open>
  The API versions of the framework and the two compatibility checks of
  \<open>src/src/lib/biometric_version.c\<close>.
\<close>

definition framework_drv_api :: api_version where
  "framework_drv_api = \<lparr>v_major = 0, v_minor = 10, v_function = 2\<rparr>"

definition framework_app_api :: api_version where
  "framework_app_api = \<lparr>v_major = 0, v_minor = 11, v_function = 1\<rparr>"

definition bio_set_drv_api_version :: "bio_dev \<Rightarrow> bio_dev" where
  "bio_set_drv_api_version d = d\<lparr>drv_api_version := framework_drv_api\<rparr>"

definition bio_get_drv_api_version_by_driver_side :: "bio_dev \<Rightarrow> int \<times> int \<times> int" where
  "bio_get_drv_api_version_by_driver_side d =
     (v_major (drv_api_version d), v_minor (drv_api_version d), v_function (drv_api_version d))"

definition bio_get_drv_api_version_by_framework_side :: "int \<times> int \<times> int" where
  "bio_get_drv_api_version_by_framework_side =
     (v_major framework_drv_api, v_minor framework_drv_api, v_function framework_drv_api)"

definition bio_get_app_api_version_by_framework_side :: "int \<times> int \<times> int" where
  "bio_get_app_api_version_by_framework_side =
     (v_major framework_app_api, v_minor framework_app_api, v_function framework_app_api)"

definition bio_check_drv_api_version :: "int \<Rightarrow> int \<Rightarrow> int \<Rightarrow> int" where
  "bio_check_drv_api_version major minor func =
     (if v_major framework_drv_api < major then 3
      else if major < v_major framework_drv_api then -3
      else if v_minor framework_drv_api < minor then 2
      else if minor < v_minor framework_drv_api then -2
      else if v_function framework_drv_api < func then 1
      else if func < v_function framework_drv_api then 0
      else 0)"

definition bio_check_app_api_version :: "int \<Rightarrow> int \<Rightarrow> int \<Rightarrow> int" where
  "bio_check_app_api_version major minor func =
     (if v_major framework_app_api < major then 3
      else if major < v_major framework_app_api then -3
      else if v_minor framework_app_api < minor then 2
      else if minor < v_minor framework_app_api then -2
      else if v_function framework_app_api < func then 1
      else if func < v_function framework_app_api then 0
      else 0)"

text \<open>Specification: versions are ordered lexicographically.\<close>

fun newer :: "int \<times> int \<times> int \<Rightarrow> int \<times> int \<times> int \<Rightarrow> bool" where
  "newer (a, b, c) (a', b', c') \<longleftrightarrow> a' < a \<or> a = a' \<and> (b' < b \<or> b = b' \<and> c' < c)"

text \<open>
  Both version checks accept exactly the versions with the framework's major and minor
  numbers and a function number it already has; they answer a positive number exactly for
  versions newer than the framework's, in lexicographic order, and so a negative one exactly
  for the older versions that are not compatible. A driver that stamps its record with
  \<open>bio_set_drv_api_version\<close> is accepted.
\<close>

theorem version_checks:
  "(bio_check_drv_api_version a b c = 0 \<longleftrightarrow> a = 0 \<and> b = 10 \<and> c \<le> 2)
   \<and> (0 < bio_check_drv_api_version a b c \<longleftrightarrow>
        newer (a, b, c) bio_get_drv_api_version_by_framework_side)
   \<and> (bio_check_app_api_version a b c = 0 \<longleftrightarrow> a = 0 \<and> b = 11 \<and> c \<le> 1)
   \<and> (0 < bio_check_app_api_version a b c \<longleftrightarrow>
        newer (a, b, c) bio_get_app_api_version_by_framework_side)
   \<and> (case bio_get_drv_api_version_by_driver_side (bio_set_drv_api_version d) of
        (x, y, z) \<Rightarrow> bio_check_drv_api_version x y z = 0)"
  by (auto simp: bio_check_drv_api_version_def bio_check_app_api_version_def
      framework_drv_api_def framework_app_api_def bio_get_drv_api_version_by_framework_side_def
      bio_get_app_api_version_by_framework_side_def bio_set_drv_api_version_def
      bio_get_drv_api_version_by_driver_side_def split: if_splits)

end
