(* ===== verification/User_Uuid.thy ===== *)
theory User_Uuid
  imports Bio_Prelude
begin

text \<open>
  The identity of a user in the feature database: \<open>internal_get_uuid_by_uid\<close> of
  \<open>src/src/lib/biometric_storage.c\<close>, which reads or creates \<open>~/.biometric_auth/UUID\<close>, the
  recursive \<open>internal_create_dir\<close>, and the UTF-8 width functions of the same file.
\<close>

section \<open>Files and directories\<close>

text \<open>
  What the code sees of the file system: directories (without trailing slash), regular files
  with their content, and the paths where the system refuses to create or open anything.
\<close>

record fsys =
  fs_dirs :: "string list"
  fs_files :: "string \<Rightarrow> string option"
  fs_denied :: "string list"

abbreviation slash :: char where "slash \<equiv> CHR 0x2F"
abbreviation newline :: char where "newline \<equiv> CHR 0x0A"

definition norm_path :: "string \<Rightarrow> string" where
  "norm_path p = rev (dropWhile (\<lambda>c. c = slash) (rev p))"

definition parent_dir :: "string \<Rightarrow> string" where
  "parent_dir p = norm_path (rev (dropWhile (\<lambda>c. c \<noteq> slash) (rev p)))"

definition is_dir :: "fsys \<Rightarrow> string \<Rightarrow> bool" where
  "is_dir fs p \<longleftrightarrow> p \<noteq> [] \<and> (norm_path p = [] \<or> norm_path p \<in> set (fs_dirs fs))"

text \<open>\<open>access(p, F_OK) == 0\<close>.\<close>

definition path_exists :: "fsys \<Rightarrow> string \<Rightarrow> bool" where
  "path_exists fs p \<longleftrightarrow> is_dir fs p \<or> fs_files fs p \<noteq> None"

definition mkdir :: "string \<Rightarrow> fsys \<Rightarrow> fsys option" where
  "mkdir p fs = (if p \<in> set (fs_denied fs) then None
                 else Some (fs\<lparr>fs_dirs := norm_path p # fs_dirs fs\<rparr>))"

text \<open>\<open>fopen(p, "w") != NULL\<close>.\<close>

definition can_write :: "fsys \<Rightarrow> string \<Rightarrow> bool" where
  "can_write fs p \<longleftrightarrow> (parent_dir p = [] \<or> parent_dir p \<in> set (fs_dirs fs)) \<and> \<not> is_dir fs p
                      \<and> p \<notin> set (fs_denied fs)"

definition MAX_PATH_LEN :: nat where "MAX_PATH_LEN = 1024"

text \<open>\<open>internal_create_dir\<close>: \<open>dir_name\<close> is a buffer of 256 bytes.\<close>

definition create_dir_step :: "string \<Rightarrow> nat \<Rightarrow> fsys \<Rightarrow> fsys option" where
  "create_dir_step dir_name i fs =
     (if dir_name ! i = slash \<and> \<not> path_exists fs (take i dir_name)
      then mkdir (take i dir_name) fs else Some fs)"

fun create_dir_at :: "string \<Rightarrow> nat list \<Rightarrow> fsys \<Rightarrow> int \<times> fsys" where
  "create_dir_at dir_name [] fs = (0, fs)"
| "create_dir_at dir_name (i # js) fs =
     (case create_dir_step dir_name i fs of
        None \<Rightarrow> (-1, fs)
      | Some fs' \<Rightarrow> create_dir_at dir_name js fs')"

definition internal_create_dir :: "string \<Rightarrow> fsys \<Rightarrow> (int \<times> fsys) res" where
  "internal_create_dir new_dir fs =
     (if new_dir = [] \<or> 256 < length new_dir + 1 then Inl Out_of_bounds
      else let dir_name = (if last new_dir \<noteq> slash then new_dir @ [slash] else new_dir)
           in if 256 < length dir_name + 1 then Inl Out_of_bounds
              else Inr (create_dir_at dir_name [1..<length dir_name] fs))"

section \<open>The UUID of a user\<close>

text \<open>
  The account database and \<open>libuuid\<close> are the machine's: the home directory of a uid, the text of
  the n-th generated UUID (\<open>uuid_generate\<close>, \<open>uuid_unparse_lower\<close>), and the canonical text of
  what \<open>uuid_parse\<close> accepts. The state is the file system and the number of UUIDs generated.
\<close>

record host =
  getpwuid :: "int \<Rightarrow> string option"
  uuid_text :: "nat \<Rightarrow> string"
  uuid_canon :: "string \<Rightarrow> string option"

record users =
  u_fs :: fsys
  u_gen :: nat

definition UUID_BUF_LEN :: nat where "UUID_BUF_LEN = 37"
definition UUID_DEFAULT :: string where
  "UUID_DEFAULT = ''01234567-0123-0123-0123-0123456789AB''"

text \<open>
  \<open>fgets\<close> on a file with the given content, seen as a C string; \<open>None\<close> is a null result.
\<close>

definition fgets :: "nat \<Rightarrow> string \<Rightarrow> string option" where
  "fgets n c =
     (if c = [] then None
      else let t = take (n - 1) c; l = takeWhile (\<lambda>x. x \<noteq> newline) t
           in Some (takeWhile (\<lambda>x. x \<noteq> nul) (l @ (if length l < length t then [newline] else []))))"

text \<open>Generating a UUID and writing it to the file: \<open>fprintf\<close> to a null stream is a fault.\<close>

definition new_uuid :: "host \<Rightarrow> string \<Rightarrow> users \<Rightarrow> (string \<times> users) res" where
  "new_uuid h file s =
     (let uuid = uuid_text h (u_gen s); fs = u_fs s
      in if can_write fs file
         then Inr (uuid, \<lparr>u_fs = fs\<lparr>fs_files := (fs_files fs)(file \<mapsto> uuid @ [newline])\<rparr>,
                          u_gen = Suc (u_gen s)\<rparr>)
         else Inl Null_deref)"

definition conf_dir_of :: "string \<Rightarrow> string" where
  "conf_dir_of dir = take (MAX_PATH_LEN - 1) (dir @ ''/.biometric_auth/'')"

definition uuid_file_of :: "string \<Rightarrow> string" where
  "uuid_file_of dir = take (MAX_PATH_LEN - 1) (dir @ ''/.biometric_auth/UUID'')"

definition ensure_conf_dir :: "string \<Rightarrow> users \<Rightarrow> users res" where
  "ensure_conf_dir dir s =
     (if path_exists (u_fs s) (conf_dir_of dir) then Inr s
      else bindR (internal_create_dir (conf_dir_of dir) (u_fs s))
             (\<lambda>(_, fs). Inr (s\<lparr>u_fs := fs\<rparr>)))"

definition read_uuid :: "host \<Rightarrow> string \<Rightarrow> users \<Rightarrow> string option" where
  "read_uuid h file s =
     Option.bind (fs_files (u_fs s) file) (\<lambda>c.
       Option.bind (fgets UUID_BUF_LEN c) (uuid_canon h))"

definition internal_get_uuid_by_uid :: "host \<Rightarrow> int \<Rightarrow> users \<Rightarrow> (string \<times> users) res" where
  "internal_get_uuid_by_uid h uid s =
     (case getpwuid h uid of
        None \<Rightarrow> Inr (UUID_DEFAULT, s)
      | Some dir \<Rightarrow>
          if \<not> path_exists (u_fs s) dir then Inr (UUID_DEFAULT, s)
          else bindR (ensure_conf_dir dir s) (\<lambda>s.
            let file = uuid_file_of dir
            in if \<not> path_exists (u_fs s) file then new_uuid h file s
               else if file \<in> set (fs_denied (u_fs s)) then Inl Null_deref
               else case read_uuid h file s of
                      None \<Rightarrow> new_uuid h file s
                    | Some uuid \<Rightarrow> Inr (uuid, s)))"

text \<open>
  What the code relies on in \<open>libuuid\<close>: a generated text is 36 characters and parses to itself,
  and every canonical text has 36 characters.
\<close>

definition uuid_lib_ok :: "host \<Rightarrow> bool" where
  "uuid_lib_ok h \<longleftrightarrow>
     (\<forall>n. length (uuid_text h n) = 36 \<and> newline \<notin> set (uuid_text h n) \<and> nul \<notin> set (uuid_text h n)
          \<and> uuid_canon h (uuid_text h n) = Some (uuid_text h n)) \<and>
     (\<forall>s u. uuid_canon h s = Some u \<longrightarrow> length u = 36)"

section \<open>Directories: every prefix exists afterwards\<close>

definition fs_le :: "fsys \<Rightarrow> fsys \<Rightarrow> bool" where
  "fs_le fs fs' \<longleftrightarrow> set (fs_dirs fs) \<subseteq> set (fs_dirs fs') \<and> fs_files fs' = fs_files fs
                    \<and> fs_denied fs' = fs_denied fs"

lemma fs_le_refl [simp]: "fs_le fs fs"
  by (simp add: fs_le_def)

lemma fs_le_trans: "fs_le a b \<Longrightarrow> fs_le b c \<Longrightarrow> fs_le a c"
  by (auto simp: fs_le_def)

lemma fs_le_exists: "fs_le a b \<Longrightarrow> path_exists a p \<Longrightarrow> path_exists b p"
  by (auto simp: fs_le_def path_exists_def is_dir_def)

lemma mkdir_Some:
  "mkdir p fs = Some fs' \<Longrightarrow> p \<noteq> [] \<Longrightarrow> fs_le fs fs' \<and> path_exists fs' p"
  by (auto simp: mkdir_def fs_le_def path_exists_def is_dir_def split: if_splits)

lemma create_dir_step_Some:
  assumes "create_dir_step d i fs = Some fs'" "0 < i" "i < length d"
  shows "fs_le fs fs' \<and> (d ! i = slash \<longrightarrow> path_exists fs' (take i d))"
proof -
  have "take i d \<noteq> []" using assms by auto
  then show ?thesis
    using assms mkdir_Some [of "take i d" fs fs'] by (simp add: create_dir_step_def split: if_splits)
qed

lemma create_dir_step_done:
  "(d ! i = slash \<Longrightarrow> path_exists fs (take i d)) \<Longrightarrow> create_dir_step d i fs = Some fs"
  by (auto simp add: create_dir_step_def)

lemma create_dir_at_le:
  "create_dir_at d js fs = (r, fs') \<Longrightarrow> \<forall>i\<in>set js. 0 < i \<and> i < length d \<Longrightarrow>
   fs_le fs fs' \<and> (r = 0 \<or> r = -1)"
proof (induction js arbitrary: fs)
  case (Cons j js)
  show ?case
  proof (cases "create_dir_step d j fs")
    case None
    then show ?thesis using Cons.prems by simp
  next
    case (Some fs1)
    then show ?thesis
      using Cons.IH [of fs1] Cons.prems create_dir_step_Some [OF Some] fs_le_trans [of fs fs1 fs']
      by simp
  qed
qed simp

lemma create_dir_at_made:
  "create_dir_at d js fs = (0, fs') \<Longrightarrow> \<forall>i\<in>set js. 0 < i \<and> i < length d \<Longrightarrow>
   i \<in> set js \<Longrightarrow> d ! i = slash \<Longrightarrow> path_exists fs' (take i d)"
proof (induction js arbitrary: fs)
  case (Cons j js)
  then obtain fs1 where s: "create_dir_step d j fs = Some fs1"
    and c: "create_dir_at d js fs1 = (0, fs')" by (auto split: option.splits)
  have "path_exists fs' (take j d)" if "d ! j = slash"
    using create_dir_step_Some [OF s] create_dir_at_le [OF c] Cons.prems that
    by (auto intro: fs_le_exists)
  then show ?case using Cons.IH [OF c] Cons.prems by auto
qed simp

text \<open>Calling it again on what it left changes nothing and answers the same.\<close>

lemma create_dir_at_again:
  "create_dir_at d js fs = (r, fs') \<Longrightarrow> \<forall>i\<in>set js. 0 < i \<and> i < length d \<Longrightarrow>
   create_dir_at d js fs' = (r, fs')"
proof (induction js arbitrary: fs)
  case (Cons j js)
  show ?case
  proof (cases "create_dir_step d j fs")
    case None
    then show ?thesis using Cons.prems by simp
  next
    case (Some fs1)
    then have c: "create_dir_at d js fs1 = (r, fs')" using Cons.prems by simp
    have "create_dir_step d j fs' = Some fs'"
      using create_dir_step_Some [OF Some] create_dir_at_le [OF c] Cons.prems
      by (intro create_dir_step_done) (auto intro: fs_le_exists)
    then show ?thesis using Cons.IH [OF c] Cons.prems by simp
  qed
qed simp

text \<open>
  \<open>internal_create_dir\<close> either overruns its 256 byte buffer, exactly when the path with its
  final slash does not fit (or is empty), or creates every directory on the path, or answers
  -1; it removes nothing and touches no file.
\<close>

theorem create_dir_correct:
  "case internal_create_dir d fs of
     Inl e \<Rightarrow> e = Out_of_bounds \<and> (d = [] \<or> 254 < length d)
   | Inr (r, fs') \<Rightarrow> d \<noteq> [] \<and> length d \<le> 255 \<and> fs_le fs fs' \<and> (r = 0 \<or> r = -1) \<and>
       (r = 0 \<longrightarrow> (\<forall>i. 0 < i \<and> i < length d \<and> d ! i = slash \<longrightarrow> path_exists fs' (take i d))
                 \<and> (last d \<noteq> slash \<longrightarrow> path_exists fs' d))"
proof (cases "internal_create_dir d fs")
  case (Inl e)
  then show ?thesis by (auto simp: internal_create_dir_def Let_def split: if_splits)
next
  case (Inr p)
  obtain r fs' where p: "p = (r, fs')" by (cases p)
  define dn where "dn = (if last d \<noteq> slash then d @ [slash] else d)"
  have d: "d \<noteq> []" "length d \<le> 255" and c: "create_dir_at dn [1..<length dn] fs = (r, fs')"
    using Inr by (auto simp: internal_create_dir_def dn_def p Let_def split: if_splits)
  have made: "path_exists fs' (take i dn)"
    if "r = 0" "0 < i" "i < length dn" "dn ! i = slash" for i
    using create_dir_at_made [of dn "[1..<length dn]" fs fs' i] c that by auto
  have sub: "length d \<le> length dn" "\<And>i. i < length d \<Longrightarrow> dn ! i = d ! i \<and> take i dn = take i d"
    by (auto simp: dn_def nth_append)
  have "path_exists fs' (take i d)" if "r = 0" "0 < i" "i < length d" "d ! i = slash" for i
    using made [of i] sub that by auto
  moreover have "path_exists fs' d" if "r = 0" "last d \<noteq> slash"
    using made [of "length d"] that d by (simp add: dn_def)
  ultimately show ?thesis
    using Inr p d create_dir_at_le [OF c] by simp
qed

definition bare_fs :: fsys where
  "bare_fs = \<lparr>fs_dirs = [], fs_files = (\<lambda>_. None), fs_denied = []\<rparr>"

theorem create_dir_correct_witness:
  "internal_create_dir ''/a/b'' bare_fs = Inr (0, bare_fs\<lparr>fs_dirs := [''/a/b'', ''/a'']\<rparr>)
   \<and> path_exists (bare_fs\<lparr>fs_dirs := [''/a/b'', ''/a'']\<rparr>) ''/a/b''"
proof -
  have r: "internal_create_dir ''/a/b'' bare_fs = Inr (0, bare_fs\<lparr>fs_dirs := [''/a/b'', ''/a'']\<rparr>)"
    by (simp add: bare_fs_def internal_create_dir_def upt_rec create_dir_step_def path_exists_def
        is_dir_def norm_path_def mkdir_def)
  then show ?thesis using create_dir_correct [of "''/a/b''" bare_fs] by simp
qed

section \<open>A UUID, once given, stays\<close>

lemma norm_path_slash [simp]: "norm_path (p @ [slash]) = norm_path p"
  by (simp add: norm_path_def)

lemma norm_path_id: "p \<noteq> [] \<Longrightarrow> last p \<noteq> slash \<Longrightarrow> norm_path p = p"
  by (cases p rule: rev_cases) (simp_all add: norm_path_def)

lemma parent_dir_append:
  "slash \<notin> set n \<Longrightarrow> parent_dir (p @ slash # n) = norm_path p"
proof -
  assume "slash \<notin> set n"
  then have "dropWhile (\<lambda>c. c \<noteq> slash) (rev n @ slash # rev p) = slash # rev p"
    by (induction n rule: rev_induct) auto
  then show ?thesis by (simp add: parent_dir_def norm_path_def)
qed

lemma conf_dir_exists:
  assumes "can_write fs (uuid_file_of dir)" "length (conf_dir_of dir) < 256"
  shows "path_exists fs (conf_dir_of dir)"
proof -
  let ?p = "dir @ ''/.biometric_auth''"
  have len: "length dir < 300"
    using assms(2) by (auto simp: conf_dir_of_def MAX_PATH_LEN_def min_def split: if_splits)
  then have c: "conf_dir_of dir = ?p @ [slash]" and f: "uuid_file_of dir = ?p @ slash # ''UUID''"
    by (simp_all add: conf_dir_of_def uuid_file_of_def MAX_PATH_LEN_def)
  have n: "norm_path ?p = ?p" by (rule norm_path_id) simp_all
  moreover have "parent_dir (uuid_file_of dir) = norm_path ?p"
    unfolding f by (rule parent_dir_append) simp
  ultimately have "?p \<in> set (fs_dirs fs)"
    using assms(1) by (simp add: can_write_def)
  moreover have "norm_path (conf_dir_of dir) = ?p"
    unfolding c norm_path_slash by (rule n)
  ultimately show ?thesis by (simp add: path_exists_def is_dir_def c)
qed

lemma internal_create_dir_Inr:
  assumes "internal_create_dir d fs = Inr (r, fs')"
  shows "fs_le fs fs' \<and> internal_create_dir d fs' = Inr (r, fs') \<and> length d < 256"
proof -
  define dn where "dn = (if last d \<noteq> slash then d @ [slash] else d)"
  have c: "create_dir_at dn [1..<length dn] fs = (r, fs')"
    and *: "internal_create_dir d fs' = Inr (create_dir_at dn [1..<length dn] fs')" "length d < 256"
    using assms by (auto simp: internal_create_dir_def dn_def Let_def split: if_splits)
  then show ?thesis using create_dir_at_le [OF c] create_dir_at_again [OF c] by simp
qed

lemma ensure_conf_dir_cases:
  assumes "ensure_conf_dir dir s = Inr s'"
  obtains "path_exists (u_fs s) (conf_dir_of dir)" "s' = s"
  | r fs' where "\<not> path_exists (u_fs s) (conf_dir_of dir)" "s' = s\<lparr>u_fs := fs'\<rparr>"
      "internal_create_dir (conf_dir_of dir) (u_fs s) = Inr (r, fs')"
  using assms by (auto simp: ensure_conf_dir_def bindR_eq_Inr split: if_splits)

lemma ensure_conf_dir_again:
  assumes "ensure_conf_dir dir s = Inr s'"
  shows "ensure_conf_dir dir s' = Inr s'"
  using assms
proof (cases rule: ensure_conf_dir_cases)
  case (2 r fs')
  then show ?thesis using internal_create_dir_Inr [OF 2(3)] by (simp add: ensure_conf_dir_def)
qed (use assms in simp)

lemma ensure_conf_dir_le:
  assumes "ensure_conf_dir dir s = Inr s'"
  shows "fs_le (u_fs s) (u_fs s') \<and> u_gen s' = u_gen s"
  using assms
proof (cases rule: ensure_conf_dir_cases)
  case (2 r fs')
  then show ?thesis using internal_create_dir_Inr [OF 2(3)] by simp
qed simp

lemma ensure_conf_dir_exists:
  assumes "ensure_conf_dir dir s = Inr s'" "can_write (u_fs s') (uuid_file_of dir)"
  shows "path_exists (u_fs s') (conf_dir_of dir)"
  using assms(1)
proof (cases rule: ensure_conf_dir_cases)
  case (2 r fs')
  then show ?thesis
    using internal_create_dir_Inr [OF 2(3)] conf_dir_exists [OF assms(2)] by simp
qed simp

lemma fgets_uuid:
  "length u = 36 \<Longrightarrow> newline \<notin> set u \<Longrightarrow> nul \<notin> set u \<Longrightarrow>
   fgets UUID_BUF_LEN (u @ [newline]) = Some u"
proof -
  assume u: "length u = 36" "newline \<notin> set u" "nul \<notin> set u"
  have t: "take (UUID_BUF_LEN - 1) (u @ [newline]) = u"
    using u(1) by (simp add: UUID_BUF_LEN_def)
  have l: "takeWhile (\<lambda>x. x \<noteq> newline) u = u" and n: "takeWhile (\<lambda>x. x \<noteq> nul) u = u"
    using u unfolding takeWhile_eq_all_conv by metis+
  show ?thesis
    by (simp only: fgets_def t l Let_def less_irrefl if_False append_Nil2 n) simp
qed

lemma new_uuid_Inr:
  assumes "new_uuid h file s = Inr (u, s')" "uuid_lib_ok h"
  shows "read_uuid h file s' = Some u \<and> can_write (u_fs s) file \<and> path_exists (u_fs s') file
     \<and> (\<forall>p. path_exists (u_fs s) p \<longrightarrow> path_exists (u_fs s') p)
     \<and> fs_denied (u_fs s') = fs_denied (u_fs s)"
  using assms
  by (auto simp: new_uuid_def Let_def read_uuid_def uuid_lib_ok_def fgets_uuid path_exists_def
      is_dir_def split: if_splits)

lemma can_write_not_denied: "can_write fs p \<Longrightarrow> p \<notin> set (fs_denied fs)"
  by (simp add: can_write_def)

lemma uuid_stays:
  assumes "uuid_lib_ok h" "internal_get_uuid_by_uid h uid s = Inr (u, s')"
  shows "internal_get_uuid_by_uid h uid s' = Inr (u, s')"
proof (cases "getpwuid h uid")
  case None
  then show ?thesis using assms(2) by (simp add: internal_get_uuid_by_uid_def)
next
  case (Some dir)
  show ?thesis
  proof (cases "path_exists (u_fs s) dir")
    case False
    then show ?thesis using assms(2) Some by (simp add: internal_get_uuid_by_uid_def)
  next
    case True
    let ?f = "uuid_file_of dir"
    from assms(2) Some True obtain s1 where e: "ensure_conf_dir dir s = Inr s1"
      and n: "new_uuid h ?f s1 = Inr (u, s') \<or>
        path_exists (u_fs s1) ?f \<and> ?f \<notin> set (fs_denied (u_fs s1)) \<and> read_uuid h ?f s1 = Some u \<and> s' = s1"
      by (auto simp: internal_get_uuid_by_uid_def bindR_eq_Inr Let_def
          split: if_splits option.splits)
    have d1: "path_exists (u_fs s1) dir"
      using ensure_conf_dir_le [OF e] True by (auto intro: fs_le_exists)
    from n show ?thesis
    proof
      assume w: "new_uuid h ?f s1 = Inr (u, s')"
      note w' = new_uuid_Inr [OF w assms(1)]
      have "path_exists (u_fs s') (conf_dir_of dir)"
        using ensure_conf_dir_exists [OF e] w' by blast
      then have "ensure_conf_dir dir s' = Inr s'" by (simp add: ensure_conf_dir_def)
      then show ?thesis
        using Some d1 w' can_write_not_denied by (simp add: internal_get_uuid_by_uid_def Let_def)
    next
      assume "path_exists (u_fs s1) ?f \<and> ?f \<notin> set (fs_denied (u_fs s1))
        \<and> read_uuid h ?f s1 = Some u \<and> s' = s1"
      then show ?thesis
        using Some d1 ensure_conf_dir_again [OF e]
        by (simp add: internal_get_uuid_by_uid_def Let_def)
    qed
  qed
qed

text \<open>
  C32. A user keeps one UUID: whatever the state of the home directory, once the function has
  answered, it answers the same from then on and changes nothing more.
\<close>

theorem uuid_settled:
  assumes "uuid_lib_ok h" "internal_get_uuid_by_uid h uid s = Inr (u, s')"
  shows "internal_get_uuid_by_uid h uid s' = Inr (u, s')"
  using assms by (rule uuid_stays)

lemma uuid_length:
  assumes "uuid_lib_ok h" "internal_get_uuid_by_uid h uid s = Inr (u, s')"
  shows "length u = 36"
  using assms
  by (auto simp: internal_get_uuid_by_uid_def UUID_DEFAULT_def bindR_eq_Inr Let_def new_uuid_def
      read_uuid_def uuid_lib_ok_def Option.bind_eq_Some_conv split: if_splits option.splits)

definition demo_host :: host where
  "demo_host = \<lparr>getpwuid = (\<lambda>uid. if uid = 1000 then Some ''/home/a'' else None),
     uuid_text = (\<lambda>n. replicate 36 CHR ''a''),
     uuid_canon = (\<lambda>s. if length s = 36 then Some s else None)\<rparr>"

definition demo_users :: users where
  "demo_users = \<lparr>u_fs = \<lparr>fs_dirs = [''/home'', ''/home/a''], fs_files = (\<lambda>_. None), fs_denied = []\<rparr>,
     u_gen = 0\<rparr>"

definition demo_users' :: users where
  "demo_users' = \<lparr>u_fs = \<lparr>fs_dirs = [''/home/a/.biometric_auth'', ''/home'', ''/home/a''],
     fs_files = [''/home/a/.biometric_auth/UUID'' \<mapsto> replicate 36 CHR ''a'' @ [newline]],
     fs_denied = []\<rparr>, u_gen = 1\<rparr>"

lemma demo_host_ok: "uuid_lib_ok demo_host"
  by (simp add: uuid_lib_ok_def demo_host_def nul_def)

lemma demo_first_call:
  "internal_get_uuid_by_uid demo_host 1000 demo_users = Inr (replicate 36 CHR ''a'', demo_users')"
  by (simp add: internal_get_uuid_by_uid_def demo_host_def demo_users_def demo_users'_def
      create_dir_step_def path_exists_def is_dir_def norm_path_def ensure_conf_dir_def conf_dir_of_def MAX_PATH_LEN_def
      internal_create_dir_def upt_rec mkdir_def uuid_file_of_def new_uuid_def can_write_def
      parent_dir_def Let_def)

theorem uuid_settled_witness:
  "internal_get_uuid_by_uid demo_host 1000 demo_users' = Inr (replicate 36 CHR ''a'', demo_users')"
  by (rule uuid_settled [OF demo_host_ok demo_first_call])

text \<open>
  A uid without an account, or whose home directory does not exist, gets the constant
  UUID: all such users share one identity.
\<close>

theorem uuid_default_shared:
  "getpwuid h uid = None \<or> (\<exists>d. getpwuid h uid = Some d \<and> \<not> path_exists (u_fs s) d) \<Longrightarrow>
   internal_get_uuid_by_uid h uid s = Inr (UUID_DEFAULT, s)"
  by (auto simp: internal_get_uuid_by_uid_def)

theorem uuid_default_shared_witness:
  "internal_get_uuid_by_uid demo_host 1 demo_users = internal_get_uuid_by_uid demo_host 2 demo_users"
  using uuid_default_shared [of demo_host 1 demo_users] uuid_default_shared [of demo_host 2 demo_users]
  by (simp add: demo_host_def)

section \<open>UTF-8 widths\<close>

text \<open>\<open>internal_utf8_char_len\<close>, on the first byte of a character.\<close>

definition internal_utf8_char_len :: "char \<Rightarrow> nat" where
  "internal_utf8_char_len c =
     (let b = (of_char c :: nat) in
      if bit b 7 then (if bit b 5 then (if bit b 4 then 4 else 3) else 2) else 1)"

text \<open>
  \<open>internal_utf8_str_len\<close> and \<open>internal_utf8_str_width\<close>: the pointer advances by whole
  characters; a truncated last character carries it past the terminator.
\<close>

function internal_utf8_str_len :: "string \<Rightarrow> nat res" where
  "internal_utf8_str_len s =
     (if s = [] then Inr 0
      else let l = internal_utf8_char_len (hd s)
           in if length s < l then Inl Out_of_bounds
              else bindR (internal_utf8_str_len (drop l s)) (\<lambda>n. Inr (Suc n)))"
  by pat_completeness auto
termination
  by (relation "measure length") (auto simp: internal_utf8_char_len_def Let_def)

function internal_utf8_str_width :: "string \<Rightarrow> nat res" where
  "internal_utf8_str_width s =
     (if s = [] then Inr 0
      else let l = internal_utf8_char_len (hd s)
           in if length s < l then Inl Out_of_bounds
              else bindR (internal_utf8_str_width (drop l s))
                     (\<lambda>n. Inr (Suc n + (if 2 < l then 1 else 0))))"
  by pat_completeness auto
termination
  by (relation "measure length") (auto simp: internal_utf8_char_len_def Let_def)

declare internal_utf8_str_len.simps [simp del] internal_utf8_str_width.simps [simp del]

text \<open>Specification: well-formed UTF-8 as a sequence of scalar values of one to four bytes.\<close>

definition lead :: "nat \<Rightarrow> char \<Rightarrow> bool" where
  "lead n c \<longleftrightarrow> (let b = (of_char c :: nat) in
     if n = 1 then b < 128 else if n = 2 then 192 \<le> b \<and> b < 224
     else if n = 3 then 224 \<le> b \<and> b < 240 else n = 4 \<and> 240 \<le> b \<and> b < 248)"

definition utf8_char :: "string \<Rightarrow> bool" where
  "utf8_char c \<longleftrightarrow> c \<noteq> [] \<and> lead (length c) (hd c)"

definition char_width :: "string \<Rightarrow> nat" where
  "char_width c = (if 2 < length c then 2 else 1)"

lemma bit_mod: "bit (b::nat) n \<longleftrightarrow> 2 ^ n \<le> b mod (2 ^ n * 2)"
proof -
  have "b mod (2 ^ n * 2) = 2 ^ n * (b div 2 ^ n mod 2) + b mod 2 ^ n"
    by (rule mod_mult2_eq)
  moreover have "b mod 2 ^ n < 2 ^ n" by simp
  ultimately show ?thesis
    unfolding bit_iff_odd odd_iff_mod_2_eq_one
    by (cases "b div 2 ^ n mod 2 = 1") (auto simp: not_mod_2_eq_1_eq_0 simp flip: not_less)
qed

lemma byte_bits:
  "(b::nat) < 256 \<Longrightarrow> (bit b 7 \<longleftrightarrow> 128 \<le> b) \<and> (bit b 5 \<longleftrightarrow> 32 \<le> b mod 64) \<and> (bit b 4 \<longleftrightarrow> 16 \<le> b mod 32)"
  by (simp add: bit_mod)

lemma char_len_by_value:
  assumes "b = (of_char c :: nat)"
  shows "internal_utf8_char_len c =
     (if 128 \<le> b then if 32 \<le> b mod 64 then if 16 \<le> b mod 32 then 4 else 3 else 2 else 1)"
proof -
  have "b < 256" unfolding assms by (rule nat_of_char_less_256)
  from byte_bits [OF this] show ?thesis
    unfolding internal_utf8_char_len_def Let_def assms [symmetric] by simp
qed

lemma mod_64_32:
  "192 \<le> (b::nat) \<Longrightarrow> b < 256 \<Longrightarrow> b mod 64 = b - 192"
  "224 \<le> (b::nat) \<Longrightarrow> b < 256 \<Longrightarrow> b mod 32 = b - 224"
  by (rule mod_nat_eqI; simp)+

lemma lead_cases:
  assumes "lead n c"
  defines "b \<equiv> (of_char c :: nat)"
  shows "(n = 1 \<and> b < 128) \<or> (n = 2 \<and> 192 \<le> b \<and> b < 224)
    \<or> (n = 3 \<and> 224 \<le> b \<and> b < 240) \<or> (n = 4 \<and> 240 \<le> b \<and> b < 248)"
  using assms(1) unfolding lead_def Let_def b_def [symmetric] by (simp split: if_splits)

lemma char_len_value:
  assumes "n = 1 \<and> b < 128 \<or> n = 2 \<and> 192 \<le> b \<and> b < 224
    \<or> n = 3 \<and> 224 \<le> b \<and> b < 240 \<or> n = 4 \<and> 240 \<le> b \<and> b < (248::nat)"
  shows "(if 128 \<le> b then if 32 \<le> b mod 64 then if 16 \<le> b mod 32 then 4 else 3 else 2 else 1) = (n::nat)"
  using assms by (elim disjE conjE) (simp_all add: mod_64_32 le_diff_conv2)

lemma char_len_lead:
  assumes "utf8_char c"
  shows "internal_utf8_char_len (hd c) = length c"
proof -
  have "lead (length c) (hd c)" using assms by (simp add: utf8_char_def)
  then show ?thesis
    unfolding char_len_by_value [OF refl] by (rule char_len_value [OF lead_cases])
qed

text \<open>
  On text that is a sequence of UTF-8 characters the two functions count the characters
  and their columns (two for characters of three or four bytes); they read past the end of a
  string whose last character is cut off.
\<close>

theorem utf8_functions:
  "list_all utf8_char cs \<Longrightarrow>
     internal_utf8_str_len (concat cs) = Inr (length cs)
   \<and> internal_utf8_str_width (concat cs) = Inr (sum_list (map char_width cs))
   \<and> (\<forall>c\<in>set cs. \<forall>k. 0 < k \<and> k < length c \<longrightarrow>
        internal_utf8_str_len (concat cs @ take k c) = Inl Out_of_bounds)"
proof (induction cs)
  case Nil
  then show ?case
    by (simp add: internal_utf8_str_len.simps [of "[]"] internal_utf8_str_width.simps [of "[]"])
next
  case (Cons c cs)
  then have c: "utf8_char c" "c \<noteq> []" by (auto simp: utf8_char_def)
  note step = internal_utf8_str_len.simps [of "c @ t" for t] internal_utf8_str_width.simps [of "c @ t" for t]
  have cut: "internal_utf8_str_len (concat cs' @ take k d) = Inl Out_of_bounds"
    if "list_all utf8_char cs'" "utf8_char d" "0 < k" "k < length d" for cs' d k
    using that(1)
  proof (induction cs')
    case Nil
    have "hd (take k d) = hd d" "take k d \<noteq> []" using that by (auto simp: hd_take)
    then show ?case
      using that char_len_lead [OF that(2)]
      by (simp add: internal_utf8_str_len.simps [of "take k d"] Let_def)
  next
    case (Cons e es)
    then have e: "utf8_char e" "e \<noteq> []" by (auto simp: utf8_char_def)
    then show ?case
      using Cons char_len_lead [OF e(1)]
      by (simp add: internal_utf8_str_len.simps [of "e @ t" for t] Let_def)
  qed
  show ?case
    using Cons c char_len_lead [OF c(1)] cut [of "c # cs"]
    by (auto simp: step Let_def char_width_def list_all_iff)
qed

theorem utf8_functions_witness:
  "internal_utf8_str_width [CHR 0xE4, CHR 0xB8, CHR 0xAD, CHR 0x41] = Inr 3
   \<and> internal_utf8_str_len [CHR 0xE4, CHR 0xB8, CHR 0xAD, CHR 0x41, CHR 0xE4] = Inl Out_of_bounds"
proof -
  have "list_all utf8_char [[CHR 0xE4, CHR 0xB8, CHR 0xAD], [CHR 0x41]]"
    by (simp add: utf8_char_def lead_def Let_def)
  from utf8_functions [OF this]
  show ?thesis by (auto simp: char_width_def dest: spec [of _ 1])
qed

end
