(* ===== verification/Bio_Storage.thy ===== *)
theory Bio_Storage
  imports User_Uuid "HOL-Library.Product_Lexorder" "HOL-Library.List_Lexorder"
    "HOL-Library.Option_ord" "HOL-Library.Char_ord"
begin

text \<open>
  The feature database of \<open>src/src/lib/biometric_storage.c\<close>: its tables, the statements the
  functions prepare and step, and the functions that read, insert, delete and update features.
  The statements are those of the source's SQL text; the engine that executes them answers
  success or failure as a schedule of faults says, one entry per call, and a failed statement
  has no effect. Memory allocation is taken to succeed.
\<close>

section \<open>Tables\<close>

record eigen_row =
  r_id :: int
  r_uid :: int
  r_uuid :: "string option"
  r_biotype :: int
  r_driver :: string
  r_index :: int
  r_index_name :: string
  r_sample_no :: int
  r_data :: string

text \<open>
  \<open>EIGEN_INFO\<close>: whether it has the \<open>UUID\<close> column (format 0.0.0 has not), its rows in the order
  of insertion, and the largest \<open>AUTOINCREMENT\<close> key given.
\<close>

record eigen_table =
  t_uuid_col :: bool
  t_rows :: "eigen_row list"
  t_seq :: int

record tables =
  eigen_info :: "eigen_table option"
  eigen_info_version_0_0_0 :: "eigen_table option"
  database_format :: "(int \<times> int \<times> int) list option"

definition no_tables :: tables where
  "no_tables = \<lparr>eigen_info = None, eigen_info_version_0_0_0 = None, database_format = None\<rparr>"

text \<open>
  The database file (none before it is created), the content to return to while a transaction
  is open, and the schedule of faults.
\<close>

record database =
  db_file :: "tables option"
  db_saved :: "tables option"
  db_faults :: "bool list"

record store =
  s_db :: database
  s_users :: users

definition tables_of :: "database \<Rightarrow> tables" where
  "tables_of db = (case db_file db of None \<Rightarrow> no_tables | Some t \<Rightarrow> t)"

definition upd_tables :: "(tables \<Rightarrow> tables) \<Rightarrow> database \<Rightarrow> database" where
  "upd_tables f db = db\<lparr>db_file := Some (f (tables_of db))\<rparr>"

section \<open>Calls of the SQL engine\<close>

text \<open>Whether the next call succeeds.\<close>

fun sql_call :: "database \<Rightarrow> bool \<times> database" where
  "sql_call db = (case db_faults db of [] \<Rightarrow> (True, db) | f # fs \<Rightarrow> (\<not> f, db\<lparr>db_faults := fs\<rparr>))"

text \<open>
  \<open>sqlite3_prepare_v2\<close> on a handle (false: the null handle, which is refused) of a statement
  that names existing tables and columns (or not).
\<close>

definition sqlite3_prepare :: "bool \<Rightarrow> bool \<Rightarrow> database \<Rightarrow> bool \<times> database" where
  "sqlite3_prepare h well_formed db =
     (if h then let (ok, db) = sql_call db in (ok \<and> well_formed, db) else (False, db))"

text \<open>A step (or \<open>sqlite3_exec\<close>) whose effect is \<open>f\<close>, unless a constraint forbids it.\<close>

definition sqlite3_step :: "bool \<Rightarrow> (tables \<Rightarrow> tables) \<Rightarrow> database \<Rightarrow> bool \<times> database" where
  "sqlite3_step allowed f db =
     (let (ok, db) = sql_call db in if ok \<and> allowed then (True, upd_tables f db) else (False, db))"

text \<open>The rows a loop of steps sees: it ends at the first call that does not answer a row.\<close>

fun sqlite3_rows :: "'r list \<Rightarrow> database \<Rightarrow> 'r list \<times> database" where
  "sqlite3_rows [] db = ([], snd (sql_call db))"
| "sqlite3_rows (r # rs) db =
     (let (ok, db) = sql_call db
      in if ok then let (rs', db) = sqlite3_rows rs db in (r # rs', db) else ([], db))"

definition has_eigen_info :: "tables \<Rightarrow> bool" where
  "has_eigen_info t \<longleftrightarrow> eigen_info t \<noteq> None"

definition has_uuid_column :: "tables \<Rightarrow> bool" where
  "has_uuid_column t \<longleftrightarrow> (case eigen_info t of None \<Rightarrow> False | Some e \<Rightarrow> t_uuid_col e)"

definition eigen_rows :: "tables \<Rightarrow> eigen_row list" where
  "eigen_rows t = (case eigen_info t of None \<Rightarrow> [] | Some e \<Rightarrow> t_rows e)"

definition upd_rows :: "(eigen_row list \<Rightarrow> eigen_row list) \<Rightarrow> tables \<Rightarrow> tables" where
  "upd_rows f t = t\<lparr>eigen_info := map_option (\<lambda>e. e\<lparr>t_rows := f (t_rows e)\<rparr>) (eigen_info t)\<rparr>"

section \<open>Features\<close>

text \<open>Strings that may be \<open>NULL\<close> are options; the two linked lists are lists.\<close>

record feature_sample =
  sa_dbid :: int
  sa_no :: int
  sa_data :: "string option"

record feature_info =
  fi_uid :: int
  fi_biotype :: int
  fi_driver :: "string option"
  fi_index :: int
  fi_index_name :: "string option"
  fi_sample :: "feature_sample list"

definition internal_newstr :: "string option \<Rightarrow> string" where
  "internal_newstr s = (case s of None \<Rightarrow> '''' | Some s \<Rightarrow> s)"

text \<open>The C function leaves \<open>dbid\<close> as \<open>malloc\<close> returns it; 0 stands for that value, which nothing reads before it is stored.\<close>

definition bio_sto_new_feature_sample :: "int \<Rightarrow> string option \<Rightarrow> feature_sample" where
  "bio_sto_new_feature_sample no data =
     \<lparr>sa_dbid = 0, sa_no = no,
      sa_data = (case data of None \<Rightarrow> None | Some _ \<Rightarrow> Some (internal_newstr data))\<rparr>"

definition bio_sto_new_feature_info ::
    "int \<Rightarrow> int \<Rightarrow> string option \<Rightarrow> int \<Rightarrow> string option \<Rightarrow> feature_info option" where
  "bio_sto_new_feature_info uid biotype driver index index_name =
     (if driver = None then None else if index_name = None then None
      else Some \<lparr>fi_uid = uid, fi_biotype = biotype, fi_driver = Some (internal_newstr driver),
             fi_index = index, fi_index_name = Some (internal_newstr index_name), fi_sample = []\<rparr>)"

section \<open>Reading features\<close>

text \<open>The \<open>WHERE\<close> clause the function assembles, and the \<open>ORDER BY\<close>.\<close>

definition row_selected :: "int \<Rightarrow> int \<Rightarrow> string option \<Rightarrow> int \<Rightarrow> int \<Rightarrow> eigen_row \<Rightarrow> bool" where
  "row_selected uid biotype driver index_start index_end r \<longleftrightarrow>
     index_start \<le> r_index r \<and> (uid \<noteq> -1 \<longrightarrow> r_uid r = uid) \<and> (biotype \<noteq> -1 \<longrightarrow> r_biotype r = biotype)
     \<and> (driver \<noteq> None \<longrightarrow> driver = Some (r_driver r)) \<and> (index_end \<noteq> -1 \<longrightarrow> r_index r \<le> index_end)"

definition row_key ::
    "eigen_row \<Rightarrow> int \<times> string option \<times> int \<times> string \<times> int \<times> string \<times> int" where
  "row_key r = (r_uid r, r_uuid r, r_biotype r, r_driver r, r_index r, r_index_name r, r_sample_no r)"

definition sample_of :: "eigen_row \<Rightarrow> feature_sample" where
  "sample_of r = \<lparr>sa_dbid = r_id r, sa_no = r_sample_no r, sa_data = Some (r_data r)\<rparr>"

definition info_of :: "eigen_row \<Rightarrow> feature_info" where
  "info_of r = \<lparr>fi_uid = r_uid r, fi_biotype = r_biotype r, fi_driver = Some (r_driver r),
     fi_index = r_index r, fi_index_name = Some (r_index_name r), fi_sample = [sample_of r]\<rparr>"

text \<open>
  The variables of the row loop. \<open>g_list\<close> is the list built so far, the item under construction
  first.
\<close>

record get_vars =
  g_old_uuid :: string
  g_old_uid :: int
  g_old_bio_type :: int
  g_old_driver :: "string option"
  g_old_idx :: int
  g_user_uuid :: string
  g_list :: "feature_info list"

definition get_vars_init :: get_vars where
  "get_vars_init = \<lparr>g_old_uuid = '''', g_old_uid = -1, g_old_bio_type = -1, g_old_driver = None,
     g_old_idx = -1, g_user_uuid = '''', g_list = []\<rparr>"

text \<open>The condition that opens a new item; \<open>strcmp\<close> with a null \<open>old_driver\<close> is a fault.\<close>

definition opens_item :: "get_vars \<Rightarrow> eigen_row \<Rightarrow> string \<Rightarrow> bool res" where
  "opens_item g r uuid =
     (if g_old_uid g < r_uid r \<or> g_old_bio_type g < r_biotype r then Inr True
      else case g_old_driver g of
             None \<Rightarrow> Inl Null_deref
           | Some d \<Rightarrow> Inr (d \<noteq> r_driver r \<or> g_old_idx g < r_index r \<or> g_old_uuid g \<noteq> uuid))"

definition refresh_user_uuid :: "host \<Rightarrow> eigen_row \<Rightarrow> get_vars \<Rightarrow> users \<Rightarrow> (get_vars \<times> users) res" where
  "refresh_user_uuid h r g us =
     (if g_old_uid g \<noteq> r_uid r
      then bindR (internal_get_uuid_by_uid h (r_uid r) us)
             (\<lambda>(u, us). Inr (g\<lparr>g_user_uuid := u, g_old_uid := r_uid r\<rparr>, us))
      else Inr (g, us))"

definition new_item :: "eigen_row \<Rightarrow> string \<Rightarrow> get_vars \<Rightarrow> get_vars" where
  "new_item r uuid g =
     g\<lparr>g_old_uid := r_uid r, g_old_bio_type := r_biotype r, g_old_driver := Some (r_driver r),
       g_old_idx := r_index r, g_old_uuid := uuid, g_list := info_of r # g_list g\<rparr>"

definition add_sample :: "eigen_row \<Rightarrow> get_vars \<Rightarrow> get_vars res" where
  "add_sample r g =
     (case g_list g of
        [] \<Rightarrow> Inl Null_deref
      | i # is \<Rightarrow> Inr (g\<lparr>g_list := i\<lparr>fi_sample := fi_sample i @ [sample_of r]\<rparr> # is\<rparr>))"

text \<open>
  One iteration. The \<open>UUID\<close> column is copied with \<open>strncpy\<close> (37 bytes; a null column is a fault);
  a row whose UUID is not the one its user has now is skipped.
\<close>

definition get_row :: "host \<Rightarrow> eigen_row \<Rightarrow> get_vars \<times> users \<Rightarrow> (get_vars \<times> users) res" where
  "get_row h r = (\<lambda>(g, us).
     case r_uuid r of
       None \<Rightarrow> Inl Null_deref
     | Some column \<Rightarrow>
         let uuid = take UUID_BUF_LEN column
         in bindR (opens_item g r uuid) (\<lambda>opens.
              if opens
              then bindR (refresh_user_uuid h r g us) (\<lambda>(g, us).
                     if uuid \<noteq> g_user_uuid g then Inr (g, us) else Inr (new_item r uuid g, us))
              else if uuid \<noteq> g_user_uuid g then Inr (g, us)
              else bindR (add_sample r g) (\<lambda>g. Inr (g, us))))"

fun get_rows :: "host \<Rightarrow> eigen_row list \<Rightarrow> get_vars \<times> users \<Rightarrow> (get_vars \<times> users) res" where
  "get_rows h [] s = Inr s"
| "get_rows h (r # rs) s = bindR (get_row h r s) (get_rows h rs)"

definition bio_sto_get_feature_info ::
    "host \<Rightarrow> bool \<Rightarrow> int \<Rightarrow> int \<Rightarrow> string option \<Rightarrow> int \<Rightarrow> int \<Rightarrow> store \<Rightarrow>
     (feature_info list \<times> store) res" where
  "bio_sto_get_feature_info h handle uid biotype driver index_start index_end s =
     (let (ok, db) = sqlite3_prepare handle (has_uuid_column (tables_of (s_db s))) (s_db s)
      in if \<not> ok then Inr ([], s\<lparr>s_db := db\<rparr>)
         else let selected = sort_key row_key
                    (filter (row_selected uid biotype driver index_start index_end)
                            (eigen_rows (tables_of db)));
                  (rows, db) = sqlite3_rows selected db
              in bindR (get_rows h rows (get_vars_init, s_users s))
                   (\<lambda>(g, us). Inr (rev (g_list g), \<lparr>s_db = db, s_users = us\<rparr>)))"

section \<open>Storing features\<close>

text \<open>The \<open>INSERT\<close>: a null in a \<open>NOT NULL\<close> column fails.\<close>

definition insert_row :: "feature_info \<Rightarrow> string \<Rightarrow> feature_sample \<Rightarrow> tables \<Rightarrow> tables" where
  "insert_row i uuid s t = t\<lparr>eigen_info := map_option (\<lambda>e.
     e\<lparr>t_rows := t_rows e @ [\<lparr>r_id = t_seq e + 1, r_uid = fi_uid i, r_uuid = Some uuid,
          r_biotype = fi_biotype i, r_driver = the (fi_driver i), r_index = fi_index i,
          r_index_name = the (fi_index_name i), r_sample_no = sa_no s, r_data = the (sa_data s)\<rparr>],
       t_seq := t_seq e + 1\<rparr>) (eigen_info t)\<rparr>"

definition insertable :: "feature_info \<Rightarrow> feature_sample \<Rightarrow> bool" where
  "insertable i s \<longleftrightarrow> fi_driver i \<noteq> None \<and> fi_index_name i \<noteq> None \<and> sa_data s \<noteq> None"

text \<open>
  The loop over items and samples: \<open>old_uid\<close> and \<open>uuid\<close> are its variables, \<open>ss\<close> the rest of the
  samples of the first item. An item without samples is a null pointer followed.
\<close>

definition item_uuid :: "host \<Rightarrow> int \<Rightarrow> string \<Rightarrow> feature_info \<Rightarrow> store \<Rightarrow> (string \<times> store) res" where
  "item_uuid h old_uid uuid i s =
     (if old_uid \<noteq> fi_uid i
      then bindR (internal_get_uuid_by_uid h (fi_uid i) (s_users s))
             (\<lambda>(u, us). Inr (u, s\<lparr>s_users := us\<rparr>))
      else Inr (uuid, s))"

fun set_loop ::
    "host \<Rightarrow> int \<Rightarrow> string \<Rightarrow> feature_info list \<Rightarrow> feature_sample list \<Rightarrow> store \<Rightarrow> (int \<times> store) res" where
  "set_loop h old_uid uuid [] ss s = Inr (0, s)"
| "set_loop h old_uid uuid (i # is) [] s =
     bindR (item_uuid h old_uid uuid i s) (\<lambda>_. Inl Null_deref)"
| "set_loop h old_uid uuid (i # is) (x # ss) s =
     bindR (item_uuid h old_uid uuid i s) (\<lambda>(uuid, s).
       let (ok, db) = sqlite3_step (insertable i x) (insert_row i uuid x) (s_db s);
           s = s\<lparr>s_db := db\<rparr>
       in if \<not> ok then Inr (-2, s)
          else if ss = []
               then set_loop h (fi_uid i) uuid is (case is of [] \<Rightarrow> [] | j # _ \<Rightarrow> fi_sample j) s
               else set_loop h (fi_uid i) uuid (i # is) ss s)"

definition bio_sto_set_feature_info ::
    "host \<Rightarrow> bool \<Rightarrow> feature_info list \<Rightarrow> store \<Rightarrow> (int \<times> store) res" where
  "bio_sto_set_feature_info h handle infos s =
     (let (ok, db) = sqlite3_prepare handle (has_uuid_column (tables_of (s_db s))) (s_db s);
          s = s\<lparr>s_db := db\<rparr>
      in if \<not> ok then Inr (-1, s)
         else case infos of
                [] \<Rightarrow> Inr (0, s)
              | i # _ \<Rightarrow> set_loop h (-1) '''' infos (fi_sample i) s)"

section \<open>Deleting and updating features\<close>

definition bio_sto_clean_feature_info ::
    "bool \<Rightarrow> int \<Rightarrow> int \<Rightarrow> string option \<Rightarrow> int \<Rightarrow> int \<Rightarrow> store \<Rightarrow> int \<times> store" where
  "bio_sto_clean_feature_info handle uid biotype driver index_start index_end s =
     (let driver = (if driver = Some '''' then None else driver);
          (ok, db) = sqlite3_prepare handle (has_eigen_info (tables_of (s_db s))) (s_db s)
      in if \<not> ok then (-2, s\<lparr>s_db := db\<rparr>)
         else let (ok, db) = sqlite3_step True
                    (upd_rows (filter (\<lambda>r. \<not> row_selected uid biotype driver index_start index_end r))) db
              in (if ok then 0 else -2, s\<lparr>s_db := db\<rparr>))"

definition bio_sto_update_feature_info_by_dbid ::
    "bool \<Rightarrow> int \<Rightarrow> int \<Rightarrow> int \<Rightarrow> string option \<Rightarrow> int \<Rightarrow> string option \<Rightarrow> int \<Rightarrow> store \<Rightarrow> int \<times> store" where
  "bio_sto_update_feature_info_by_dbid handle dbid uid biotype driver index index_name sample_no s =
     (let (ok, db) = sqlite3_prepare handle (has_eigen_info (tables_of (s_db s))) (s_db s)
      in if \<not> ok then (-2, s\<lparr>s_db := db\<rparr>)
         else let hit = (\<lambda>r. r_id r = dbid);
                  allowed = (driver \<noteq> None \<and> index_name \<noteq> None
                             \<or> \<not> list_ex hit (eigen_rows (tables_of db)));
                  (ok, db) = sqlite3_step allowed (upd_rows (map (\<lambda>r. if hit r
                      then r\<lparr>r_uid := uid, r_biotype := biotype, r_driver := the driver,
                             r_index := index, r_index_name := the index_name,
                             r_sample_no := sample_no\<rparr> else r))) db
              in (if ok then 0 else -2, s\<lparr>s_db := db\<rparr>))"

section \<open>Connecting\<close>

definition DB_DIR :: string where "DB_DIR = ''/var/lib/biometric-auth/''"

definition exec :: "bool \<Rightarrow> (tables \<Rightarrow> tables) \<Rightarrow> database \<Rightarrow> bool \<times> database" where
  "exec = sqlite3_step"

definition internal_create_eigen_info_table :: "database \<Rightarrow> int \<times> database" where
  "internal_create_eigen_info_table db =
     (let (ok, db) = exec True (\<lambda>t. if eigen_info t = None
            then t\<lparr>eigen_info := Some \<lparr>t_uuid_col = True, t_rows = [], t_seq = 0\<rparr>\<rparr> else t) db
      in (if ok then 0 else -1, db))"

definition internal_create_datebase_info :: "database \<Rightarrow> int \<times> database" where
  "internal_create_datebase_info db =
     (let (ok, db) = exec True (\<lambda>t. if database_format t = None
            then t\<lparr>database_format := Some []\<rparr> else t) db
      in if \<not> ok then (-1, db)
         else let (ok, db) = sqlite3_prepare True True db
         in if \<not> ok then (-1, db)
         else let (ok, db) = sqlite3_step True (\<lambda>t. t\<lparr>database_format :=
                    map_option (\<lambda>fs. fs @ [(1, 1, 0)]) (database_format t)\<rparr>) db
              in (if ok then 0 else -1, db))"

definition bio_sto_create_table :: "database \<Rightarrow> int \<times> database" where
  "bio_sto_create_table db =
     (let (ret, db) = internal_create_eigen_info_table db
      in if ret \<noteq> 0 then (-1, db)
         else let (ret, db) = internal_create_datebase_info db
              in (if ret \<noteq> 0 then -1 else 0, db))"

text \<open>\<open>sqlite3_open_v2\<close> with the flag to create the file; it needs the directory.\<close>

definition sqlite3_open :: "store \<Rightarrow> bool \<times> store" where
  "sqlite3_open s =
     (let (ok, db) = sql_call (s_db s)
      in if ok \<and> path_exists (u_fs (s_users s)) DB_DIR
         then (True, s\<lparr>s_db := upd_tables (\<lambda>t. t) db\<rparr>) else (False, s\<lparr>s_db := db\<rparr>))"

text \<open>\<open>sqlite3_close_v2\<close>: an open transaction is rolled back.\<close>

definition bio_sto_disconnect_db :: "store \<Rightarrow> store" where
  "bio_sto_disconnect_db s =
     (case db_saved (s_db s) of
        None \<Rightarrow> s
      | Some t \<Rightarrow> s\<lparr>s_db := (s_db s)\<lparr>db_file := Some t, db_saved := None\<rparr>\<rparr>)"

definition create_db_dir :: "store \<Rightarrow> store res" where
  "create_db_dir s =
     (if path_exists (u_fs (s_users s)) DB_DIR then Inr s
      else bindR (internal_create_dir DB_DIR (u_fs (s_users s)))
             (\<lambda>(_, fs). Inr (s\<lparr>s_users := (s_users s)\<lparr>u_fs := fs\<rparr>\<rparr>)))"

text \<open>The answer is whether the handle is not null.\<close>

definition bio_sto_connect_db :: "store \<Rightarrow> (bool \<times> store) res" where
  "bio_sto_connect_db s =
     (let need_create = (db_file (s_db s) = None)
      in bindR (if need_create then bindR (create_db_dir s) (\<lambda>s. Inr (sqlite3_open s)) else Inr (True, s))
           (\<lambda>(ok, s).
             if \<not> ok then Inr (False, s)
             else let (ok, s) = sqlite3_open s
                  in if \<not> ok then Inr (False, s)
                     else if need_create
                          then let (ret, db) = bio_sto_create_table (s_db s); s = s\<lparr>s_db := db\<rparr>
                               in if ret \<noteq> 0 then Inr (False, bio_sto_disconnect_db s)
                                  else Inr (True, s)
                          else Inr (True, s)))"

end
