(* ===== verification/Storage_Query.thy ===== *)
theory Storage_Query
  imports Bio_Storage
begin

text \<open>
  What a query of the feature database returns: the rows of the clause that carry the current
  UUID of their user, in the order of the statement, grouped into features.
\<close>

section \<open>Specification\<close>

text \<open>The users whose UUID is settled, and that UUID.\<close>

definition uuid_of :: "host \<Rightarrow> users \<Rightarrow> int \<Rightarrow> string" where
  "uuid_of h us uid = (case internal_get_uuid_by_uid h uid us of Inl _ \<Rightarrow> '''' | Inr (u, _) \<Rightarrow> u)"

definition settled :: "host \<Rightarrow> users \<Rightarrow> int \<Rightarrow> bool" where
  "settled h us uid \<longleftrightarrow> internal_get_uuid_by_uid h uid us = Inr (uuid_of h us uid, us)"

definition current :: "host \<Rightarrow> users \<Rightarrow> eigen_row \<Rightarrow> bool" where
  "current h us r \<longleftrightarrow> r_uuid r = Some (uuid_of h us (r_uid r))"

definition same_feature :: "eigen_row \<Rightarrow> eigen_row \<Rightarrow> bool" where
  "same_feature c r \<longleftrightarrow> r_uid c = r_uid r \<and> r_uuid c = r_uuid r \<and> r_biotype c = r_biotype r
     \<and> r_driver c = r_driver r \<and> r_index c = r_index r"

function group_rows :: "eigen_row list \<Rightarrow> feature_info list" where
  "group_rows [] = []"
| "group_rows (r # rs) =
     (info_of r)\<lparr>fi_sample := map sample_of (r # takeWhile (same_feature r) rs)\<rparr>
       # group_rows (dropWhile (same_feature r) rs)"
  by pat_completeness auto
termination
  by (relation "measure length") (auto simp: le_imp_less_Suc length_dropWhile_le)

definition query_rows ::
    "host \<Rightarrow> int \<Rightarrow> int \<Rightarrow> string option \<Rightarrow> int \<Rightarrow> int \<Rightarrow> store \<Rightarrow> eigen_row list" where
  "query_rows h uid biotype driver index_start index_end s =
     filter (current h (s_users s))
       (sort_key row_key (filter (row_selected uid biotype driver index_start index_end)
                                 (eigen_rows (tables_of (s_db s)))))"

text \<open>The database in working order: the table is there and no call will fail.\<close>

definition sound :: "bool \<Rightarrow> store \<Rightarrow> bool" where
  "sound handle s \<longleftrightarrow> handle \<and> db_faults (s_db s) = [] \<and> has_uuid_column (tables_of (s_db s))"

section \<open>The row loop\<close>

text \<open>
  The invariant: \<open>c\<close> is the last accepted row (none at first), \<open>low\<close> bounds its uid, and the
  variables are those of \<open>c\<close>.
\<close>

fun loop_vars :: "host \<Rightarrow> users \<Rightarrow> eigen_row option \<Rightarrow> get_vars \<Rightarrow> bool" where
  "loop_vars h us None g \<longleftrightarrow> g_old_bio_type g = -1 \<and> g_list g = []"
| "loop_vars h us (Some c) g \<longleftrightarrow> g_old_bio_type g = r_biotype c \<and> g_old_driver g = Some (r_driver c)
     \<and> g_old_idx g = r_index c \<and> r_uuid c = Some (g_old_uuid g) \<and> current h us c
     \<and> r_uid c \<le> g_old_uid g \<and> g_list g \<noteq> []"

definition uid_vars :: "host \<Rightarrow> users \<Rightarrow> get_vars \<Rightarrow> bool" where
  "uid_vars h us g \<longleftrightarrow> (g_old_uid g \<noteq> -1 \<longrightarrow> g_user_uuid g = uuid_of h us (g_old_uid g))"

fun finish :: "eigen_row option \<Rightarrow> feature_info list \<Rightarrow> eigen_row list \<Rightarrow> feature_info list" where
  "finish None l rs = group_rows rs"
| "finish (Some c) (i # l) rs =
     rev l @ i\<lparr>fi_sample := fi_sample i @ map sample_of (takeWhile (same_feature c) rs)\<rparr>
       # group_rows (dropWhile (same_feature c) rs)"
| "finish (Some c) [] rs = []"

definition good_row :: "host \<Rightarrow> users \<Rightarrow> eigen_row \<Rightarrow> bool" where
  "good_row h us r \<longleftrightarrow>
     0 \<le> r_uid r \<and> 0 \<le> r_biotype r \<and> r_uuid r \<noteq> None \<and> settled h us (r_uid r)"

text \<open>Two users of the result do not share a UUID.\<close>

definition told_apart :: "host \<Rightarrow> users \<Rightarrow> eigen_row list \<Rightarrow> bool" where
  "told_apart h us rs \<longleftrightarrow>
     (\<forall>a\<in>set rs. \<forall>b\<in>set rs. uuid_of h us (r_uid a) = uuid_of h us (r_uid b) \<longrightarrow> r_uid a = r_uid b)"

lemma told_apartD:
  "told_apart h us rs \<Longrightarrow> a \<in> set rs \<Longrightarrow> b \<in> set rs \<Longrightarrow>
   uuid_of h us (r_uid a) = uuid_of h us (r_uid b) \<Longrightarrow> r_uid a = r_uid b"
  unfolding told_apart_def by blast

lemma take_uuid_eq:
  "length u = 36 \<Longrightarrow> take UUID_BUF_LEN s = u \<longleftrightarrow> s = u"
  by (auto simp: UUID_BUF_LEN_def min_def split: if_splits)

lemma settled_length: "uuid_lib_ok h \<Longrightarrow> settled h us uid \<Longrightarrow> length (uuid_of h us uid) = 36"
  unfolding settled_def by (rule uuid_length)

lemma same_feature_trans: "same_feature c r \<Longrightarrow> same_feature c = same_feature r"
  by (auto simp: same_feature_def fun_eq_iff)

lemma row_key_le:
  "row_key a \<le> row_key b \<Longrightarrow> r_uid a \<le> r_uid b"
  "row_key a \<le> row_key b \<Longrightarrow> r_uid a = r_uid b \<Longrightarrow> r_uuid a = r_uuid b \<Longrightarrow> r_biotype a \<le> r_biotype b"
  "row_key a \<le> row_key b \<Longrightarrow> r_uid a = r_uid b \<Longrightarrow> r_uuid a = r_uuid b \<Longrightarrow> r_biotype a = r_biotype b \<Longrightarrow>
   r_driver a = r_driver b \<Longrightarrow> r_index a \<le> r_index b"
  by (auto simp: row_key_def less_eq_prod_def less_le)

text \<open>The condition of the code separates features, for an accepted row.\<close>

lemma opens_item_iff:
  assumes "loop_vars h us (Some c) g" "current h us r" "good_row h us r"
    "row_key c \<le> row_key r" "g_old_uid g \<le> r_uid r"
    "uuid_of h us (r_uid c) = uuid_of h us (r_uid r) \<Longrightarrow> r_uid c = r_uid r"
  shows "opens_item g r (uuid_of h us (r_uid r)) = Inr (\<not> same_feature c r)"
  using assms row_key_le [OF assms(4)]
  by (auto simp: opens_item_def same_feature_def current_def)

lemma opens_item_first:
  "loop_vars h us None g \<Longrightarrow> good_row h us r \<Longrightarrow> opens_item g r u = Inr True"
  by (simp add: opens_item_def good_row_def)

lemma opens_item_total:
  assumes "loop_vars h us c g" "good_row h us r" "g_old_uid g \<le> r_uid r"
  obtains b where "opens_item g r u = Inr b" "b \<or> g_old_uid g = r_uid r"
proof -
  have "\<exists>b. opens_item g r u = Inr b \<and> (b \<or> g_old_uid g = r_uid r)"
    using assms by (cases c) (auto simp: opens_item_def good_row_def ex_bool_eq)
  then show thesis using that by blast
qed

lemma refresh_ok:
  assumes "uid_vars h us g" "good_row h us r"
  shows "refresh_user_uuid h r g us =
    Inr (g\<lparr>g_user_uuid := uuid_of h us (r_uid r), g_old_uid := r_uid r\<rparr>, us)"
  using assms by (auto simp: refresh_user_uuid_def uid_vars_def good_row_def settled_def)

text \<open>A row that is not its user's current one changes at most the cached UUID.\<close>

lemma get_row_skip:
  assumes lib: "uuid_lib_ok h"
    and "loop_vars h us c g" "uid_vars h us g" "good_row h us r" "g_old_uid g \<le> r_uid r"
    "\<not> current h us r"
  obtains g' where "get_row h r (g, us) = Inr (g', us)" "loop_vars h us c g'" "uid_vars h us g'"
    "g_old_uid g' \<le> r_uid r" "g_list g' = g_list g"
proof -
  obtain col where col: "r_uuid r = Some col" "take UUID_BUF_LEN col \<noteq> uuid_of h us (r_uid r)"
    using assms settled_length [OF lib] by (auto simp: good_row_def current_def take_uuid_eq)
  obtain b where b: "opens_item g r (take UUID_BUF_LEN col) = Inr b" "b \<or> g_old_uid g = r_uid r"
    using opens_item_total assms by metis
  have same: "g_user_uuid g = uuid_of h us (r_uid r)" if "\<not> b"
    using b that assms by (auto simp: uid_vars_def good_row_def)
  let ?g = "if b then g\<lparr>g_user_uuid := uuid_of h us (r_uid r), g_old_uid := r_uid r\<rparr> else g"
  show thesis
  proof
    show "get_row h r (g, us) = Inr (?g, us)"
      using col b same refresh_ok [OF assms(3,4)] by (simp add: get_row_def Let_def)
    show "loop_vars h us c ?g"
      using assms(2,5) by (cases c) auto
  qed (use assms in \<open>auto simp: uid_vars_def\<close>)
qed

text \<open>An accepted row opens an item or joins the last one.\<close>

lemma get_row_accept:
  assumes lib: "uuid_lib_ok h"
    and "loop_vars h us c g" "uid_vars h us g" "good_row h us r" "g_old_uid g \<le> r_uid r"
    "current h us r"
    "\<And>c'. c = Some c' \<Longrightarrow> row_key c' \<le> row_key r"
    "\<And>c'. c = Some c' \<Longrightarrow> uuid_of h us (r_uid c') = uuid_of h us (r_uid r) \<Longrightarrow> r_uid c' = r_uid r"
  obtains g' where "get_row h r (g, us) = Inr (g', us)" "loop_vars h us (Some r) g'"
    "uid_vars h us g'" "g_old_uid g' \<le> r_uid r"
    "\<And>rs. finish (Some r) (g_list g') rs = finish c (g_list g) (r # rs)"
proof -
  let ?u = "uuid_of h us (r_uid r)"
  have u: "r_uuid r = Some ?u" "take UUID_BUF_LEN ?u = ?u"
    using assms settled_length [OF lib] by (auto simp: current_def good_row_def UUID_BUF_LEN_def)
  define opens where "opens = (case c of None \<Rightarrow> True | Some c' \<Rightarrow> \<not> same_feature c' r)"
  have op: "opens_item g r ?u = Inr opens"
    using opens_item_iff opens_item_first assms by (cases c) (auto simp: opens_def)
  show thesis
  proof (cases opens)
    case True
    let ?g = "new_item r ?u (g\<lparr>g_user_uuid := ?u, g_old_uid := r_uid r\<rparr>)"
    show thesis
    proof
      show "get_row h r (g, us) = Inr (?g, us)"
        using u op True refresh_ok [OF assms(3,4)] by (simp add: get_row_def Let_def)
      show "finish (Some r) (g_list ?g) rs = finish c (g_list g) (r # rs)" for rs
        using True assms(2)
        by (cases c; cases "g_list g") (auto simp: opens_def new_item_def info_of_def)
    qed (use assms u in \<open>auto simp: new_item_def uid_vars_def\<close>)
  next
    case False
    then obtain c' where c: "c = Some c'" and sf: "same_feature c' r"
      by (auto simp: opens_def split: option.splits)
    then obtain i l where l: "g_list g = i # l" using assms(2) by (cases "g_list g") auto
    have uid: "g_old_uid g = r_uid r"
      using c sf assms(2,5) by (auto simp: same_feature_def)
    let ?g = "g\<lparr>g_list := i\<lparr>fi_sample := fi_sample i @ [sample_of r]\<rparr> # l\<rparr>"
    show thesis
    proof
      show "get_row h r (g, us) = Inr (?g, us)"
        using u op False l uid assms by (auto simp: get_row_def Let_def add_sample_def uid_vars_def good_row_def)
      show "finish (Some r) (g_list ?g) rs = finish c (g_list g) (r # rs)" for rs
        using c sf l same_feature_trans [OF sf] by simp
      show "loop_vars h us (Some r) ?g"
        using c sf assms uid by (auto simp: same_feature_def)
    qed (use assms uid in \<open>auto simp: uid_vars_def\<close>)
  qed
qed

lemma get_rows_correct:
  assumes lib: "uuid_lib_ok h"
    and "sorted (map row_key rs)" "\<forall>r\<in>set rs. good_row h us r"
    "loop_vars h us c g" "uid_vars h us g"
    "\<forall>r\<in>set rs. g_old_uid g \<le> r_uid r"
    "\<And>c' r. c = Some c' \<Longrightarrow> r \<in> set rs \<Longrightarrow> row_key c' \<le> row_key r"
    "told_apart h us (case c of None \<Rightarrow> filter (current h us) rs | Some c' \<Rightarrow> c' # filter (current h us) rs)"
  shows "\<exists>g'. get_rows h rs (g, us) = Inr (g', us)
           \<and> rev (g_list g') = finish c (g_list g) (filter (current h us) rs)"
  using assms(2-)
proof (induction rs arbitrary: c g)
  case Nil
  then show ?case by (cases c; cases "g_list g") auto
next
  case (Cons r rs)
  have mono: "r_uid r \<le> r_uid x" if "x \<in> set rs" for x
    using Cons.prems(1) that row_key_le(1) [of r x] by auto
  show ?case
  proof (cases "current h us r")
    case False
    obtain g' where "get_row h r (g, us) = Inr (g', us)" "loop_vars h us c g'" "uid_vars h us g'"
      "g_old_uid g' \<le> r_uid r" "g_list g' = g_list g"
      by (rule get_row_skip [OF lib, of us c g r]) (use Cons.prems False in simp_all)
    note step = this
    have low: "\<forall>x\<in>set rs. g_old_uid g' \<le> r_uid x" using order_trans [OF step(4) mono] by blast
    have "\<exists>g''. get_rows h rs (g', us) = Inr (g'', us)
        \<and> rev (g_list g'') = finish c (g_list g') (filter (current h us) rs)"
    proof (rule Cons.IH)
      show "told_apart h us (case c of None \<Rightarrow> filter (current h us) rs
              | Some c' \<Rightarrow> c' # filter (current h us) rs)"
        using Cons.prems(7) False by (cases c) auto
    qed (use Cons.prems step low in simp_all)
    then show ?thesis using False step by auto
  next
    case True
    have apart: "r_uid c' = r_uid r"
      if "c = Some c'" "uuid_of h us (r_uid c') = uuid_of h us (r_uid r)" for c'
    proof -
      have "told_apart h us (c' # r # filter (current h us) rs)"
        using Cons.prems(7) True that(1) by simp
      then show ?thesis by (rule told_apartD) (use that(2) in simp_all)
    qed
    obtain g' where *: "get_row h r (g, us) = Inr (g', us)" "loop_vars h us (Some r) g'"
      "uid_vars h us g'" "g_old_uid g' \<le> r_uid r"
      "\<And>rs. finish (Some r) (g_list g') rs = finish c (g_list g) (r # rs)"
      by (rule get_row_accept [OF lib, of us c g r]) (use Cons.prems True apart in simp_all)
    have low: "\<forall>x\<in>set rs. g_old_uid g' \<le> r_uid x" using order_trans [OF *(4) mono] by blast
    have "\<exists>g''. get_rows h rs (g', us) = Inr (g'', us)
        \<and> rev (g_list g'') = finish (Some r) (g_list g') (filter (current h us) rs)"
    proof (rule Cons.IH)
      show "told_apart h us (case Some r of None \<Rightarrow> filter (current h us) rs
              | Some c' \<Rightarrow> c' # filter (current h us) rs)"
        using Cons.prems(7) True by (cases c) (auto simp: told_apart_def)
    qed (use Cons.prems * low in simp_all)
    then show ?thesis using * True by auto
  qed
qed

section \<open>The result of a query\<close>

lemma sqlite3_rows_sound: "db_faults db = [] \<Longrightarrow> sqlite3_rows rs db = (rs, db)"
  by (induction rs) simp_all

lemma prepare_sound: "db_faults db = [] \<Longrightarrow> sqlite3_prepare h w db = (h \<and> w, db)"
  by (simp add: sqlite3_prepare_def)

lemma step_sound:
  "db_faults db = [] \<Longrightarrow>
   sqlite3_step allowed f db = (if allowed then (True, upd_tables f db) else (False, db))"
  by (simp add: sqlite3_step_def)

lemma sorted_query: "sorted (map row_key (query_rows h uid bt d a b s))"
  unfolding query_rows_def by (rule sorted_filter) simp

lemma get_feature_info_lemma:
  assumes "uuid_lib_ok h" "sound handle s"
    "\<forall>r\<in>set (eigen_rows (tables_of (s_db s))).
       row_selected uid bt d a b r \<longrightarrow> good_row h (s_users s) r"
    "told_apart h (s_users s) (query_rows h uid bt d a b s)"
  shows "bio_sto_get_feature_info h handle uid bt d a b s =
           Inr (group_rows (query_rows h uid bt d a b s), s)"
proof -
  let ?rs = "sort_key row_key (filter (row_selected uid bt d a b) (eigen_rows (tables_of (s_db s))))"
  have "\<exists>g'. get_rows h ?rs (get_vars_init, s_users s) = Inr (g', s_users s)
      \<and> rev (g_list g') = finish None (g_list get_vars_init) (filter (current h (s_users s)) ?rs)"
    by (rule get_rows_correct [OF assms(1)])
       (use assms(3,4) in \<open>auto simp: get_vars_init_def uid_vars_def query_rows_def good_row_def\<close>)
  then show ?thesis
    using assms(2)
    by (auto simp: bio_sto_get_feature_info_def sound_def prepare_sound sqlite3_rows_sound
        query_rows_def)
qed

text \<open>
  C6. A query on a database in working order returns exactly the rows of its clause whose
  UUID is the current one of their user, in the order of the statement and grouped into
  features, and changes nothing: provided the users are settled, no column is null, and no
  two users of the result share a UUID.
\<close>

theorem get_feature_info_correct:
  assumes "uuid_lib_ok h" "sound handle s"
    "\<forall>r\<in>set (eigen_rows (tables_of (s_db s))).
       row_selected uid bt d a b r \<longrightarrow> good_row h (s_users s) r"
    "told_apart h (s_users s) (query_rows h uid bt d a b s)"
  shows "bio_sto_get_feature_info h handle uid bt d a b s =
           Inr (group_rows (query_rows h uid bt d a b s), s)"
  using assms by (rule get_feature_info_lemma)

definition fkey :: "eigen_row \<Rightarrow> int \<times> string option \<times> int \<times> string \<times> int" where
  "fkey r = (r_uid r, r_uuid r, r_biotype r, r_driver r, r_index r)"

definition feature_key :: "feature_info \<Rightarrow> int \<times> int \<times> string option \<times> int" where
  "feature_key i = (fi_uid i, fi_biotype i, fi_driver i, fi_index i)"

lemma same_feature_fkey: "same_feature c r \<longleftrightarrow> fkey c = fkey r"
  by (auto simp: same_feature_def fkey_def)

lemma fkey_le: "row_key a \<le> row_key b \<Longrightarrow> fkey a \<le> fkey b"
  by (auto simp: row_key_def fkey_def less_eq_prod_def)

lemma dropWhile_sorted_less:
  fixes f :: "'a \<Rightarrow> 'b::linorder"
  assumes "sorted (map f (r # rs))" "x \<in> set (dropWhile (\<lambda>x. f r = f x) rs)"
  shows "f r < f x"
  using assms
proof (induction rs)
  case (Cons y ys)
  then show ?case by (cases "f r = f y") (auto intro: order.strict_trans2 simp: order.strict_iff_order)
qed simp

lemma feature_keys_of_rows:
  "feature_key ` set (group_rows rs) \<subseteq>
     (\<lambda>r. (r_uid r, r_biotype r, Some (r_driver r), r_index r)) ` set rs"
proof (induction rs rule: group_rows.induct)
  case (2 r rs)
  then show ?case
    by (auto simp: feature_key_def info_of_def dest: set_dropWhileD)
qed simp

lemma concat_samples: "concat (map fi_sample (group_rows rs)) = map sample_of rs"
proof (induction rs rule: group_rows.induct)
  case (2 r rs)
  have "map sample_of (takeWhile (same_feature r) rs) @ map sample_of (dropWhile (same_feature r) rs)
        = map sample_of rs"
    by (simp flip: map_append)
  then show ?case using 2 by simp
qed simp

lemma sorted_fkey:
  assumes "sorted (map row_key rs)"
  shows "sorted (map fkey rs)"
  using assms unfolding sorted_map by (rule sorted_wrt_mono_rel [rotated]) (rule fkey_le)

lemma dropped_later:
  assumes "sorted (map row_key (r # rs))" "x \<in> set (dropWhile (same_feature r) rs)"
  shows "fkey r < fkey x"
proof -
  have "same_feature r = (\<lambda>x. fkey r = fkey x)" by (simp add: same_feature_fkey fun_eq_iff)
  then show ?thesis
    using dropWhile_sorted_less [OF sorted_fkey [OF assms(1)]] assms(2) by simp
qed

lemma sorted_dropped: "sorted (map f rs) \<Longrightarrow> sorted (map f (dropWhile P rs))"
  by (induction rs) auto

lemma current_fkey:
  "current h us x \<Longrightarrow> current h us r \<Longrightarrow> r_uid x = r_uid r \<Longrightarrow> r_biotype x = r_biotype r \<Longrightarrow>
   r_driver x = r_driver r \<Longrightarrow> r_index x = r_index r \<Longrightarrow> fkey x = fkey r"
  by (simp add: fkey_def current_def)

lemma distinct_features:
  "sorted (map row_key rs) \<Longrightarrow> \<forall>r\<in>set rs. current h us r \<Longrightarrow>
   distinct (map feature_key (group_rows rs))"
proof (induction rs rule: group_rows.induct)
  case (2 r rs)
  let ?rest = "dropWhile (same_feature r) rs"
  let ?k = "(r_uid r, r_biotype r, Some (r_driver r), r_index r)"
  have cur: "\<forall>x\<in>set ?rest. current h us x"
    using 2(3) by (meson list.set_intros(2) set_dropWhileD)
  have "?k \<notin> feature_key ` set (group_rows ?rest)"
  proof
    assume "?k \<in> feature_key ` set (group_rows ?rest)"
    then obtain x where x: "x \<in> set ?rest" "r_uid x = r_uid r" "r_biotype x = r_biotype r"
      "r_driver x = r_driver r" "r_index x = r_index r"
      using feature_keys_of_rows [of ?rest] by auto
    then have "fkey x = fkey r" using cur 2(3) by (intro current_fkey) auto
    then show False using dropped_later [OF 2(2) x(1)] by simp
  qed
  moreover have "distinct (map feature_key (group_rows ?rest))"
    by (rule "2.IH" [OF sorted_dropped cur]) (use 2(2) in simp)
  moreover have "feature_key (info_of r\<lparr>fi_sample := ss\<rparr>) = ?k" for ss
    by (simp add: feature_key_def info_of_def)
  ultimately show ?case by simp
qed simp

text \<open>
  The features of a query are the rows cut at the changes of user, type, driver or
  index: together their samples are all the rows, in order; no feature is empty; and no two
  features of the list have the same user, type, driver and index.
\<close>

theorem query_features:
  defines "fs \<equiv> \<lambda>h uid bt d a b s. group_rows (query_rows h uid bt d a b s)"
  shows "concat (map fi_sample (fs h uid bt d a b s)) = map sample_of (query_rows h uid bt d a b s)
    \<and> [] \<notin> set (map fi_sample (fs h uid bt d a b s))
    \<and> distinct (map feature_key (fs h uid bt d a b s))"
proof -
  let ?q = "query_rows h uid bt d a b s"
  have cur: "\<forall>r\<in>set ?q. current h (s_users s) r" by (simp add: query_rows_def)
  have "distinct (map feature_key (group_rows ?q))"
    by (rule distinct_features [OF sorted_query cur])
  moreover have "[] \<notin> set (map fi_sample (group_rows rs))" for rs
    by (induction rs rule: group_rows.induct) auto
  ultimately show ?thesis
    using cur sorted_query by (simp add: fs_def concat_samples)
qed

section \<open>A concrete database\<close>

definition uuid1 :: string where "uuid1 = replicate 36 CHR ''a''"

definition demo_row :: "int \<Rightarrow> int \<Rightarrow> string \<Rightarrow> int \<Rightarrow> int \<Rightarrow> eigen_row" where
  "demo_row i uid uuid idx no =
     \<lparr>r_id = i, r_uid = uid, r_uuid = Some uuid, r_biotype = 0, r_driver = ''aes2501'',
      r_index = idx, r_index_name = ''thumb'', r_sample_no = no, r_data = ''data''\<rparr>"

definition demo_store :: "eigen_row list \<Rightarrow> store" where
  "demo_store rs = \<lparr>s_db = \<lparr>db_file = Some (no_tables\<lparr>eigen_info :=
       Some \<lparr>t_uuid_col = True, t_rows = rs, t_seq = int (length rs)\<rparr>\<rparr>),
     db_saved = None, db_faults = []\<rparr>, s_users = demo_users'\<rparr>"

lemma demo_settled: "settled demo_host demo_users' 1000" "uuid_of demo_host demo_users' 1000 = uuid1"
  using uuid_stays [OF demo_host_ok demo_first_call]
  by (simp_all add: settled_def uuid_of_def uuid1_def)

lemma demo_settled_absent:
  "uid \<noteq> 1000 \<Longrightarrow> settled demo_host s uid \<and> uuid_of demo_host s uid = UUID_DEFAULT"
  by (simp add: settled_def uuid_of_def internal_get_uuid_by_uid_def demo_host_def)

lemma demo_tables [simp]:
  "eigen_rows (tables_of (s_db (demo_store rs))) = rs" "s_users (demo_store rs) = demo_users'"
  "sound True (demo_store rs)"
  by (simp_all add: demo_store_def tables_of_def eigen_rows_def no_tables_def sound_def has_uuid_column_def)

lemma demo_row_simps [simp]:
  "r_id (demo_row i uid u x n) = i" "r_uid (demo_row i uid u x n) = uid"
  "r_uuid (demo_row i uid u x n) = Some u" "r_biotype (demo_row i uid u x n) = 0"
  "r_driver (demo_row i uid u x n) = ''aes2501''" "r_index (demo_row i uid u x n) = x"
  "r_index_name (demo_row i uid u x n) = ''thumb''" "r_sample_no (demo_row i uid u x n) = n"
  "r_data (demo_row i uid u x n) = ''data''"
  by (simp_all add: demo_row_def)

definition demo_rows :: "eigen_row list" where
  "demo_rows = [demo_row 1 1000 uuid1 1 1, demo_row 2 1000 UUID_DEFAULT 1 2, demo_row 3 1000 uuid1 1 0]"

lemma demo_query:
  "query_rows demo_host 1000 0 (Some ''aes2501'') 0 (-1) (demo_store demo_rows) =
     [demo_row 3 1000 uuid1 1 0, demo_row 1 1000 uuid1 1 1]"
proof -
  have "UUID_DEFAULT < uuid1" "UUID_DEFAULT \<noteq> uuid1" by (code_simp, code_simp)
  then show ?thesis
    by (simp add: query_rows_def demo_rows_def row_selected_def row_key_def current_def
        demo_settled sort_key_def less_eq_prod_def less_prod_def)
qed

theorem get_feature_info_correct_witness:
  "bio_sto_get_feature_info demo_host True 1000 0 (Some ''aes2501'') 0 (-1) (demo_store demo_rows) =
     Inr (group_rows [demo_row 3 1000 uuid1 1 0, demo_row 1 1000 uuid1 1 1], demo_store demo_rows)"
  using get_feature_info_correct [OF demo_host_ok, of True "demo_store demo_rows" 1000 0
      "Some ''aes2501''" 0 "-1"]
  unfolding demo_query
  by (simp add: told_apart_def good_row_def demo_rows_def demo_settled)

text \<open>
  The proviso is needed: when two users without a home directory have the same
  (default) UUID, the second user's sample is handed out as one more sample of the first
  user's finger, whenever the row before it is a stale one of the second user.
\<close>

theorem shared_uuid_mixes_users:
  "bio_sto_get_feature_info demo_host True (-1) (-1) None 0 (-1)
     (demo_store [demo_row 1 7 UUID_DEFAULT 1 0, demo_row 2 8 ''0'' 1 0, demo_row 3 8 UUID_DEFAULT 1 0])
   = Inr ([(info_of (demo_row 1 7 UUID_DEFAULT 1 0))\<lparr>fi_sample :=
             [sample_of (demo_row 1 7 UUID_DEFAULT 1 0), sample_of (demo_row 3 8 UUID_DEFAULT 1 0)]\<rparr>],
          demo_store [demo_row 1 7 UUID_DEFAULT 1 0, demo_row 2 8 ''0'' 1 0,
                      demo_row 3 8 UUID_DEFAULT 1 0])"
proof -
  have l: "''0'' < UUID_DEFAULT" "UUID_DEFAULT \<noteq> ''0''" "take UUID_BUF_LEN UUID_DEFAULT = UUID_DEFAULT"
    "take UUID_BUF_LEN ''0'' = ''0''"
    by (code_simp, code_simp, code_simp, code_simp)
  have g: "internal_get_uuid_by_uid demo_host 7 us = Inr (UUID_DEFAULT, us)"
    "internal_get_uuid_by_uid demo_host 8 us = Inr (UUID_DEFAULT, us)" for us
    by (simp_all add: internal_get_uuid_by_uid_def demo_host_def)
  show ?thesis
    using l g
    by (simp add: bio_sto_get_feature_info_def demo_store_def sqlite3_prepare_def tables_of_def
        has_uuid_column_def eigen_rows_def no_tables_def row_selected_def row_key_def sort_key_def
        less_eq_prod_def less_prod_def get_row_def opens_item_def refresh_user_uuid_def new_item_def
        add_sample_def get_vars_init_def Let_def info_of_def)
qed

end
