(* ===== verification/Storage_Update.thy ===== *)
theory Storage_Update
  imports Storage_Query
begin

text \<open>
  What storing, deleting and updating features and connecting to the database do to its
  tables, and what a query sees afterwards.
\<close>

section \<open>Storing\<close>

text \<open>The rows to insert, item by item, and the table after inserting some of them.\<close>

definition flat :: "feature_info list \<Rightarrow> (feature_info \<times> feature_sample) list" where
  "flat infos = concat (map (\<lambda>i. map (Pair i) (fi_sample i)) infos)"

definition insert_all ::
    "host \<Rightarrow> users \<Rightarrow> (feature_info \<times> feature_sample) list \<Rightarrow> tables \<Rightarrow> tables" where
  "insert_all h us ps t = fold (\<lambda>(i, x). insert_row i (uuid_of h us (fi_uid i)) x) ps t"

lemma insert_all_simps [simp]:
  "insert_all h us [] t = t"
  "insert_all h us ((i, x) # ps) t = insert_all h us ps (insert_row i (uuid_of h us (fi_uid i)) x t)"
  by (simp_all add: insert_all_def)

text \<open>The features that can be stored: no null string, no empty item, a real and settled user.\<close>

definition storable :: "host \<Rightarrow> users \<Rightarrow> feature_info \<Rightarrow> bool" where
  "storable h us i \<longleftrightarrow> 0 \<le> fi_uid i \<and> settled h us (fi_uid i) \<and> fi_sample i \<noteq> []"

lemma flat_Cons: "flat (i # is) = map (Pair i) (fi_sample i) @ flat is"
  by (simp add: flat_def)

lemma flat_storable: "\<forall>i\<in>set infos. storable h us i \<Longrightarrow> flat infos = [] \<longleftrightarrow> infos = []"
  by (cases infos) (auto simp: flat_def storable_def)

lemma item_uuid_settled:
  assumes "settled h (s_users s) (fi_uid i)"
    "old_uid = fi_uid i \<Longrightarrow> uuid = uuid_of h (s_users s) (fi_uid i)"
  shows "item_uuid h old_uid uuid i s = Inr (uuid_of h (s_users s) (fi_uid i), s)"
  using assms by (auto simp: item_uuid_def settled_def)

lemma tables_of_upd [simp]: "tables_of (upd_tables f db) = f (tables_of db)"
  by (simp add: upd_tables_def tables_of_def)

lemma upd_tables_simps [simp]:
  "db_saved (upd_tables f db) = db_saved db" "db_faults (upd_tables f db) = db_faults db"
  by (simp_all add: upd_tables_def)

lemma sql_call_simps:
  "sql_call db = (ok, db') \<Longrightarrow>
   tables_of db' = tables_of db \<and> db_file db' = db_file db \<and> db_saved db' = db_saved db"
  by (auto simp: tables_of_def split: list.splits)

lemma step_cases:
  assumes "sqlite3_step allowed f db = (ok, db')"
  shows "tables_of db' = (if ok then f (tables_of db) else tables_of db)
    \<and> db_saved db' = db_saved db \<and> (ok \<longrightarrow> allowed)"
  using assms sql_call_simps [of db]
  by (auto simp: sqlite3_step_def split: prod.splits if_splits simp del: sql_call.simps)

lemma prepare_cases:
  assumes "sqlite3_prepare h w db = (ok, db')"
  shows "tables_of db' = tables_of db \<and> db_saved db' = db_saved db \<and> (ok \<longrightarrow> h \<and> w)"
  using assms sql_call_simps [of db]
  by (auto simp: sqlite3_prepare_def split: prod.splits if_splits simp del: sql_call.simps)

lemma has_uuid_insert_all [simp]:
  "has_uuid_column (insert_all h us ps t) = has_uuid_column t"
proof (induction ps arbitrary: t)
  case (Cons p ps)
  have "has_uuid_column (insert_row i u x t) = has_uuid_column t" for i u x
    by (auto simp: has_uuid_column_def insert_row_def split: option.splits)
  then show ?case using Cons by (cases p) simp
qed simp

lemma step_ok:
  "db_faults db = [] \<Longrightarrow> allowed \<Longrightarrow> sqlite3_step allowed f db = (True, upd_tables f db)"
  by (simp add: step_sound)

text \<open>
  The outcome of storing the samples \<open>ps\<close>: a prefix of them is in the table; all, exactly when
  the answer is 0; and that is the answer when neither the engine nor a constraint fails.
\<close>

definition stored_prefix ::
    "host \<Rightarrow> (feature_info \<times> feature_sample) list \<Rightarrow> store \<Rightarrow> int \<Rightarrow> store \<Rightarrow> bool" where
  "stored_prefix h ps s r s' \<longleftrightarrow>
     (\<exists>k \<le> length ps.
        tables_of (s_db s') = insert_all h (s_users s) (take k ps) (tables_of (s_db s))
        \<and> (r = 0 \<longleftrightarrow> k = length ps))
     \<and> s_users s' = s_users s \<and> r \<in> {0, -2}
     \<and> (db_faults (s_db s) = [] \<and> (\<forall>(j, x)\<in>set ps. insertable j x) \<longrightarrow> r = 0)
     \<and> (db_faults (s_db s) = [] \<longrightarrow> db_faults (s_db s') = [])"

lemma stored_prefix_fail:
  assumes "sqlite3_step (insertable i x) f (s_db s) = (False, db)"
  shows "stored_prefix h ((i, x) # ps) s (-2) (s\<lparr>s_db := db\<rparr>)"
proof -
  have "\<not> (db_faults (s_db s) = [] \<and> insertable i x)" using assms step_ok [of "s_db s"] by auto
  moreover have "tables_of db = tables_of (s_db s)" using step_cases [OF assms] by simp
  moreover have "db_faults (s_db s) = [] \<longrightarrow> db_faults db = []"
    using assms by (auto simp: step_sound split: if_splits)
  ultimately show ?thesis unfolding stored_prefix_def by (auto intro!: exI [of _ 0])
qed

lemma stored_prefix_step:
  assumes "sqlite3_step (insertable i x) (insert_row i (uuid_of h (s_users s) (fi_uid i)) x) (s_db s) = (True, db)"
    "stored_prefix h ps (s\<lparr>s_db := db\<rparr>) r s'"
  shows "stored_prefix h ((i, x) # ps) s r s'"
proof -
  from assms(2) obtain k where k: "k \<le> length ps" "r = 0 \<longleftrightarrow> k = length ps"
    "tables_of (s_db s') = insert_all h (s_users s) (take k ps) (tables_of db)"
    and rest: "s_users s' = s_users s" "r \<in> {0, -2}"
    "db_faults db = [] \<and> (\<forall>(j, x)\<in>set ps. insertable j x) \<longrightarrow> r = 0"
    "db_faults db = [] \<longrightarrow> db_faults (s_db s') = []"
    unfolding stored_prefix_def by auto
  have "db_faults (s_db s) = [] \<longrightarrow> db_faults db = []"
    using assms(1) by (auto simp: step_sound split: if_splits)
  moreover have "tables_of (s_db s') = insert_all h (s_users s) (take (Suc k) ((i, x) # ps)) (tables_of (s_db s))"
    using k step_cases [OF assms(1)] by simp
  ultimately show ?thesis
    using k rest unfolding stored_prefix_def by (auto intro!: exI [of _ "Suc k"])
qed

lemma stored_prefix_done: "stored_prefix h [] s 0 s"
  by (simp add: stored_prefix_def)

lemma set_loop_prefix:
  assumes "settled h (s_users s) (fi_uid i)" "\<forall>j\<in>set is. storable h (s_users s) j"
    "old_uid = fi_uid i \<Longrightarrow> uuid = uuid_of h (s_users s) (fi_uid i)" "ss \<noteq> []"
  shows "\<exists>r s'. set_loop h old_uid uuid (i # is) ss s = Inr (r, s')
    \<and> stored_prefix h (map (Pair i) ss @ flat is) s r s'"
  using assms
proof (induction "length (map (Pair i) ss @ flat is)" arbitrary: i "is" ss old_uid uuid s rule: less_induct)
  case less
  obtain x xs where ss: "ss = x # xs" using less.prems by (cases ss) auto
  let ?u = "uuid_of h (s_users s) (fi_uid i)"
  note iu = item_uuid_settled [OF less.prems(1,3)]
  obtain ok db where st: "sqlite3_step (insertable i x) (insert_row i ?u x) (s_db s) = (ok, db)"
    by (cases "sqlite3_step (insertable i x) (insert_row i ?u x) (s_db s)")
  let ?s = "s\<lparr>s_db := db\<rparr>"
  show ?case
  proof (cases "ok")
    case False
    then have "set_loop h old_uid uuid (i # is) ss s = Inr (-2, ?s)" using ss iu st by simp
    then show ?thesis using stored_prefix_fail st False ss by simp
  next
    case True
    have next_step: ?thesis
      if "set_loop h old_uid uuid (i # is) ss s = Inr (r, s')"
        "stored_prefix h (map (Pair i) xs @ flat is) ?s r s'" for r s'
      using that stored_prefix_step [of i x h s db] st True ss by auto
    consider "xs \<noteq> []" | "xs = []" "is = []" | j js where "xs = []" "is = j # js" by (cases "is") auto
    then show ?thesis
    proof cases
      case 1
      then obtain r s' where "set_loop h (fi_uid i) ?u (i # is) xs ?s = Inr (r, s')"
        "stored_prefix h (map (Pair i) xs @ flat is) ?s r s'"
        using less.hyps [of i xs "is" ?s "fi_uid i" ?u] less.prems ss by auto
      then show ?thesis using 1 ss iu st True by (intro next_step) (simp_all add: Let_def)
    next
      case 2
      then show ?thesis
        using ss iu st True stored_prefix_done by (intro next_step [of 0 ?s]) (simp_all add: flat_def)
    next
      case (3 j js)
      have "storable h (s_users s) j" using 3 less.prems by simp
      then obtain r s' where "set_loop h (fi_uid i) ?u (j # js) (fi_sample j) ?s = Inr (r, s')"
        "stored_prefix h (map (Pair j) (fi_sample j) @ flat js) ?s r s'"
        using less.hyps [of j "fi_sample j" js ?s "fi_uid i" ?u] less.prems ss 3
        by (auto simp: storable_def flat_Cons)
      then show ?thesis using 3 ss iu st True by (intro next_step) (simp_all add: Let_def flat_Cons)
    qed
  qed
qed

lemma set_feature_info_lemma:
  assumes "\<forall>i\<in>set infos. storable h (s_users s) i"
  shows "\<exists>r s' k. bio_sto_set_feature_info h handle infos s = Inr (r, s') \<and> k \<le> length (flat infos)
    \<and> tables_of (s_db s') = insert_all h (s_users s) (take k (flat infos)) (tables_of (s_db s))
    \<and> s_users s' = s_users s \<and> (r = 0 \<longrightarrow> k = length (flat infos)) \<and> r \<in> {0, -1, -2}
    \<and> (infos \<noteq> [] \<and> k = length (flat infos) \<longrightarrow> r = 0)
    \<and> (sound handle s \<and> (\<forall>(j, x)\<in>set (flat infos). insertable j x) \<longrightarrow> r = 0)
    \<and> (sound handle s \<longrightarrow> sound handle s')"
proof -
  obtain ok db where p: "sqlite3_prepare handle (has_uuid_column (tables_of (s_db s))) (s_db s) = (ok, db)"
    by (cases "sqlite3_prepare handle (has_uuid_column (tables_of (s_db s))) (s_db s)")
  note t = prepare_cases [OF p]
  have snd: "sound handle s \<longrightarrow> ok \<and> db = s_db s" using p by (auto simp: sound_def prepare_sound)
  consider "\<not> ok" | "ok" "infos = []" | i "is" where "ok" "infos = i # is" by (cases infos) auto
  then show ?thesis
  proof cases
    case 1
    then show ?thesis
      using p t snd flat_storable [OF assms]
      by (intro exI [of _ "-1"] exI [of _ "s\<lparr>s_db := db\<rparr>"] exI [of _ 0])
        (simp add: bio_sto_set_feature_info_def)
  next
    case 2
    then show ?thesis
      using p t snd by (intro exI [of _ 0] exI [of _ "s\<lparr>s_db := db\<rparr>"])
        (simp add: bio_sto_set_feature_info_def flat_def)
  next
    case (3 i "is")
    have "\<exists>r s'. set_loop h (-1) '''' (i # is) (fi_sample i) (s\<lparr>s_db := db\<rparr>) = Inr (r, s')
      \<and> stored_prefix h (map (Pair i) (fi_sample i) @ flat is) (s\<lparr>s_db := db\<rparr>) r s'"
      by (rule set_loop_prefix) (use assms 3 in \<open>auto simp: storable_def\<close>)
    then obtain r s' where run: "bio_sto_set_feature_info h handle infos s = Inr (r, s')"
      and out: "stored_prefix h (flat infos) (s\<lparr>s_db := db\<rparr>) r s'"
      using p 3 by (auto simp: bio_sto_set_feature_info_def flat_Cons)
    have "sound handle s \<longrightarrow> db_faults db = [] \<and> handle \<and> has_uuid_column (tables_of (s_db s))"
      using snd by (auto simp: sound_def)
    with out show ?thesis
      unfolding stored_prefix_def run using t by (auto simp: sound_def has_uuid_insert_all)
  qed
qed

text \<open>
  C9. Storing features inserts their samples one by one, in order, under the current UUID of
  their users: whatever call of the engine fails, the table ends up with the rows of a prefix
  of the samples, and nothing else changes. The answer 0 means that all are there; and when there is
  something to store, all are there only with the answer 0. With a working engine and no null string the
  answer is 0.
\<close>

theorem set_feature_info_prefix:
  assumes "\<forall>i\<in>set infos. storable h (s_users s) i"
  shows "\<exists>r s' k. bio_sto_set_feature_info h handle infos s = Inr (r, s') \<and> k \<le> length (flat infos)
    \<and> tables_of (s_db s') = insert_all h (s_users s) (take k (flat infos)) (tables_of (s_db s))
    \<and> s_users s' = s_users s \<and> (r = 0 \<longrightarrow> k = length (flat infos)) \<and> r \<in> {0, -1, -2}
    \<and> (infos \<noteq> [] \<and> k = length (flat infos) \<longrightarrow> r = 0)
    \<and> (sound handle s \<and> (\<forall>(j, x)\<in>set (flat infos). insertable j x) \<longrightarrow> r = 0)
    \<and> (sound handle s \<longrightarrow> sound handle s')"
  using assms by (rule set_feature_info_lemma)

definition one_feature :: feature_info where
  "one_feature = \<lparr>fi_uid = 1000, fi_biotype = 0, fi_driver = Some ''aes2501'', fi_index = 1,
     fi_index_name = Some ''thumb'',
     fi_sample = [bio_sto_new_feature_sample 0 (Some ''x''), bio_sto_new_feature_sample 1 (Some ''y'')]\<rparr>"

lemma one_feature_storable: "storable demo_host demo_users' one_feature"
  by (simp add: storable_def one_feature_def demo_settled)

theorem set_feature_info_prefix_witness:
  "\<exists>s'. bio_sto_set_feature_info demo_host True [one_feature] (demo_store demo_rows) = Inr (0, s')
    \<and> sound True s'"
  using set_feature_info_prefix [of "[one_feature]" demo_host "demo_store demo_rows" True]
    one_feature_storable
  by (auto simp: flat_def insertable_def one_feature_def bio_sto_new_feature_sample_def)

section \<open>Deleting and updating\<close>

lemma eigen_rows_upd [simp]: "eigen_rows (upd_rows f t) = (case eigen_info t of None \<Rightarrow> [] | Some e \<Rightarrow> f (t_rows e))"
  by (simp add: eigen_rows_def upd_rows_def split: option.split)

lemma eigen_rows_upd_has:
  "has_eigen_info t \<Longrightarrow> eigen_rows (upd_rows f t) = f (eigen_rows t)"
  by (auto simp: has_eigen_info_def eigen_rows_def upd_rows_def)

lemma get_nothing:
  assumes "filter (row_selected uid bt d a b) (eigen_rows (tables_of (s_db s))) = []"
  shows "\<exists>s'. bio_sto_get_feature_info h handle uid bt d a b s = Inr ([], s')"
proof -
  obtain ok db where p: "sqlite3_prepare handle (has_uuid_column (tables_of (s_db s))) (s_db s) = (ok, db)" by fastforce
  obtain rows db' where r: "sqlite3_rows (sort_key row_key (filter (row_selected uid bt d a b) (eigen_rows (tables_of db)))) db
      = (rows, db')" by fastforce
  have "rows = []" if ok
    using r assms prepare_cases [OF p] that by simp
  then show ?thesis
    using p r by (cases ok) (simp_all add: bio_sto_get_feature_info_def Let_def get_vars_init_def)
qed

text \<open>
  C25. Deleting answers 0 and removes exactly the rows whose index is in the range (without an upper bound for
  -1), of the user, the type and the driver that are given (-1, a null pointer or, for the driver, an empty
  name mean any); or it answers -2 and removes nothing. The users and the other tables are untouched, and on a
  working database the answer is 0. After the answer 0 a query with the same arguments, through whatever
  connection, finds nothing.
\<close>

theorem clean_feature_info_correct:
  "case bio_sto_clean_feature_info handle uid bt d a b s of (r, s') \<Rightarrow>
    (r = 0 \<or> r = -2)
    \<and> eigen_rows (tables_of (s_db s')) =
        (if r = 0
         then filter (\<lambda>x. \<not> ((if b = -1 then a \<le> r_index x else r_index x \<in> {a..b}) \<and> uid \<in> {-1, r_uid x}
                             \<and> bt \<in> {-1, r_biotype x} \<and> d \<in> {None, Some '''', Some (r_driver x)}))
                (eigen_rows (tables_of (s_db s)))
         else eigen_rows (tables_of (s_db s)))
    \<and> s_users s' = s_users s \<and> database_format (tables_of (s_db s')) = database_format (tables_of (s_db s))
    \<and> (sound handle s \<longrightarrow> r = 0)
    \<and> (r = 0 \<longrightarrow> (\<exists>s''. bio_sto_get_feature_info h handle' uid bt (if d = Some '''' then None else d) a b s' = Inr ([], s'')))"
proof -
  let ?drv = "if d = Some '''' then None else d"
  obtain ok db where p: "sqlite3_prepare handle (has_eigen_info (tables_of (s_db s))) (s_db s) = (ok, db)"
    by (cases "sqlite3_prepare handle (has_eigen_info (tables_of (s_db s))) (s_db s)")
  let ?del = "upd_rows (filter (\<lambda>x. \<not> row_selected uid bt ?drv a b x))"
  obtain ok' db' where st: "sqlite3_step True ?del db = (ok', db')"
    by (cases "sqlite3_step True ?del db")
  let ?s' = "s\<lparr>s_db := if ok then db' else db\<rparr>"
  have run: "bio_sto_clean_feature_info handle uid bt d a b s = (if ok \<and> ok' then 0 else -2, ?s')"
    using p st by (simp add: bio_sto_clean_feature_info_def Let_def)
  have t: "tables_of (if ok then db' else db) = (if ok \<and> ok' then ?del (tables_of (s_db s)) else tables_of (s_db s))"
    using prepare_cases [OF p] step_cases [OF st] by simp
  have snd: "sound handle s \<longrightarrow> ok \<and> ok'"
    using p st by (auto simp: sound_def prepare_sound step_sound has_uuid_column_def has_eigen_info_def
        split: option.splits)
  have rows: "eigen_rows (?del (tables_of (s_db s))) =
      filter (\<lambda>x. \<not> row_selected uid bt ?drv a b x) (eigen_rows (tables_of (s_db s)))"
    if "ok" using prepare_cases [OF p] that by (simp add: eigen_rows_upd_has del: eigen_rows_upd)
  have clause: "row_selected uid bt ?drv a b x \<longleftrightarrow> (if b = -1 then a \<le> r_index x else r_index x \<in> {a..b})
      \<and> uid \<in> {-1, r_uid x} \<and> bt \<in> {-1, r_biotype x} \<and> d \<in> {None, Some '''', Some (r_driver x)}" for x
    by (auto simp: row_selected_def)
  have none: "\<exists>s''. bio_sto_get_feature_info h handle' uid bt ?drv a b ?s' = Inr ([], s'')" if "ok \<and> ok'"
    by (rule get_nothing) (use that t rows in \<open>simp add: filter_filter del: eigen_rows_upd\<close>)
  show ?thesis
    unfolding run clause [symmetric] using t rows snd none
    by (simp add: upd_rows_def del: eigen_rows_upd)
qed

theorem clean_feature_info_correct_witness:
  "fst (bio_sto_clean_feature_info True 1000 0 None 0 (-1) (demo_store demo_rows)) = 0
   \<and> eigen_rows (tables_of (s_db (snd (bio_sto_clean_feature_info True 1000 0 None 0 (-1) (demo_store demo_rows))))) = []"
  using clean_feature_info_correct 
    [where handle = True and uid = 1000 and bt = 0 and d = None and a = 0 and b = "-1"
       and s = "demo_store demo_rows" and h = demo_host and handle' = True]
  by (simp add: demo_rows_def split: prod.splits)

text \<open>
  Updating by database id changes the five columns of the row with that id and no other
  row, keeps its UUID, data and place, and answers 0; or it answers -2 and changes nothing. A
  null name or driver is refused when there is such a row.
\<close>

theorem update_by_dbid_correct:
  "case bio_sto_update_feature_info_by_dbid handle dbid uid bt d idx name no s of (r, s') \<Rightarrow>
    (r = 0 \<or> r = -2) \<and> s_users s' = s_users s
    \<and> eigen_rows (tables_of (s_db s')) = (if r = 0
        then map (\<lambda>x. if r_id x = dbid
               then x\<lparr>r_uid := uid, r_biotype := bt, r_driver := the d, r_index := idx,
                      r_index_name := the name, r_sample_no := no\<rparr> else x) (eigen_rows (tables_of (s_db s)))
        else eigen_rows (tables_of (s_db s)))
    \<and> map r_uuid (eigen_rows (tables_of (s_db s'))) = map r_uuid (eigen_rows (tables_of (s_db s)))
    \<and> map r_data (eigen_rows (tables_of (s_db s'))) = map r_data (eigen_rows (tables_of (s_db s)))
    \<and> (r = 0 \<and> (d = None \<or> name = None) \<longrightarrow> dbid \<notin> r_id ` set (eigen_rows (tables_of (s_db s))))
    \<and> (sound handle s \<and> d \<noteq> None \<and> name \<noteq> None \<longrightarrow> r = 0)"
proof -
  obtain ok db where p: "sqlite3_prepare handle (has_eigen_info (tables_of (s_db s))) (s_db s) = (ok, db)"
    by (cases "sqlite3_prepare handle (has_eigen_info (tables_of (s_db s))) (s_db s)")
  note pc = prepare_cases [OF p]
  let ?f = "\<lambda>x. if r_id x = dbid
     then x\<lparr>r_uid := uid, r_biotype := bt, r_driver := the d, r_index := idx,
            r_index_name := the name, r_sample_no := no\<rparr> else x"
  let ?al = "d \<noteq> None \<and> name \<noteq> None \<or> \<not> list_ex (\<lambda>r. r_id r = dbid) (eigen_rows (tables_of db))"
  obtain ok' db' where st: "sqlite3_step ?al (upd_rows (map ?f)) db = (ok', db')"
    by (cases "sqlite3_step ?al (upd_rows (map ?f)) db")
  have run: "bio_sto_update_feature_info_by_dbid handle dbid uid bt d idx name no s =
      (if ok \<and> ok' then 0 else -2, s\<lparr>s_db := if ok then db' else db\<rparr>)"
    using p st by (simp add: bio_sto_update_feature_info_by_dbid_def Let_def)
  have t: "tables_of (if ok then db' else db) = (if ok \<and> ok' then upd_rows (map ?f) (tables_of (s_db s)) else tables_of (s_db s))"
    using pc step_cases [OF st] by simp
  have snd: "sound handle s \<and> d \<noteq> None \<and> name \<noteq> None \<longrightarrow> ok \<and> ok'"
    using p st by (auto simp: sound_def prepare_sound step_sound has_uuid_column_def has_eigen_info_def
        split: option.splits)
  have rows: "eigen_rows (upd_rows (map ?f) (tables_of (s_db s))) = map ?f (eigen_rows (tables_of (s_db s)))"
    if "ok" using pc that by (simp add: eigen_rows_upd_has del: eigen_rows_upd)
  have al: "ok' \<longrightarrow> ?al" using step_cases [OF st] by simp
  have cols: "map r_uuid (map ?f xs) = map r_uuid xs" "map r_data (map ?f xs) = map r_data xs" for xs
    by simp_all
  have refused: "ok \<and> ok' \<and> (d = None \<or> name = None) \<longrightarrow> dbid \<notin> r_id ` set (eigen_rows (tables_of (s_db s)))"
    using al pc by (auto simp: list_ex_iff)
  show ?thesis
    unfolding run using t rows snd refused
    by (cases ok; cases ok'; simp del: eigen_rows_upd map_map add: cols)
qed

theorem update_by_dbid_correct_witness:
  "fst (bio_sto_update_feature_info_by_dbid True 2 1000 0 (Some ''aes2501'') 1 (Some ''b'') 2 (demo_store demo_rows)) = 0
   \<and> map r_index_name (eigen_rows (tables_of (s_db (snd
        (bio_sto_update_feature_info_by_dbid True 2 1000 0 (Some ''aes2501'') 1 (Some ''b'') 2 (demo_store demo_rows))))))
     = [''thumb'', ''b'', ''thumb'']"
  using update_by_dbid_correct 
    [where handle = True and dbid = 2 and uid = 1000 and bt = 0 and d = "Some ''aes2501''"
       and idx = 1 and name = "Some ''b''" and no = 2 and s = "demo_store demo_rows"]
  by (simp add: demo_rows_def split: prod.splits)

section \<open>A stored feature is found again\<close>

fun numbered :: "int \<Rightarrow> feature_sample list \<Rightarrow> feature_sample list" where
  "numbered q [] = []"
| "numbered q (x # xs) = x\<lparr>sa_dbid := q + 1\<rparr> # numbered (q + 1) xs"

fun inserted_rows :: "feature_info \<Rightarrow> string \<Rightarrow> int \<Rightarrow> feature_sample list \<Rightarrow> eigen_row list" where
  "inserted_rows i u q [] = []"
| "inserted_rows i u q (x # xs) =
     \<lparr>r_id = q + 1, r_uid = fi_uid i, r_uuid = Some u, r_biotype = fi_biotype i,
      r_driver = the (fi_driver i), r_index = fi_index i, r_index_name = the (fi_index_name i),
      r_sample_no = sa_no x, r_data = the (sa_data x)\<rparr> # inserted_rows i u (q + 1) xs"

lemma insert_all_rows:
  assumes "eigen_info t = Some e"
  shows "eigen_info (insert_all h us (map (Pair i) xs) t) =
     Some (e\<lparr>t_rows := t_rows e @ inserted_rows i (uuid_of h us (fi_uid i)) (t_seq e) xs,
             t_seq := t_seq e + int (length xs)\<rparr>)"
  using assms
proof (induction xs arbitrary: t e)
  case (Cons x xs)
  let ?u = "uuid_of h us (fi_uid i)"
  have "eigen_info (insert_row i ?u x t) = Some (e\<lparr>t_rows := t_rows e @ inserted_rows i ?u (t_seq e) [x],
      t_seq := t_seq e + 1\<rparr>)"
    using Cons.prems by (simp add: insert_row_def)
  from Cons.IH [OF this] show ?case by (simp add: algebra_simps)
qed simp

lemma inserted_rows_fields:
  "r \<in> set (inserted_rows i u q xs) \<Longrightarrow>
     r_uid r = fi_uid i \<and> r_uuid r = Some u \<and> r_biotype r = fi_biotype i
     \<and> r_driver r = the (fi_driver i) \<and> r_index r = fi_index i \<and> r_index_name r = the (fi_index_name i)"
  by (induction xs arbitrary: q) auto

lemma inserted_rows_numbers: "r \<in> set (inserted_rows i u q xs) \<Longrightarrow> r_sample_no r \<in> sa_no ` set xs"
  by (induction xs arbitrary: q) auto

lemma inserted_rows_sorted:
  "sorted (map sa_no xs) \<Longrightarrow> sorted (map row_key (inserted_rows i u q xs))"
proof (induction xs arbitrary: q)
  case (Cons x xs)
  have "sa_no x \<le> r_sample_no r" if "r \<in> set (inserted_rows i u (q + 1) xs)" for r
    using inserted_rows_numbers [OF that] Cons.prems by auto
  then show ?case
    using Cons by (auto simp: row_key_def dest!: inserted_rows_fields)
qed simp

lemma inserted_samples:
  "\<forall>x\<in>set xs. sa_data x \<noteq> None \<Longrightarrow> map sample_of (inserted_rows i u q xs) = numbered q xs"
  by (induction xs arbitrary: q) (auto simp: sample_of_def)

lemma one_group:
  assumes "xs \<noteq> []" "\<forall>x\<in>set xs. sa_data x \<noteq> None" "fi_driver i \<noteq> None" "fi_index_name i \<noteq> None"
  shows "group_rows (inserted_rows i u q xs) = [i\<lparr>fi_sample := numbered q xs\<rparr>]"
proof -
  obtain r rs where r: "inserted_rows i u q xs = r # rs" using assms(1) by (cases xs) auto
  have f: "y \<in> set (r # rs) \<Longrightarrow> r_uid y = fi_uid i \<and> r_uuid y = Some u \<and> r_biotype y = fi_biotype i
     \<and> r_driver y = the (fi_driver i) \<and> r_index y = fi_index i \<and> r_index_name y = the (fi_index_name i)" for y
    using inserted_rows_fields [of y i u q xs] by (simp add: r)
  have "\<forall>y\<in>set rs. same_feature r y" using f by (simp add: same_feature_def)
  then have tw: "takeWhile (same_feature r) rs = rs" "dropWhile (same_feature r) rs = []"
    by (simp_all add: takeWhile_eq_all_conv)
  have "map sample_of (r # rs) = numbered q xs"
    using inserted_samples [OF assms(2), where i = i and u = u and q = q] by (simp add: r)
  then show ?thesis
    using f [of r] assms(3,4) by (auto simp: r tw info_of_def)
qed

text \<open>
  C20. Round trip: a feature stored in a working database that has no sample of the same user,
  type, driver and index is found again, and alone, by the query for them: the samples in the
  order of their numbers with the database ids they were given.
\<close>

theorem stored_feature_found:
  assumes "uuid_lib_ok h" "sound True s" "storable h (s_users s) i"
    "\<forall>x\<in>set (fi_sample i). insertable i x" "sorted (map sa_no (fi_sample i))"
    "0 \<le> fi_biotype i" "fi_index i \<noteq> -1" "eigen_info (tables_of (s_db s)) = Some e"
    "\<forall>r\<in>set (t_rows e). \<not> row_selected (fi_uid i) (fi_biotype i) (fi_driver i) (fi_index i) (fi_index i) r"
  shows "\<exists>s'. bio_sto_set_feature_info h True [i] s = Inr (0, s')
    \<and> bio_sto_get_feature_info h True (fi_uid i) (fi_biotype i) (fi_driver i) (fi_index i) (fi_index i) s'
      = Inr ([i\<lparr>fi_sample := numbered (t_seq e) (fi_sample i)\<rparr>], s')"
proof -
  let ?u = "uuid_of h (s_users s) (fi_uid i)"
  let ?rows = "inserted_rows i ?u (t_seq e) (fi_sample i)"
  let ?sel = "row_selected (fi_uid i) (fi_biotype i) (fi_driver i) (fi_index i) (fi_index i)"
  have flat: "flat [i] = map (Pair i) (fi_sample i)" by (simp add: flat_def)
  obtain s' where set: "bio_sto_set_feature_info h True [i] s = Inr (0, s')"
    and s': "tables_of (s_db s') = insert_all h (s_users s) (flat [i]) (tables_of (s_db s))"
      "s_users s' = s_users s" "sound True s'"
    using set_feature_info_lemma [of "[i]" h s True] assms(2-4) by (auto simp: flat)
  have e': "eigen_info (tables_of (s_db s')) = Some (e\<lparr>t_rows := t_rows e @ ?rows,
      t_seq := t_seq e + int (length (fi_sample i))\<rparr>)"
    unfolding s' flat by (rule insert_all_rows [OF assms(8)])
  have drv: "fi_driver i = Some (the (fi_driver i))" "fi_index_name i = Some (the (fi_index_name i))"
    using assms(3,4) by (cases "fi_sample i"; auto simp: storable_def insertable_def)+
  have "?sel r" if "r \<in> set ?rows" for r
    using inserted_rows_fields [OF that] drv by (simp add: row_selected_def)
  then have sel: "filter ?sel (eigen_rows (tables_of (s_db s'))) = ?rows"
    using assms(9) e' by (simp add: eigen_rows_def)
  have cur: "current h (s_users s) r" if "r \<in> set ?rows" for r
    using inserted_rows_fields [OF that] by (simp add: current_def)
  have q: "query_rows h (fi_uid i) (fi_biotype i) (fi_driver i) (fi_index i) (fi_index i) s' = ?rows"
    unfolding query_rows_def sel using cur s'
    by (simp add: sort_key_id_if_sorted inserted_rows_sorted assms(5))
  have good: "good_row h (s_users s) r" if "r \<in> set ?rows" for r
    using inserted_rows_fields [OF that] assms(3,6) by (simp add: good_row_def storable_def)
  have get: "bio_sto_get_feature_info h True (fi_uid i) (fi_biotype i) (fi_driver i) (fi_index i) (fi_index i) s'
      = Inr (group_rows ?rows, s')"
    unfolding q [symmetric]
  proof (rule get_feature_info_lemma [OF assms(1) s'(3)])
    show "\<forall>r\<in>set (eigen_rows (tables_of (s_db s'))). ?sel r \<longrightarrow> good_row h (s_users s') r"
    proof (intro ballI impI)
      fix r assume "r \<in> set (eigen_rows (tables_of (s_db s')))" "?sel r"
      then have "r \<in> set (filter ?sel (eigen_rows (tables_of (s_db s'))))" by simp
      then show "good_row h (s_users s') r" using good s'(2) by (simp add: sel)
    qed
    show "told_apart h (s_users s')
       (query_rows h (fi_uid i) (fi_biotype i) (fi_driver i) (fi_index i) (fi_index i) s')"
      unfolding q by (auto simp: told_apart_def dest!: inserted_rows_fields)
  qed
  have "group_rows ?rows = [i\<lparr>fi_sample := numbered (t_seq e) (fi_sample i)\<rparr>]"
    using one_group [where i = i and u = ?u and q = "t_seq e" and xs = "fi_sample i"] drv assms(3,4)
    by (auto simp: storable_def insertable_def)
  with set get show ?thesis by auto
qed

theorem stored_feature_found_witness:
  "\<exists>s'. bio_sto_get_feature_info demo_host True 1000 0 (Some ''aes2501'') 1 1 s'
      = Inr ([one_feature\<lparr>fi_sample := numbered 0 (fi_sample one_feature)\<rparr>], s')"
proof -
  have "eigen_info (tables_of (s_db (demo_store []))) = Some \<lparr>t_uuid_col = True, t_rows = [], t_seq = 0\<rparr>"
    by (simp add: demo_store_def tables_of_def)
  from stored_feature_found [OF demo_host_ok _ _ _ _ _ _ this, of one_feature]
  show ?thesis using one_feature_storable
    by (auto simp: one_feature_def insertable_def bio_sto_new_feature_sample_def)
qed

end
