(* ===== verification/Bio_Db_Upgrade.thy ===== *)
theory Bio_Db_Upgrade
  imports Storage_Update
begin

text \<open>
  The format of the database: \<open>bio_sto_check_and_upgrade_db_format\<close> and
  \<open>internal_upgrade_db_format_from_null\<close> of \<open>src/src/lib/biometric_storage.c\<close>, with their
  transaction, and the creation of the tables on the first connection.
\<close>

section \<open>Transactions\<close>

definition begin_transaction :: "database \<Rightarrow> database" where
  "begin_transaction db =
     (let (ok, db) = sql_call db
      in if ok \<and> db_saved db = None then db\<lparr>db_saved := Some (tables_of db)\<rparr> else db)"

definition rollback :: "database \<Rightarrow> database" where
  "rollback db =
     (let (ok, db) = sql_call db
      in if ok then (case db_saved db of
                       None \<Rightarrow> db
                     | Some t \<Rightarrow> db\<lparr>db_file := Some t, db_saved := None\<rparr>)
         else db)"

definition commit :: "database \<Rightarrow> database" where
  "commit db = (let (ok, db) = sql_call db in if ok then db\<lparr>db_saved := None\<rparr> else db)"

section \<open>Upgrading from format 0.0.0\<close>

definition rename_eigen_info :: "tables \<Rightarrow> tables" where
  "rename_eigen_info t = t\<lparr>eigen_info := None, eigen_info_version_0_0_0 := eigen_info t\<rparr>"

definition can_rename :: "tables \<Rightarrow> bool" where
  "can_rename t \<longleftrightarrow> eigen_info t \<noteq> None \<and> eigen_info_version_0_0_0 t = None"

text \<open>\<open>INSERT INTO EIGEN_INFO (...) SELECT ...\<close>: the \<open>UUID\<close> column is left null.\<close>

definition migrate_rows :: "tables \<Rightarrow> tables" where
  "migrate_rows t =
     (case eigen_info_version_0_0_0 t of
        None \<Rightarrow> t
      | Some old \<Rightarrow> t\<lparr>eigen_info := map_option (\<lambda>e.
          e\<lparr>t_rows := t_rows e @ map (\<lambda>r. r\<lparr>r_uuid := None\<rparr>) (t_rows old),
            t_seq := foldr (\<lambda>r m. max (r_id r) m) (t_rows old) (t_seq e)\<rparr>) (eigen_info t)\<rparr>)"

definition set_uuid :: "int \<Rightarrow> string \<Rightarrow> tables \<Rightarrow> tables" where
  "set_uuid uid uuid = upd_rows (map (\<lambda>r. if r_uid r = uid then r\<lparr>r_uuid := Some uuid\<rparr> else r))"

text \<open>\<open>SELECT UID ... GROUP BY UID order by UID\<close>.\<close>

definition distinct_uids :: "tables \<Rightarrow> int list" where
  "distinct_uids t = sort (remdups (map r_uid (eigen_rows t)))"

text \<open>
  The loop over the users: a step that fails ends it like the last row does; a failing update
  is an error.
\<close>

fun upgrade_uuids :: "host \<Rightarrow> int list \<Rightarrow> store \<Rightarrow> (int \<times> store) res" where
  "upgrade_uuids h [] s = Inr (0, s\<lparr>s_db := snd (sql_call (s_db s))\<rparr>)"
| "upgrade_uuids h (uid # uids) s =
     (let (ok, db) = sql_call (s_db s); s = s\<lparr>s_db := db\<rparr>
      in if \<not> ok then Inr (0, s)
         else bindR (internal_get_uuid_by_uid h uid (s_users s)) (\<lambda>(uuid, us).
                let (ok, db) = exec True (set_uuid uid uuid) (s_db s)
                in if \<not> ok then Inr (-1, \<lparr>s_db = db, s_users = us\<rparr>)
                   else upgrade_uuids h uids \<lparr>s_db = db, s_users = us\<rparr>))"

definition upgrade_failed :: "store \<Rightarrow> int \<times> store" where
  "upgrade_failed s = (-1, s\<lparr>s_db := rollback (s_db s)\<rparr>)"

definition internal_upgrade_db_format_from_null :: "host \<Rightarrow> store \<Rightarrow> (int \<times> store) res" where
  "internal_upgrade_db_format_from_null h s =
     (let db = begin_transaction (s_db s);
          (ok, db) = exec (can_rename (tables_of db)) rename_eigen_info db
      in if \<not> ok then Inr (upgrade_failed (s\<lparr>s_db := db\<rparr>))
         else let (ret, db) = internal_create_eigen_info_table db
         in if ret \<noteq> 0 then Inr (upgrade_failed (s\<lparr>s_db := db\<rparr>))
         else let (ok, db) = exec True migrate_rows db
         in if \<not> ok then Inr (upgrade_failed (s\<lparr>s_db := db\<rparr>))
         else let (ok, db) = sqlite3_prepare True True db
         in if \<not> ok then Inr (upgrade_failed (s\<lparr>s_db := db\<rparr>))
         else bindR (upgrade_uuids h (distinct_uids (tables_of db)) (s\<lparr>s_db := db\<rparr>)) (\<lambda>(ret, s).
              if ret < 0 then Inr (upgrade_failed s)
              else let (ret, db) = internal_create_datebase_info (s_db s)
                   in if ret < 0 then Inr (upgrade_failed (s\<lparr>s_db := db\<rparr>))
                      else Inr (0, s\<lparr>s_db := commit db\<rparr>)))"

text \<open>
  The version read: none when the table does not exist; (0, 0, 0) when it has no row or the
  step fails. The outer option is the failure of a call before that.
\<close>

definition read_format :: "bool \<Rightarrow> database \<Rightarrow> (int \<times> int \<times> int) option \<times> database" where
  "read_format handle db =
     (let (ok, db) = sqlite3_prepare handle True db
      in if \<not> ok then (None, db)
         else case database_format (tables_of db) of
                None \<Rightarrow> (Some (0, 0, 0), db)
              | Some fs \<Rightarrow>
                  let (ok, db) = sqlite3_prepare handle True db
                  in if \<not> ok then (None, db)
                     else let (ok, db) = sql_call db
                          in (Some (if ok \<and> fs \<noteq> [] then hd fs else (0, 0, 0)), db))"

definition bio_sto_check_and_upgrade_db_format :: "host \<Rightarrow> bool \<Rightarrow> store \<Rightarrow> (int \<times> store) res" where
  "bio_sto_check_and_upgrade_db_format h handle s =
     (let (v, db) = read_format handle (s_db s); s = s\<lparr>s_db := db\<rparr>
      in case v of
           None \<Rightarrow> Inr (-1, s)
         | Some (major, minor, func) \<Rightarrow>
             if major = 0 \<and> minor = 0 \<and> func = 0
             then bindR (internal_upgrade_db_format_from_null h s)
                    (\<lambda>(ret, s). Inr (if ret < 0 then -2 else 0, s))
             else if major = 1 \<and> minor = 1 \<and> 0 \<le> func then Inr (0, s)
             else Inr (-1, s))"

section \<open>All or nothing\<close>

text \<open>While the transaction is open, every statement leaves the saved content alone.\<close>

named_theorems saved_simps

lemma sql_call_saved [saved_simps]:
  "sql_call db = (ok, db') \<Longrightarrow> db_saved db' = db_saved db"
  by (auto split: list.splits)

lemma exec_saved [saved_simps]: "exec a f db = (ok, db') \<Longrightarrow> db_saved db' = db_saved db"
  unfolding exec_def by (drule step_cases) simp

lemma prepare_saved [saved_simps]: "sqlite3_prepare h w db = (ok, db') \<Longrightarrow> db_saved db' = db_saved db"
  by (drule prepare_cases) simp

lemma create_eigen_saved [saved_simps]:
  "internal_create_eigen_info_table db = (r, db') \<Longrightarrow> db_saved db' = db_saved db"
  by (auto simp: internal_create_eigen_info_table_def dest: saved_simps split: prod.splits)

lemma create_info_saved [saved_simps]:
  "internal_create_datebase_info db = (r, db') \<Longrightarrow> db_saved db' = db_saved db"
  by (auto simp: internal_create_datebase_info_def Let_def exec_def dest!: step_cases prepare_cases
      split: prod.splits if_splits)

lemma upgrade_uuids_saved:
  "upgrade_uuids h uids s = Inr (r, s') \<Longrightarrow> db_saved (s_db s') = db_saved (s_db s)"
proof (induction uids arbitrary: s)
  case Nil
  then show ?case by (auto split: list.splits)
next
  case (Cons u us)
  obtain ok db where c: "sql_call (s_db s) = (ok, db)" by (cases "sql_call (s_db s)")
  show ?case
  proof (cases ok)
    case False
    then show ?thesis using Cons.prems c sql_call_saved [OF c] by (auto simp del: sql_call.simps)
  next
    case True
    then obtain uuid us' where u: "internal_get_uuid_by_uid h u (s_users s) = Inr (uuid, us')"
      using Cons.prems c by (auto simp: bindR_eq_Inr simp del: sql_call.simps)
    obtain ok' db' where e: "exec True (set_uuid u uuid) db = (ok', db')"
      by (cases "exec True (set_uuid u uuid) db")
    have rest: "(if \<not> ok' then Inr (-1, \<lparr>s_db = db', s_users = us'\<rparr>)
        else upgrade_uuids h us \<lparr>s_db = db', s_users = us'\<rparr>) = Inr (r, s')"
      using Cons.prems c u e True by (simp del: sql_call.simps)
    then show ?thesis
      using Cons.IH [of "\<lparr>s_db = db', s_users = us'\<rparr>"] sql_call_saved [OF c] exec_saved [OF e]
      by (auto split: if_splits)
  qed
qed

text \<open>Giving up: rolled back now, or when the connection is closed.\<close>

definition restored :: "tables \<Rightarrow> store \<Rightarrow> bool" where
  "restored t s \<longleftrightarrow> db_file (s_db (bio_sto_disconnect_db s)) = Some t"

lemma rollback_restores:
  "db_saved (s_db s) = Some t \<Longrightarrow> upgrade_failed s = (r, s') \<Longrightarrow> restored t s'"
  by (auto simp: upgrade_failed_def rollback_def restored_def bio_sto_disconnect_db_def
      split: list.splits)

lemma begin_saved:
  "db_saved db = None \<Longrightarrow> db_faults db = [] \<or> \<not> hd (db_faults db) \<Longrightarrow> db_file db = Some t \<Longrightarrow>
   db_saved (begin_transaction db) = Some t"
  by (auto simp: begin_transaction_def tables_of_def split: list.splits)

lemma upgrade_error_lemma:
  assumes "db_saved (s_db s) = None" "db_faults (s_db s) = [] \<or> \<not> hd (db_faults (s_db s))"
    "db_file (s_db s) = Some t" "internal_upgrade_db_format_from_null h s = Inr (r, s')" "r \<noteq> 0"
  shows "r = -1 \<and> restored t s'"
proof -
  define db0 where "db0 = begin_transaction (s_db s)"
  have s0: "db_saved db0 = Some t" unfolding db0_def by (rule begin_saved [OF assms(1-3)])
  note run = assms(4) [unfolded internal_upgrade_db_format_from_null_def Let_def, folded db0_def]
  obtain ok1 db1 where e1: "exec (can_rename (tables_of db0)) rename_eigen_info db0 = (ok1, db1)"
    by (cases "exec (can_rename (tables_of db0)) rename_eigen_info db0")
  obtain r2 db2 where e2: "internal_create_eigen_info_table db1 = (r2, db2)"
    by (cases "internal_create_eigen_info_table db1")
  obtain ok3 db3 where e3: "exec True migrate_rows db2 = (ok3, db3)"
    by (cases "exec True migrate_rows db2")
  obtain ok4 db4 where e4: "sqlite3_prepare True True db3 = (ok4, db4)"
    by (cases "sqlite3_prepare True True db3")
  have s1: "db_saved db1 = Some t" using exec_saved [OF e1] s0 by simp
  have s2: "db_saved db2 = Some t" using create_eigen_saved [OF e2] s1 by simp
  have s3: "db_saved db3 = Some t" using exec_saved [OF e3] s2 by simp
  have s4: "db_saved db4 = Some t" using prepare_saved [OF e4] s3 by simp
  have fail: "r = -1 \<and> restored t s'"
    if "Inr (upgrade_failed x) = (Inr (r, s') :: (int \<times> store) res)" "db_saved (s_db x) = Some t" for x
    using that rollback_restores [of x t r s'] by (auto simp: upgrade_failed_def)
  show ?thesis
  proof (cases "ok1 \<and> r2 = 0 \<and> ok3 \<and> ok4")
    case False
    then show ?thesis
      using run e1 e2 e3 e4 s1 s2 s3 s4
      by (auto split: if_splits intro: fail [THEN conjunct1] fail [THEN conjunct2])
  next
    case True
    then obtain r5 s5 where e5: "upgrade_uuids h (distinct_uids (tables_of db4)) (s\<lparr>s_db := db4\<rparr>) = Inr (r5, s5)"
      using run e1 e2 e3 e4 by (auto simp: bindR_eq_Inr)
    have s5: "db_saved (s_db s5) = Some t" using upgrade_uuids_saved [OF e5] s4 by simp
    obtain r6 db6 where e6: "internal_create_datebase_info (s_db s5) = (r6, db6)"
      by (cases "internal_create_datebase_info (s_db s5)")
    have s6: "db_saved db6 = Some t" using create_info_saved [OF e6] s5 by simp
    show ?thesis
      using run True e1 e2 e3 e4 e5 e6 s5 s6 assms(5)
      by (auto split: if_splits intro: fail [THEN conjunct1] fail [THEN conjunct2])
  qed
qed

definition legacy_store :: "eigen_row list \<Rightarrow> bool list \<Rightarrow> store" where
  "legacy_store rs faults = \<lparr>s_db = \<lparr>db_file = Some (no_tables\<lparr>eigen_info :=
       Some \<lparr>t_uuid_col = False, t_rows = rs, t_seq = int (length rs)\<rparr>\<rparr>),
     db_saved = None, db_faults = faults\<rparr>, s_users = demo_users'\<rparr>"

text \<open>The \<open>BEGIN\<close> fails, and then the creation of the new table.\<close>

lemma begin_fails:
  "\<exists>s'. internal_upgrade_db_format_from_null demo_host
      (legacy_store [(demo_row 1 7 UUID_DEFAULT 1 0)\<lparr>r_uuid := None\<rparr>] [True, False, True]) = Inr (-1, s')
    \<and> (\<exists>t. restored t s' \<and> eigen_info t = None)"
  by (simp add: internal_upgrade_db_format_from_null_def legacy_store_def begin_transaction_def
      exec_def sqlite3_step_def can_rename_def tables_of_def no_tables_def rename_eigen_info_def
      upd_tables_def internal_create_eigen_info_table_def upgrade_failed_def rollback_def restored_def
      bio_sto_disconnect_db_def)

text \<open>
  C8. The upgrade is all or nothing as far as its errors go, if its \<open>BEGIN\<close> takes effect: when the function
  then answers an error, the database is what it was, at the latest when the connection is
  closed, whatever later calls of the engine failed (the \<open>ROLLBACK\<close> included). The condition is needed, because
  the answer to the \<open>BEGIN\<close> is not looked at: there is a database which a failing \<open>BEGIN\<close> and another failing
  call leave without its table of features.
\<close>

theorem upgrade_error_restores:
  assumes "db_saved (s_db s) = None" "db_faults (s_db s) = [] \<or> \<not> hd (db_faults (s_db s))"
    "db_file (s_db s) = Some t" "internal_upgrade_db_format_from_null h s = Inr (r, s')" "r \<noteq> 0"
  shows "r = -1 \<and> restored t s'
    \<and> (\<exists>s'. internal_upgrade_db_format_from_null demo_host
          (legacy_store [(demo_row 1 7 UUID_DEFAULT 1 0)\<lparr>r_uuid := None\<rparr>] [True, False, True]) = Inr (-1, s')
        \<and> (\<exists>t. restored t s' \<and> eigen_info t = None))"
  using upgrade_error_lemma [OF assms] begin_fails by blast

lemma legacy_upgrade_fails:
  "internal_upgrade_db_format_from_null demo_host
     (legacy_store [(demo_row 1 7 UUID_DEFAULT 1 0)\<lparr>r_uuid := None\<rparr>] [False, False, True, True])
   = Inr (-1, \<lparr>s_db = \<lparr>db_file = Some (no_tables\<lparr>eigen_info_version_0_0_0 :=
         Some \<lparr>t_uuid_col = False, t_rows = [(demo_row 1 7 UUID_DEFAULT 1 0)\<lparr>r_uuid := None\<rparr>], t_seq = 1\<rparr>\<rparr>),
       db_saved = db_file (s_db (legacy_store [(demo_row 1 7 UUID_DEFAULT 1 0)\<lparr>r_uuid := None\<rparr>] [])),
       db_faults = []\<rparr>, s_users = demo_users'\<rparr>)"
  by (simp add: internal_upgrade_db_format_from_null_def legacy_store_def begin_transaction_def
      exec_def sqlite3_step_def can_rename_def tables_of_def no_tables_def rename_eigen_info_def
      upd_tables_def internal_create_eigen_info_table_def upgrade_failed_def rollback_def)

theorem upgrade_error_restores_witness:
  "\<exists>s'. internal_upgrade_db_format_from_null demo_host
      (legacy_store [(demo_row 1 7 UUID_DEFAULT 1 0)\<lparr>r_uuid := None\<rparr>] [False, False, True, True]) = Inr (-1, s')
    \<and> restored (no_tables\<lparr>eigen_info := Some \<lparr>t_uuid_col = False,
        t_rows = [(demo_row 1 7 UUID_DEFAULT 1 0)\<lparr>r_uuid := None\<rparr>], t_seq = 1\<rparr>\<rparr>) s'"
  using upgrade_error_restores [OF _ _ _ legacy_upgrade_fails] legacy_upgrade_fails
  by (simp add: legacy_store_def)

section \<open>A successful upgrade\<close>

lemma exec_sound:
  "db_faults db = [] \<Longrightarrow> exec a f db = (if a then (True, upd_tables f db) else (False, db))"
  by (simp add: exec_def step_sound)

lemma upgrade_uuids_sound:
  assumes "db_faults (s_db s) = []" "\<forall>u\<in>set uids. settled h (s_users s) u"
  shows "upgrade_uuids h uids s =
    Inr (0, s\<lparr>s_db := foldl (\<lambda>db u. upd_tables (set_uuid u (uuid_of h (s_users s) u)) db) (s_db s) uids\<rparr>)"
  using assms by (induction uids arbitrary: s) (auto simp: exec_sound settled_def)

lemma set_uuid_rows:
  "eigen_info (set_uuid u x t) =
     map_option (\<lambda>e. e\<lparr>t_rows := map (\<lambda>r. if r_uid r = u then r\<lparr>r_uuid := Some x\<rparr> else r) (t_rows e)\<rparr>) (eigen_info t)"
  "eigen_info_version_0_0_0 (set_uuid u x t) = eigen_info_version_0_0_0 t"
  "database_format (set_uuid u x t) = database_format t"
  by (simp_all add: set_uuid_def upd_rows_def)

lemma foldl_set_uuid:
  defines "step \<equiv> \<lambda>f db u. upd_tables (set_uuid u (f u)) db"
  shows "db_saved (foldl (step f) db uids) = db_saved db \<and> db_faults (foldl (step f) db uids) = db_faults db
    \<and> eigen_info (tables_of (foldl (step f) db uids)) = map_option (\<lambda>e. e\<lparr>t_rows :=
        map (\<lambda>r. if r_uid r \<in> set uids then r\<lparr>r_uuid := Some (f (r_uid r))\<rparr> else r) (t_rows e)\<rparr>)
        (eigen_info (tables_of db))
    \<and> eigen_info_version_0_0_0 (tables_of (foldl (step f) db uids)) = eigen_info_version_0_0_0 (tables_of db)
    \<and> database_format (tables_of (foldl (step f) db uids)) = database_format (tables_of db)"
proof (induction uids arbitrary: db)
  case Nil
  show ?case by (cases "eigen_info (tables_of db)") simp_all
next
  case (Cons u us)
  show ?case
    using Cons.IH [of "step f db u"]
    by (cases "eigen_info (tables_of db)") (auto simp: step_def set_uuid_rows intro!: map_cong)
qed

lemma upd_tables_tables: "tables_of (upd_tables f db) = f (tables_of db)"
  by simp

lemma upd_tables_again: "upd_tables f (upd_tables g db) = upd_tables (\<lambda>_. f (g (tables_of db))) db"
  by (simp add: upd_tables_def tables_of_def)

lemma upd_tables_eqI: "f (tables_of db) = g (tables_of db) \<Longrightarrow> upd_tables f db = upd_tables g db"
  by (simp add: upd_tables_def)

lemma create_info_sound:
  assumes "db_faults db = []" "database_format (tables_of db) = None"
  shows "internal_create_datebase_info db =
    (0, upd_tables (\<lambda>t. t\<lparr>database_format := Some [(1, 1, 0)]\<rparr>) db)"
  using assms
  by (simp add: internal_create_datebase_info_def exec_sound prepare_sound step_sound)
     (simp add: upd_tables_again cong: upd_tables_eqI)

lemma tables_of_saved: "tables_of (db\<lparr>db_saved := t\<rparr>) = tables_of db"
  by (simp add: tables_of_def)

lemma max_id_fold: "foldr (\<lambda>r m. max (r_id r) m) rs (0::int) = foldr max (map r_id rs) 0"
  by (induction rs) simp_all

text \<open>
  C7. Upgrading a database of format 0.0.0 with a working engine gives every row the settled
  UUID of its user, keeps every other column and the order of the rows, keeps the old table
  as \<open>EIGEN_INFO_VERSION_0_0_0\<close>, records format 1.1.0 and closes the transaction; new keys go on
  after the largest one.
\<close>

theorem upgrade_success:
  assumes "db_faults (s_db s) = []" "db_saved (s_db s) = None"
    "eigen_info (tables_of (s_db s)) = Some old" "eigen_info_version_0_0_0 (tables_of (s_db s)) = None"
    "database_format (tables_of (s_db s)) = None"
    "\<forall>r\<in>set (t_rows old). settled h (s_users s) (r_uid r)"
  shows "\<exists>s'. bio_sto_check_and_upgrade_db_format h True s = Inr (0, s') \<and> s_users s' = s_users s
    \<and> db_saved (s_db s') = None \<and> db_faults (s_db s') = []
    \<and> tables_of (s_db s') =
       \<lparr>eigen_info = Some \<lparr>t_uuid_col = True,
           t_rows = map (\<lambda>r. r\<lparr>r_uuid := Some (uuid_of h (s_users s) (r_uid r))\<rparr>) (t_rows old),
           t_seq = foldr max (map r_id (t_rows old)) 0\<rparr>,
        eigen_info_version_0_0_0 = Some old, database_format = Some [(1, 1, 0)]\<rparr>"
proof -
  let ?us = "s_users s"
  let ?db4 = "upd_tables (\<lambda>_. \<lparr>eigen_info = Some \<lparr>t_uuid_col = True,
       t_rows = map (\<lambda>r. r\<lparr>r_uuid := None\<rparr>) (t_rows old), t_seq = foldr max (map r_id (t_rows old)) 0\<rparr>,
     eigen_info_version_0_0_0 = Some old, database_format = None\<rparr>)
     ((s_db s)\<lparr>db_saved := Some (tables_of (s_db s))\<rparr>)"
  let ?uids = "distinct_uids (tables_of ?db4)"
  have uids: "set ?uids = r_uid ` set (t_rows old)"
    by (simp add: distinct_uids_def eigen_rows_def image_image)
  let ?db5 = "foldl (\<lambda>db u. upd_tables (set_uuid u (uuid_of h ?us u)) db) ?db4 ?uids"
  note f = foldl_set_uuid [of "uuid_of h ?us" ?db4 ?uids]
  have loop: "upgrade_uuids h ?uids (s\<lparr>s_db := ?db4\<rparr>) = Inr (0, s\<lparr>s_db := ?db5\<rparr>)"
    using upgrade_uuids_sound [of "s\<lparr>s_db := ?db4\<rparr>" ?uids h] assms(1,6) uids by auto
  let ?db0 = "(s_db s)\<lparr>db_saved := Some (tables_of (s_db s))\<rparr>"
  have t0 [simp]: "tables_of ?db0 = tables_of (s_db s)" by (simp add: tables_of_def)
  have b: "begin_transaction (s_db s) = ?db0"
    using assms(1,2) by (simp add: begin_transaction_def)
  let ?create = "\<lambda>t. if eigen_info t = None
      then t\<lparr>eigen_info := Some \<lparr>t_uuid_col = True, t_rows = [], t_seq = 0\<rparr>\<rparr> else t"
  define db1 where "db1 = upd_tables rename_eigen_info ?db0"
  define db2 where "db2 = upd_tables ?create db1"
  have e1: "exec (can_rename (tables_of ?db0)) rename_eigen_info ?db0 = (True, db1)"
    using assms(1,3,4) by (simp add: exec_sound can_rename_def db1_def)
  have e2: "internal_create_eigen_info_table db1 = (0, db2)"
    using assms(1) by (simp add: internal_create_eigen_info_table_def exec_sound db1_def db2_def)
  have "upd_tables migrate_rows db2 = ?db4"
    using assms(3-5) unfolding upd_tables_tables upd_tables_again db1_def db2_def
    by (cases "tables_of (s_db s)")
       (simp add: tables_of_saved rename_eigen_info_def migrate_rows_def max_id_fold)
  then have e3: "exec True migrate_rows db2 = (True, ?db4)"
    using assms(1) by (simp add: exec_sound db1_def db2_def)
  have e4: "sqlite3_prepare True True ?db4 = (True, ?db4)"
    using assms(1) by (simp add: prepare_sound)
  have f5: "db_faults ?db5 = []" "db_saved ?db5 = Some (tables_of (s_db s))"
    using f assms(1) by simp_all
  have t5: "tables_of ?db5 = \<lparr>eigen_info = Some \<lparr>t_uuid_col = True,
           t_rows = map (\<lambda>r. r\<lparr>r_uuid := Some (uuid_of h ?us (r_uid r))\<rparr>) (t_rows old),
           t_seq = foldr max (map r_id (t_rows old)) 0\<rparr>,
        eigen_info_version_0_0_0 = Some old, database_format = None\<rparr>"
    using f uids by (intro tables.equality) (auto simp: comp_def)
  have e6: "internal_create_datebase_info ?db5 =
      (0, upd_tables (\<lambda>t. t\<lparr>database_format := Some [(1, 1, 0)]\<rparr>) ?db5)"
    by (rule create_info_sound) (use f5 t5 in simp_all)
  have run: "internal_upgrade_db_format_from_null h s =
      Inr (0, s\<lparr>s_db := (upd_tables (\<lambda>t. t\<lparr>database_format := Some [(1, 1, 0)]\<rparr>) ?db5)\<lparr>db_saved := None\<rparr>\<rparr>)"
    unfolding internal_upgrade_db_format_from_null_def Let_def b e1 e2 e3 e4 prod.case loop
    using e6 f5(1) by (simp add: e2 e3 e4 loop commit_def)
  have "bio_sto_check_and_upgrade_db_format h True s =
      bindR (internal_upgrade_db_format_from_null h s) (\<lambda>(ret, s). Inr (if ret < 0 then -2 else 0, s))"
    using assms(1,5) by (simp add: bio_sto_check_and_upgrade_db_format_def read_format_def prepare_sound)
  then show ?thesis
    using f5 t5 by (simp add: run tables_of_saved)
qed

definition legacy_row :: eigen_row where
  "legacy_row = (demo_row 1 7 UUID_DEFAULT 1 0)\<lparr>r_uuid := None\<rparr>"

theorem upgrade_success_witness:
  "\<exists>s'. bio_sto_check_and_upgrade_db_format demo_host True (legacy_store [legacy_row] []) = Inr (0, s')
    \<and> eigen_rows (tables_of (s_db s')) = [demo_row 1 7 UUID_DEFAULT 1 0]"
proof -
  have e: "eigen_info (tables_of (s_db (legacy_store [legacy_row] []))) =
      Some \<lparr>t_uuid_col = False, t_rows = [legacy_row], t_seq = 1\<rparr>"
    by (simp add: legacy_store_def tables_of_def)
  show ?thesis
    using upgrade_success [OF _ _ e, of demo_host] demo_settled_absent [of 7]
    by (auto simp: legacy_store_def tables_of_def no_tables_def legacy_row_def eigen_rows_def demo_row_def)
qed

text \<open>
  A failing step is not always an error. When the \<open>SELECT\<close> over the users fails the upgrade
  still commits and answers 0, and leaves rows without a UUID, on which the next query follows
  a null pointer. When the version row of a current database cannot be read, the database is
  taken for one of format 0.0.0 and the upgrade fails on it with -2.
\<close>

theorem failed_steps_taken_for_results:
  "(\<exists>s'. internal_upgrade_db_format_from_null demo_host
       (legacy_store [legacy_row] [False, False, False, False, False, True]) = Inr (0, s')
     \<and> eigen_rows (tables_of (s_db s')) = [legacy_row] \<and> db_saved (s_db s') = None
     \<and> bio_sto_get_feature_info demo_host True (-1) (-1) None 0 (-1) s' = Inl Null_deref)
   \<and> (\<exists>s'. bio_sto_check_and_upgrade_db_format demo_host True
       ((demo_store demo_rows)\<lparr>s_db := \<lparr>db_file = Some \<lparr>eigen_info = Some \<lparr>t_uuid_col = True,
            t_rows = demo_rows, t_seq = 3\<rparr>,
          eigen_info_version_0_0_0 = Some \<lparr>t_uuid_col = False, t_rows = [], t_seq = 0\<rparr>,
          database_format = Some [(1, 1, 0)]\<rparr>, db_saved = None, db_faults = [False, False, True]\<rparr>\<rparr>)
     = Inr (-2, s'))"
  (is "?A \<and> ?B")
proof
  show ?A
    by (simp add: internal_upgrade_db_format_from_null_def legacy_store_def begin_transaction_def
        exec_def sqlite3_step_def can_rename_def tables_of_def no_tables_def rename_eigen_info_def
        upd_tables_def internal_create_eigen_info_table_def migrate_rows_def sqlite3_prepare_def
        distinct_uids_def eigen_rows_def internal_create_datebase_info_def commit_def
        bio_sto_get_feature_info_def has_uuid_column_def row_selected_def get_row_def
        legacy_row_def demo_row_def Let_def)
  show ?B
    by (simp add: bio_sto_check_and_upgrade_db_format_def read_format_def sqlite3_prepare_def
        tables_of_def internal_upgrade_db_format_from_null_def begin_transaction_def exec_def
        sqlite3_step_def can_rename_def upgrade_failed_def rollback_def)
qed

lemma check_format_lemma:
  "db_faults (s_db s) = [] \<Longrightarrow>
     bio_sto_check_and_upgrade_db_format h False s = Inr (-1, s)
   \<and> (database_format (tables_of (s_db s)) = Some ((a, b, c) # fs) \<and> (a, b, c) \<noteq> (0, 0, 0) \<longrightarrow>
        bio_sto_check_and_upgrade_db_format h True s =
          Inr (if a = 1 \<and> b = 1 \<and> 0 \<le> c then 0 else -1, s))
   \<and> (database_format (tables_of (s_db s)) \<in> {None, Some []} \<longrightarrow>
        bio_sto_check_and_upgrade_db_format h True s =
          bindR (internal_upgrade_db_format_from_null h s) (\<lambda>(r, s). Inr (if r < 0 then -2 else 0, s)))"
  by (auto simp: bio_sto_check_and_upgrade_db_format_def read_format_def prepare_sound Let_def)

text \<open>
  The answers of the format check when no call fails: a null handle is refused; a database
  of format 1.1.x is accepted and any other numbered format refused, both without a change; no
  table or an empty one means an upgrade.
\<close>

theorem check_format_answers:
  "db_faults (s_db s) = [] \<Longrightarrow>
     bio_sto_check_and_upgrade_db_format h False s = Inr (-1, s)
   \<and> (database_format (tables_of (s_db s)) = Some ((a, b, c) # fs) \<and> (a, b, c) \<noteq> (0, 0, 0) \<longrightarrow>
        bio_sto_check_and_upgrade_db_format h True s =
          Inr (if a = 1 \<and> b = 1 \<and> 0 \<le> c then 0 else -1, s))
   \<and> (database_format (tables_of (s_db s)) \<in> {None, Some []} \<longrightarrow>
        bio_sto_check_and_upgrade_db_format h True s =
          bindR (internal_upgrade_db_format_from_null h s) (\<lambda>(r, s). Inr (if r < 0 then -2 else 0, s)))"
  by (rule check_format_lemma)

theorem check_format_answers_witness:
  "bio_sto_check_and_upgrade_db_format demo_host False (demo_store demo_rows) = Inr (-1, demo_store demo_rows)"
  using check_format_answers [of "demo_store demo_rows" demo_host] by (simp add: demo_store_def)

section \<open>The first connection\<close>

definition fresh_store :: "bool list \<Rightarrow> store" where
  "fresh_store faults = \<lparr>s_db = \<lparr>db_file = None, db_saved = None, db_faults = faults\<rparr>,
     s_users = \<lparr>u_fs = \<lparr>fs_dirs = [''/var'', ''/var/lib'', ''/var/lib/biometric-auth''],
       fs_files = (\<lambda>_. None), fs_denied = []\<rparr>, u_gen = 0\<rparr>\<rparr>"

lemma open_sound:
  "db_faults (s_db s) = [] \<Longrightarrow> path_exists (u_fs (s_users s)) DB_DIR \<Longrightarrow>
   sqlite3_open s = (True, s\<lparr>s_db := upd_tables (\<lambda>t. t) (s_db s)\<rparr>)"
  by (simp add: sqlite3_open_def)

text \<open>
  The first connection to a database that does not exist creates it in the current format:
  when the directory is there and the engine works, the result is a handle on two tables ready
  for use, and later connections only open the file. But the tables are created only together
  with the file: when that fails, the file stays, every later connection succeeds, and every
  attempt to store a feature then answers -1.
\<close>

theorem connect_creates_tables:
  assumes "db_file (s_db s) = None" "db_saved (s_db s) = None" "db_faults (s_db s) = []"
    "path_exists (u_fs (s_users s)) DB_DIR"
  shows "\<exists>s'. bio_sto_connect_db s = Inr (True, s') \<and> sound True s' \<and> s_users s' = s_users s
      \<and> tables_of (s_db s') = \<lparr>eigen_info = Some \<lparr>t_uuid_col = True, t_rows = [], t_seq = 0\<rparr>,
           eigen_info_version_0_0_0 = None, database_format = Some [(1, 1, 0)]\<rparr>
      \<and> bio_sto_check_and_upgrade_db_format h True s' = Inr (0, s')
      \<and> bio_sto_connect_db s' = Inr (True, s')
    \<and> (\<exists>s''. bio_sto_connect_db (fresh_store [False, False, True]) = Inr (False, s'')
        \<and> (\<exists>s3. bio_sto_connect_db s'' = Inr (True, s3)
           \<and> (\<forall>h infos. \<exists>s4. bio_sto_set_feature_info h True infos s3 = Inr (-1, s4))))"
  (is "\<exists>s'. ?conn s' \<and> ?snd s' \<and> ?us s' \<and> ?tab s' \<and> ?chk s' \<and> ?again s' \<and> ?bad")
proof -
  have bad: ?bad
    by (simp add: bio_sto_connect_db_def fresh_store_def create_db_dir_def path_exists_def is_dir_def
        DB_DIR_def norm_path_def sqlite3_open_def upd_tables_def tables_of_def no_tables_def
        bio_sto_create_table_def internal_create_eigen_info_table_def exec_def sqlite3_step_def
        bio_sto_disconnect_db_def bio_sto_set_feature_info_def sqlite3_prepare_def
        has_uuid_column_def Let_def)
  let ?t = "\<lparr>eigen_info = Some \<lparr>t_uuid_col = True, t_rows = [], t_seq = 0\<rparr>,
     eigen_info_version_0_0_0 = None, database_format = Some [(1, 1, 0)]\<rparr>"
  let ?s' = "s\<lparr>s_db := (s_db s)\<lparr>db_file := Some ?t\<rparr>\<rparr>"
  have conn: "?conn ?s'"
    using assms
    by (simp add: bio_sto_connect_db_def create_db_dir_def open_sound bio_sto_create_table_def
        internal_create_eigen_info_table_def internal_create_datebase_info_def exec_sound
        prepare_sound step_sound upd_tables_def tables_of_def no_tables_def Let_def)
  have rest: "?snd ?s'" "?us ?s'" "?tab ?s'" "?again ?s'"
    using assms
    by (simp_all add: sound_def has_uuid_column_def tables_of_def bio_sto_connect_db_def open_sound
        upd_tables_def Let_def)
  have "?chk ?s'"
    using check_format_lemma [of ?s' h 1 1 0 "[]"] assms(3) rest(3) by simp
  then show ?thesis using conn rest bad by blast
qed

theorem connect_creates_tables_witness:
  "\<exists>s'. bio_sto_connect_db (fresh_store []) = Inr (True, s') \<and> sound True s'"
proof -
  have "db_file (s_db (fresh_store [])) = None" "db_saved (s_db (fresh_store [])) = None"
    "db_faults (s_db (fresh_store [])) = []" "path_exists (u_fs (s_users (fresh_store []))) DB_DIR"
    by (simp_all add: fresh_store_def path_exists_def is_dir_def DB_DIR_def norm_path_def)
  from connect_creates_tables [OF this, of demo_host] show ?thesis by blast
qed

end
