(* ===== verification/Feature_Print.thy ===== *)
theory Feature_Print
  imports Bio_Storage Template_Codec
begin

text \<open>
  The table of features (\<open>print_feature_info\<close> of \<open>src/src/lib/biometric_storage.c\<close>), which the drivers and the
  framework print after every query and before every store. It is formatted in buffers of fixed size whatever the
  level of messages, so that it can fault although nothing is shown.
\<close>

section \<open>Formatting\<close>

text \<open>\<open>%d\<close>, and \<open>%s\<close> of a pointer that may be null.\<close>

fun digits :: "nat \<Rightarrow> string" where
  "digits n = (if n < 10 then [char_of (48 + n)] else digits (n div 10) @ [char_of (48 + n mod 10)])"

definition show_int :: "int \<Rightarrow> string" where
  "show_int i = (if i < 0 then CHR ''-'' # digits (nat (- i)) else digits (nat i))"

definition text_of :: "string option \<Rightarrow> string" where
  "text_of s = (case s of None \<Rightarrow> ''(null)'' | Some s \<Rightarrow> s)"

section \<open>The table of features\<close>

text \<open>\<open>%0nd\<close>: the sign, then zeros up to the width.\<close>

definition zero_padded :: "nat \<Rightarrow> int \<Rightarrow> string" where
  "zero_padded width i =
     (let ds = digits (nat \<bar>i\<bar>); sign = (if i < 0 then ''-'' else '''')
      in sign @ replicate (width - length sign - length ds) CHR ''0'' @ ds)"

declare digits.simps [simp del]

abbreviation (input) SL :: nat where "SL \<equiv> 1024"

text \<open>
  The variables of the loop: what the last line had, and the widths of its four columns. A column
  that does not change is blank.
\<close>

record print_vars =
  olduid :: int
  oldbiotype :: int
  olddriver :: "string option"
  oldidx :: int
  ustr_l :: nat
  bstr_l :: nat
  dstr_l :: nat
  istr_l :: nat

definition print_start :: print_vars where
  "print_start = \<lparr>olduid = -1, oldbiotype = -1, olddriver = None, oldidx = -1, ustr_l = 0, bstr_l = 0, dstr_l = 0, istr_l = 0\<rparr>"

text \<open>Formatting into a buffer of \<open>SL\<close> bytes, and the width of what is there.\<close>

definition fill_column :: "string \<Rightarrow> (string \<times> nat) res" where
  "fill_column s = bindR (fits (length s + 1) SL) (\<lambda>_. bindR (internal_utf8_str_width s) (\<lambda>l. Inr (s, l)))"

definition blank_column :: "nat \<Rightarrow> string res" where
  "blank_column l = bindR (fits (l + 1) SL) (\<lambda>_. Inr (replicate l CHR '' ''))"

text \<open>
  The four columns of a row. A new value starts the columns to its right anew.
\<close>

definition user_column :: "print_vars \<Rightarrow> feature_info \<Rightarrow> (string \<times> print_vars) res" where
  "user_column v info =
     (if olduid v \<noteq> fi_uid info
      then bindR (fill_column (''U:'' @ zero_padded 4 (fi_uid info) @ '',''))
             (\<lambda>(s, l). Inr (s, v\<lparr>olduid := fi_uid info, oldbiotype := -1, olddriver := None, oldidx := -1, ustr_l := l\<rparr>))
      else bindR (blank_column (ustr_l v)) (\<lambda>s. Inr (s, v)))"

definition type_column :: "print_vars \<Rightarrow> feature_info \<Rightarrow> (string \<times> print_vars) res" where
  "type_column v info =
     (if oldbiotype v \<noteq> fi_biotype info
      then bindR (fill_column (''B:'' @ zero_padded 2 (fi_biotype info) @ '',''))
             (\<lambda>(s, l). Inr (s, v\<lparr>oldbiotype := fi_biotype info, olddriver := None, oldidx := -1, bstr_l := l\<rparr>))
      else bindR (blank_column (bstr_l v)) (\<lambda>s. Inr (s, v)))"

text \<open>\<open>strcmp\<close> with the driver of before, when there is one.\<close>

definition new_driver :: "print_vars \<Rightarrow> feature_info \<Rightarrow> bool res" where
  "new_driver v info =
     (case olddriver v of
        None \<Rightarrow> Inr True
      | Some old \<Rightarrow> (case fi_driver info of None \<Rightarrow> Inl Null_deref | Some driver \<Rightarrow> Inr (old \<noteq> driver)))"

definition driver_column :: "print_vars \<Rightarrow> feature_info \<Rightarrow> (string \<times> print_vars) res" where
  "driver_column v info =
     bindR (new_driver v info) (\<lambda>new.
     if new
     then bindR (fill_column (''D:'' @ text_of (fi_driver info) @ '',''))
            (\<lambda>(s, l). Inr (s, v\<lparr>olddriver := fi_driver info, oldidx := -1, dstr_l := l\<rparr>))
     else bindR (blank_column (dstr_l v)) (\<lambda>s. Inr (s, v)))"

definition index_column :: "print_vars \<Rightarrow> feature_info \<Rightarrow> (string \<times> print_vars) res" where
  "index_column v info =
     (if oldidx v \<noteq> fi_index info
      then bindR (fill_column (''I:'' @ zero_padded 4 (fi_index info) @ ''('' @ text_of (fi_index_name info) @ ''),''))
             (\<lambda>(s, l). Inr (s, v\<lparr>oldidx := fi_index info, istr_l := l\<rparr>))
      else bindR (blank_column (istr_l v)) (\<lambda>s. Inr (s, v)))"

definition print_row :: "print_vars \<Rightarrow> feature_info \<Rightarrow> feature_sample option \<Rightarrow> (string \<times> print_vars) res" where
  "print_row v info sample =
     bindR (user_column v info) (\<lambda>(ustr, v).
     bindR (type_column v info) (\<lambda>(bstr, v).
     bindR (driver_column v info) (\<lambda>(dstr, v).
     bindR (index_column v info) (\<lambda>(istr, v).
     case sample of
       None \<Rightarrow> Inl Null_deref
     | Some s \<Rightarrow>
         Inr (ustr @ '' '' @ bstr @ '' '' @ dstr @ '' '' @ istr @ '' S:'' @ zero_padded 4 (sa_no s)
            @ '', D:'' @ take 16 (text_of (sa_data s)) @ [CHR 0x0A], v)))))"

text \<open>The rows in the order of the loop; of a feature without samples, a null pointer.\<close>

definition print_rows_of :: "feature_info list \<Rightarrow> (feature_info \<times> feature_sample option) list" where
  "print_rows_of infos =
     concat (map (\<lambda>i. if fi_sample i = [] then [(i, None)] else map (\<lambda>s. (i, Some s)) (fi_sample i)) infos)"

fun print_loop :: "print_vars \<Rightarrow> (feature_info \<times> feature_sample option) list \<Rightarrow> string list res" where
  "print_loop v [] = Inr []"
| "print_loop v ((i, s) # rows) =
     bindR (print_row v i s) (\<lambda>(line, v). bindR (print_loop v rows) (\<lambda>lines. Inr (line # lines)))"

definition print_feature_info :: "feature_info list \<Rightarrow> string list res" where
  "print_feature_info info_list = print_loop print_start (print_rows_of info_list)"

section \<open>What the table needs\<close>

lemma fits_cases: "fits n cap = Inl Out_of_bounds \<or> fits n cap = Inr ()"
  by (simp add: fits_def)

text \<open>A width never fails in another way than by a character that is cut, and is at most the length.\<close>

lemma str_width_cases:
  "internal_utf8_str_width s = Inl Out_of_bounds \<or> (\<exists>l \<le> length s. internal_utf8_str_width s = Inr l)"
proof (induction s rule: internal_utf8_str_width.induct)
  case (1 s)
  show ?case
  proof (cases "s = [] \<or> length s < internal_utf8_char_len (hd s)")
    case True
    then show ?thesis
      using internal_utf8_str_width.simps [of s] by (auto simp: Let_def)
  next
    case False
    let ?l = "internal_utf8_char_len (hd s)"
    have pos: "0 < ?l" by (simp add: internal_utf8_char_len_def Let_def)
    consider "internal_utf8_str_width (drop ?l s) = Inl Out_of_bounds"
      | l where "l \<le> length (drop ?l s)" "internal_utf8_str_width (drop ?l s) = Inr l"
      using "1.IH" [OF _ refl] False by blast
    then show ?thesis
      by cases (use False pos in \<open>auto simp: internal_utf8_str_width.simps [of s] Let_def\<close>)
  qed
qed

lemma fill_column_cases:
  "fill_column s = Inl Out_of_bounds \<or> (\<exists>l < SL. fill_column s = Inr (s, l))"
  using str_width_cases [of s] by (auto simp: fill_column_def fits_def)

lemma fill_column_long: "SL \<le> length s \<Longrightarrow> fill_column s = Inl Out_of_bounds"
  by (simp add: fill_column_def fits_def)

lemma blank_column_fits: "l < SL \<Longrightarrow> blank_column l = Inr (replicate l CHR '' '')"
  by (simp add: blank_column_def fits_def)

lemma length_zero_padded: "n \<le> length (zero_padded n i)"
  by (simp add: zero_padded_def Let_def)

definition widths_fit :: "print_vars \<Rightarrow> bool" where
  "widths_fit v \<longleftrightarrow> ustr_l v < SL \<and> bstr_l v < SL \<and> dstr_l v < SL \<and> istr_l v < SL"

text \<open>The texts of the columns of a feature fit their buffers and are made of whole characters.\<close>

definition column_fits :: "string \<Rightarrow> bool" where
  "column_fits s \<longleftrightarrow> (case fill_column s of Inl _ \<Rightarrow> False | Inr _ \<Rightarrow> True)"

definition printable :: "feature_info \<Rightarrow> bool" where
  "printable i \<longleftrightarrow>
     column_fits (''U:'' @ zero_padded 4 (fi_uid i) @ '','')
     \<and> column_fits (''B:'' @ zero_padded 2 (fi_biotype i) @ '','')
     \<and> fi_driver i \<noteq> None \<and> column_fits (''D:'' @ text_of (fi_driver i) @ '','')
     \<and> column_fits (''I:'' @ zero_padded 4 (fi_index i) @ ''('' @ text_of (fi_index_name i) @ ''),'')"

lemma column_fitsE:
  assumes "column_fits s"
  obtains l where "l < SL" "fill_column s = Inr (s, l)"
  using assms fill_column_cases [of s] by (auto simp: column_fits_def)

lemma columns_return:
  assumes "printable i" "widths_fit v"
  shows "\<exists>s v'. user_column v i = Inr (s, v') \<and> widths_fit v'"
    and "\<exists>s v'. type_column v i = Inr (s, v') \<and> widths_fit v'"
    and "\<exists>s v'. driver_column v i = Inr (s, v') \<and> widths_fit v'"
    and "\<exists>s v'. index_column v i = Inr (s, v') \<and> widths_fit v'"
proof -
  note p = assms(1) [unfolded printable_def] and w = assms(2) [unfolded widths_fit_def]
  show "\<exists>s v'. user_column v i = Inr (s, v') \<and> widths_fit v'"
    using p w by (cases "olduid v = fi_uid i")
      (auto simp: user_column_def blank_column_fits widths_fit_def elim!: column_fitsE)
  show "\<exists>s v'. type_column v i = Inr (s, v') \<and> widths_fit v'"
    using p w by (cases "oldbiotype v = fi_biotype i")
      (auto simp: type_column_def blank_column_fits widths_fit_def elim!: column_fitsE)
  obtain n where "new_driver v i = Inr n"
    using p by (cases "olddriver v") (auto simp: new_driver_def)
  then show "\<exists>s v'. driver_column v i = Inr (s, v') \<and> widths_fit v'"
    using p w by (cases n)
      (auto simp: driver_column_def blank_column_fits widths_fit_def elim!: column_fitsE)
  show "\<exists>s v'. index_column v i = Inr (s, v') \<and> widths_fit v'"
    using p w by (cases "oldidx v = fi_index i")
      (auto simp: index_column_def blank_column_fits widths_fit_def elim!: column_fitsE)
qed

lemma print_row_returns:
  assumes "printable i" "widths_fit v"
  shows "\<exists>line v'. print_row v i (Some s) = Inr (line, v') \<and> widths_fit v'"
proof -
  obtain u v1 where 1: "user_column v i = Inr (u, v1)" "widths_fit v1" using columns_return(1) [OF assms] by blast
  obtain b v2 where 2: "type_column v1 i = Inr (b, v2)" "widths_fit v2" using columns_return(2) [OF assms(1) 1(2)] by blast
  obtain d v3 where 3: "driver_column v2 i = Inr (d, v3)" "widths_fit v3" using columns_return(3) [OF assms(1) 2(2)] by blast
  obtain x v4 where 4: "index_column v3 i = Inr (x, v4)" "widths_fit v4" using columns_return(4) [OF assms(1) 3(2)] by blast
  show ?thesis by (simp add: print_row_def 1 2 3 4)
qed

lemma print_loop_returns:
  assumes "list_all (\<lambda>(i, s). printable i \<and> s \<noteq> None) rows" "widths_fit v"
  shows "\<exists>lines. print_loop v rows = Inr lines \<and> length lines = length rows"
  using assms
proof (induction rows arbitrary: v)
  case (Cons r rows)
  obtain i s where r: "r = (i, Some s)" "printable i" using Cons.prems(1) by auto
  obtain line v' where *: "print_row v i (Some s) = Inr (line, v')" "widths_fit v'"
    using print_row_returns [OF r(2) Cons.prems(2)] by blast
  then show ?case using Cons.IH [OF _ *(2)] Cons.prems(1) r(1) by auto
qed simp

text \<open>A table of features that have samples and fit their columns is printed, one line for each sample.\<close>

lemma print_feature_info_lines:
  assumes "list_all (\<lambda>i. printable i \<and> fi_sample i \<noteq> []) infos"
  shows "\<exists>lines. print_feature_info infos = Inr lines
     \<and> length lines = sum_list (map (length \<circ> fi_sample) infos)"
proof -
  have "list_all (\<lambda>(i, s). printable i \<and> s \<noteq> None) (print_rows_of infos)"
    using assms by (induction infos) (auto simp: print_rows_of_def list_all_iff)
  moreover have "length (print_rows_of infos) = sum_list (map (length \<circ> fi_sample) infos)"
    using assms by (induction infos) (auto simp: print_rows_of_def)
  ultimately show ?thesis
    using print_loop_returns [of "print_rows_of infos" print_start]
    by (auto simp: print_feature_info_def print_start_def widths_fit_def)
qed

lemma columns_before:
  assumes "olduid v = -1 \<and> oldbiotype v = -1 \<and> olddriver v = None \<and> oldidx v = -1 \<and> widths_fit v"
  shows "user_column v i = Inl Out_of_bounds \<or> (\<exists>s v'. user_column v i = Inr (s, v')
      \<and> oldbiotype v' = -1 \<and> olddriver v' = None \<and> oldidx v' = -1 \<and> widths_fit v')"
  using assms fill_column_cases [of "''U:'' @ zero_padded 4 (fi_uid i) @ '',''"]
  by (auto simp: user_column_def blank_column_fits widths_fit_def)

text \<open>A name of 1015 bytes or more does not fit, when its feature comes first.\<close>

lemma long_name_faults:
  assumes "fi_index_name i = Some name" "1015 \<le> length name" "fi_index i \<noteq> -1"
  shows "print_feature_info (i # infos) = Inl Out_of_bounds"
proof -
  have row: "print_row print_start i s = Inl Out_of_bounds" for s
  proof -
    consider "user_column print_start i = Inl Out_of_bounds"
      | u v1 where "user_column print_start i = Inr (u, v1)"
          "oldbiotype v1 = -1 \<and> olddriver v1 = None \<and> oldidx v1 = -1 \<and> widths_fit v1"
      using columns_before [of print_start i] by (auto simp: print_start_def widths_fit_def)
    then show ?thesis
    proof cases
      case 1
      then show ?thesis by (simp add: print_row_def)
    next
      case (2 u v1)
      consider "type_column v1 i = Inl Out_of_bounds"
        | b v2 where "type_column v1 i = Inr (b, v2)" "olddriver v2 = None \<and> oldidx v2 = -1"
        using 2(2) fill_column_cases [of "''B:'' @ zero_padded 2 (fi_biotype i) @ '',''"]
        by (cases "oldbiotype v1 = fi_biotype i")
          (auto simp: type_column_def blank_column_fits widths_fit_def)
      then show ?thesis
      proof cases
        case 1
        then show ?thesis by (simp add: print_row_def 2)
      next
        case (2 b v2)
        consider "driver_column v2 i = Inl Out_of_bounds"
          | d v3 where "driver_column v2 i = Inr (d, v3)" "oldidx v3 = -1"
          using 2(2) fill_column_cases [of "''D:'' @ text_of (fi_driver i) @ '',''"]
          by (auto simp: driver_column_def new_driver_def)
        then show ?thesis
        proof cases
          case 1
          then show ?thesis using 2 \<open>user_column _ _ = _\<close> by (simp add: print_row_def)
        next
          case (2 d v3)
          have "index_column v3 i = Inl Out_of_bounds"
            using 2(2) assms length_zero_padded [of 4 "fi_index i"]
            by (auto simp: index_column_def text_of_def fill_column_long)
          then show ?thesis
            using 2(1) \<open>user_column _ _ = _\<close> \<open>type_column _ _ = _\<close> by (simp add: print_row_def)
        qed
      qed
    qed
  qed
  show ?thesis
    by (cases "fi_sample i") (simp_all add: print_feature_info_def print_rows_of_def row)
qed

section \<open>Plain texts\<close>

text \<open>Texts of ASCII characters; with room for the rest of their column, they fit.\<close>

definition ascii :: "string \<Rightarrow> bool" where
  "ascii s \<longleftrightarrow> list_all (\<lambda>c. (of_char c :: nat) < 128) s"

lemma ascii_append [simp]: "ascii (s @ t) \<longleftrightarrow> ascii s \<and> ascii t"
  by (simp add: ascii_def)

lemma ascii_width: "ascii s \<Longrightarrow> internal_utf8_str_width s = Inr (length s)"
proof (induction s)
  case (Cons c s)
  have "\<not> bit (of_char c :: nat) 7" using Cons.prems by (simp add: ascii_def bit_iff_odd)
  then have "internal_utf8_char_len c = 1" by (simp add: internal_utf8_char_len_def)
  then show ?case using Cons by (simp add: internal_utf8_str_width.simps [of "c # s"] ascii_def Let_def)
qed (simp add: internal_utf8_str_width.simps)

lemma ascii_fits: "ascii s \<Longrightarrow> length s < SL \<Longrightarrow> column_fits s"
  by (simp add: column_fits_def fill_column_def ascii_width fits_def)

lemma ascii_digits: "ascii (digits n)"
proof (induction n rule: digits.induct)
  case (1 n)
  have "(48 + n mod 10) mod 256 = 48 + n mod 10" by (rule mod_less) (use mod_less_divisor [of 10 n] in linarith)
  then show ?case using 1 by (auto simp: digits.simps [of n] ascii_def)
qed

lemma digits_length: "n < 10 ^ k \<Longrightarrow> 0 < k \<Longrightarrow> length (digits n) \<le> k"
proof (induction k arbitrary: n)
  case (Suc k)
  show ?case
  proof (cases "n < 10")
    case False
    then have k: "0 < k" using Suc.prems(1) by (cases k) simp_all
    have "n div 10 < 10 ^ k" using Suc.prems(1) by (simp add: div_less_iff_less_mult mult.commute)
    then show ?thesis using Suc.IH [OF _ k] False by (simp add: digits.simps [of n])
  qed (simp add: digits.simps [of n])
qed simp

lemma ascii_padded: "ascii (zero_padded w i)"
  using ascii_digits [of "nat \<bar>i\<bar>"] by (simp add: zero_padded_def Let_def) (simp add: ascii_def list_all_iff)

lemma padded_length:
  assumes "\<bar>i\<bar> < 2 ^ 32" "w \<le> 11"
  shows "length (zero_padded w i) \<le> 11"
proof -
  have "length (digits (nat \<bar>i\<bar>)) \<le> 10" by (rule digits_length) (use assms(1) in auto)
  then show ?thesis using assms(2) by (auto simp: zero_padded_def Let_def)
qed

lemma plain_printable:
  assumes "fi_driver i = Some d" "fi_index_name i = Some name" "ascii d" "length d \<le> 1000" "ascii name" "length name \<le> 1000"
    "\<bar>fi_uid i\<bar> < 2 ^ 32" "\<bar>fi_biotype i\<bar> < 2 ^ 32" "\<bar>fi_index i\<bar> < 2 ^ 32"
  shows "printable i"
proof -
  have l: "length (zero_padded w k) \<le> 11" if "\<bar>k\<bar> < 2 ^ 32" "w \<le> 11" for w k using padded_length that .
  note l1 = l [OF assms(7), of 4] l [OF assms(8), of 2] l [OF assms(9), of 4]
  show ?thesis
    unfolding printable_def
    using assms(1-6) ascii_padded l1
    by (intro conjI ascii_fits) (simp_all add: text_of_def ascii_def)
qed

end
