(* ===== verification/Bio_Index.thy ===== *)
theory Bio_Index
  imports Bio_Status Storage_Update Feature_Print
begin

text \<open>
  The helpers the framework offers to drivers (\<open>src/src/lib/biometric_common.c\<close>): allocation of
  feature indexes, sample numbers and driver ids, the default feature listing and renaming,
  and the USB scan.
\<close>

section \<open>The world of a framework operation\<close>

text \<open>
  The device and its listeners, the feature store, the global \<open>bio_ops_timeout_ms\<close>, and the
  private data of the driver.
\<close>

record 'p bio_world = world +
  w_store :: store
  bio_ops_timeout_ms :: int
  w_priv :: 'p

datatype OpsActions = ACTION_START | ACTION_STOP

definition set_store :: "store \<Rightarrow> 'p bio_world \<Rightarrow> 'p bio_world" where
  "set_store s w = w\<lparr>w_store := s\<rparr>"

text \<open>Connect, query for the device's type and driver, disconnect.\<close>

definition query_db ::
    "host \<Rightarrow> int \<Rightarrow> int \<Rightarrow> int \<Rightarrow> 'p bio_world \<Rightarrow> (feature_info list \<times> 'p bio_world) res" where
  "query_db h uid idx_start idx_end w =
     bindR (bio_sto_connect_db (w_store w)) (\<lambda>(db, s).
     bindR (bio_sto_get_feature_info h db uid (biotype_code (biotype (bioinfo (w_dev w))))
              (device_name (w_dev w)) idx_start idx_end s) (\<lambda>(l, s).
     Inr (l, set_store (bio_sto_disconnect_db s) w)))"

text \<open>The same where what was found is printed, before the connection is closed.\<close>

definition query_printed ::
    "host \<Rightarrow> int \<Rightarrow> int \<Rightarrow> int \<Rightarrow> 'p bio_world \<Rightarrow> (feature_info list \<times> 'p bio_world) res" where
  "query_printed h uid idx_start idx_end w =
     bindR (query_db h uid idx_start idx_end w) (\<lambda>(l, w). bindR (print_feature_info l) (\<lambda>_. Inr (l, w)))"

section \<open>Allocating a feature index\<close>

fun empty_index_loop :: "int list \<Rightarrow> int \<Rightarrow> int \<Rightarrow> int \<Rightarrow> (int \<times> int \<times> int) res" where
  "empty_index_loop [] cmp empty_index cur = Inr (cmp, empty_index, cur)"
| "empty_index_loop (i # is) cmp empty_index cur =
     bindR (c_int (i - empty_index)) (\<lambda>cmp.
     bindR (if cmp = 0 then c_int (empty_index + 1) else Inr empty_index) (\<lambda>empty_index.
       if 0 < cmp then Inr (cmp, empty_index, i) else empty_index_loop is cmp empty_index i))"

definition empty_index_of :: "int list \<Rightarrow> int \<Rightarrow> int \<Rightarrow> int res" where
  "empty_index_of indexes start end' =
     bindR (empty_index_loop indexes 0 start (-1)) (\<lambda>(cmp, empty_index, cur).
       if 0 < cmp then Inr empty_index
       else if end' = -1 then c_int (cur + 1)
       else Inr (-1))"

definition bio_common_get_empty_index ::
    "host \<Rightarrow> int \<Rightarrow> int \<Rightarrow> int \<Rightarrow> 'p bio_world \<Rightarrow> (int \<times> 'p bio_world) res" where
  "bio_common_get_empty_index h uid start end' w =
     (let end' = (if end' \<noteq> -1 \<and> end' < start then start else end')
      in bindR (query_db h uid start end' w) (\<lambda>(l, w).
         bindR (empty_index_of (map fi_index l) start end') (\<lambda>i. Inr (i, w))))"

section \<open>Allocating a sample number\<close>

definition wr :: "'a list \<Rightarrow> int \<Rightarrow> 'a \<Rightarrow> 'a list res" where
  "wr xs i x = (if 0 \<le> i \<and> i < int (length xs) then Inr (xs[nat i := x]) else Inl Out_of_bounds)"

fun mark_samples :: "int list \<Rightarrow> byte list \<Rightarrow> byte list res" where
  "mark_samples [] flags = Inr flags"
| "mark_samples (no # nos) flags = bindR (wr flags no 1) (mark_samples nos)"

text \<open>The search from \<open>start\<close>: \<open>n\<close> is the number of positions left up to \<open>end\<close>.\<close>

fun find_unused :: "byte list \<Rightarrow> int \<Rightarrow> nat \<Rightarrow> int res" where
  "find_unused flags i 0 = Inr (-1)"
| "find_unused flags i (Suc n) =
     bindR (if i < 0 then Inl Out_of_bounds else rd flags (nat i)) (\<lambda>f.
       if f = 0 then Inr i else find_unused flags (i + 1) n)"

definition empty_sample_no_of :: "int list \<Rightarrow> int \<Rightarrow> int \<Rightarrow> int res" where
  "empty_sample_no_of nos start end' =
     (let end' = (if end' < start then start else end');
          sample_flag = map (\<lambda>i. if start \<le> i then 0 else 1) [0..end']
      in bindR (mark_samples nos sample_flag) (\<lambda>sample_flag.
           find_unused sample_flag start (nat (end' - start + 1))))"

definition bio_common_get_empty_sample_no ::
    "host \<Rightarrow> int \<Rightarrow> int \<Rightarrow> 'p bio_world \<Rightarrow> (int \<times> 'p bio_world) res" where
  "bio_common_get_empty_sample_no h start end' w =
     bindR (query_db h (-1) 0 (-1) w) (\<lambda>(l, w).
     bindR (empty_sample_no_of (map sa_no (concat (map fi_sample l))) start end') (\<lambda>no. Inr (no, w)))"

section \<open>Allocating a driver id\<close>

definition BIO_DRVID_DYNAMIC_START :: int where "BIO_DRVID_DYNAMIC_START = 100"
definition BIO_DRVID_DYNAMIC_MAX :: int where "BIO_DRVID_DYNAMIC_MAX = 1023"

fun mark_ids :: "int list \<Rightarrow> byte list \<Rightarrow> byte list res" where
  "mark_ids [] flags = Inr flags"
| "mark_ids (d # ds) flags =
     (if BIO_DRVID_DYNAMIC_START \<le> d
      then bindR (wr flags (d - BIO_DRVID_DYNAMIC_START) 1) (mark_ids ds) else mark_ids ds flags)"

text \<open>The position at which the search stops: the first one not marked, or the length.\<close>

definition first_unmarked :: "byte list \<Rightarrow> nat" where
  "first_unmarked flags = length (takeWhile (\<lambda>f. f = 1) flags)"

definition bio_get_empty_driver_id :: "bio_dev list \<Rightarrow> int res" where
  "bio_get_empty_driver_id drv_list =
     bindR (mark_ids (map driver_id drv_list)
              (replicate (nat (BIO_DRVID_DYNAMIC_MAX - BIO_DRVID_DYNAMIC_START + 1)) 0)) (\<lambda>flags.
     let i = first_unmarked flags
     in bindR (rd flags i) (\<lambda>f. if f \<noteq> 1 then Inr (int i + BIO_DRVID_DYNAMIC_START) else Inr (-1)))"

section \<open>The default listing and renaming\<close>

definition bio_common_get_feature_list ::
    "host \<Rightarrow> OpsActions \<Rightarrow> int \<Rightarrow> int \<Rightarrow> int \<Rightarrow> 'p bio_world \<Rightarrow> (feature_info list \<times> 'p bio_world) res" where
  "bio_common_get_feature_list h action uid idx_start idx_end w =
     (if enable (w_dev w) = 0 then Inr ([], bio_set_dev_status DEVS_COMM_DISABLE w)
      else if action = ACTION_START
      then bindR (query_printed h uid idx_start idx_end (bio_set_dev_status DEVS_GET_FLIST_DOING w))
             (\<lambda>(l, w). Inr (l, bio_set_notify_abs_mid NOTIFY_GET_FLIST_SUCCESS
                (bio_set_ops_abs_result OPS_GET_FLIST_SUCCESS (bio_set_dev_status DEVS_COMM_IDLE w))))
      else Inr ([], bio_set_notify_abs_mid NOTIFY_GET_FLIST_STOP_BY_USER
             (bio_set_ops_abs_result OPS_GET_FLIST_STOP_BY_USER (bio_set_dev_status DEVS_COMM_IDLE w))))"

text \<open>The loop over the samples of the features found: how many, and how many updated.\<close>

fun rename_samples ::
    "bool \<Rightarrow> int \<Rightarrow> int \<Rightarrow> string option \<Rightarrow> int \<Rightarrow> string option \<Rightarrow> feature_sample list \<Rightarrow>
     store \<Rightarrow> (int \<times> int) \<times> store" where
  "rename_samples db uid bt drv idx new_name [] s = ((0, 0), s)"
| "rename_samples db uid bt drv idx new_name (x # xs) s =
     (let (ret, s) = bio_sto_update_feature_info_by_dbid db (sa_dbid x) uid bt drv idx new_name (sa_no x) s;
          ((count, update_num), s) = rename_samples db uid bt drv idx new_name xs s
      in ((count + 1, update_num + (if ret = 0 then 1 else 0)), s))"

definition bio_comm_feature_rename_by_db ::
    "host \<Rightarrow> int \<Rightarrow> int \<Rightarrow> string option \<Rightarrow> 'p bio_world \<Rightarrow> (int \<times> 'p bio_world) res" where
  "bio_comm_feature_rename_by_db h uid idx new_name w =
     (let bt = biotype_code (biotype (bioinfo (w_dev w))); drv = device_name (w_dev w)
      in bindR (bio_sto_connect_db (w_store w)) (\<lambda>(db, s).
         bindR (bio_sto_get_feature_info h db uid bt drv idx idx s) (\<lambda>(l, s).
         let samples = concat (map fi_sample (filter (\<lambda>i. fi_uid i = uid \<and> fi_index i = idx) l));
             ((count, update_num), s) = rename_samples db uid bt drv idx new_name samples s
         in Inr (count - update_num, set_store (bio_sto_disconnect_db s) w))))"

section \<open>The USB scan\<close>

text \<open>
  What \<open>libusb\<close> answers: the result of its initialisation, the list of devices (\<open>None\<close>: an
  error), each with its descriptor (\<open>None\<close>: it cannot be read). An id table stands for its
  entries before the terminating zero; no entry before it has vendor 0.
\<close>

record usb_bus =
  usb_init :: int
  usb_devices :: "(16 word \<times> 16 word) option list option"

definition table_matches :: "usb_id list \<Rightarrow> 16 word \<times> 16 word \<Rightarrow> bool" where
  "table_matches table = (\<lambda>(v, p). list_ex (\<lambda>e. idVendor e = v \<and> idProduct e = p)
     (takeWhile (\<lambda>e. idVendor e \<noteq> 0) table))"

fun count_usb :: "usb_id list option \<Rightarrow> (16 word \<times> 16 word) option list \<Rightarrow> int res" where
  "count_usb table [] = Inr 0"
| "count_usb table (None # ds) = Inr 0"
| "count_usb table (Some d # ds) =
     (case table of
        None \<Rightarrow> Inl Null_deref
      | Some t \<Rightarrow> bindR (count_usb table ds) (\<lambda>n. Inr (n + (if table_matches t d then 1 else 0))))"

definition bio_common_detect_usb_device :: "usb_bus \<Rightarrow> bio_dev \<Rightarrow> int res" where
  "bio_common_detect_usb_device bus dev =
     (if usb_init bus < 0 then Inr (-1)
      else case usb_devices bus of
             None \<Rightarrow> Inr (-1)
           | Some ds \<Rightarrow> count_usb (id_table dev) ds)"

section \<open>The search for an index\<close>

text \<open>How many of the indexes continue from \<open>lo\<close> without a gap.\<close>

fun run_length :: "int list \<Rightarrow> int \<Rightarrow> nat" where
  "run_length [] lo = 0"
| "run_length (i # is) lo = (if i = lo then Suc (run_length is (lo + 1)) else 0)"

lemma run_length_le: "run_length is lo \<le> length is"
  by (induction "is" arbitrary: lo) auto

lemma run_length_used: "lo \<le> j \<Longrightarrow> j < lo + int (run_length is lo) \<Longrightarrow> j \<in> set is"
proof (induction "is" arbitrary: lo)
  case (Cons i "is")
  then show ?case using Cons.IH [of "lo + 1"] by (cases "j = lo") (auto split: if_splits)
qed simp

lemma run_length_free:
  "sorted_wrt (<) is \<Longrightarrow> \<forall>i\<in>set is. lo \<le> i \<Longrightarrow> lo + int (run_length is lo) \<notin> set is"
proof (induction "is" arbitrary: lo)
  case (Cons i "is")
  show ?case
  proof (cases "i = lo")
    case True
    have "lo + 1 + int (run_length is (lo + 1)) \<notin> set is"
      using Cons.prems True by (intro Cons.IH) auto
    then show ?thesis using True by (auto simp: algebra_simps)
  next
    case False
    then show ?thesis using Cons.prems by auto
  qed
qed simp

lemma run_length_ge:
  "sorted_wrt (<) is \<Longrightarrow> \<forall>i\<in>set is. lo \<le> i \<and> i < m \<Longrightarrow> run_length is lo < length is \<Longrightarrow>
   lo + int (run_length is lo) \<le> is ! run_length is lo"
proof (induction "is" arbitrary: lo)
  case (Cons i "is")
  show ?case
  proof (cases "i = lo")
    case True
    have "lo + 1 + int (run_length is (lo + 1)) \<le> is ! run_length is (lo + 1)"
      using Cons.prems True by (intro Cons.IH) auto
    then show ?thesis using True by (simp add: algebra_simps)
  qed (use Cons.prems in auto)
qed simp

lemma empty_index_loop_run:
  assumes "sorted_wrt (<) is" "\<forall>i\<in>set is. lo \<le> i \<and> i < INT_MAX" "0 \<le> lo"
  shows "empty_index_loop is 0 lo cur =
    (if run_length is lo < length is
     then Inr (is ! run_length is lo - (lo + int (run_length is lo)), lo + int (run_length is lo),
               is ! run_length is lo)
     else Inr (0, lo + int (run_length is lo), if is = [] then cur else lo + int (length is) - 1))"
  using assms
proof (induction "is" arbitrary: lo cur)
  case (Cons i "is")
  have c: "c_int (i - lo) = Inr (i - lo)"
    using Cons.prems by (intro c_int_in) (auto simp: INT_MIN_def INT_MAX_def)
  show ?case
  proof (cases "i = lo")
    case True
    have e: "c_int (lo + 1) = Inr (lo + 1)"
      using Cons.prems True by (intro c_int_in) (auto simp: INT_MIN_def INT_MAX_def)
    have ih: "empty_index_loop is 0 (lo + 1) i =
      (if run_length is (lo + 1) < length is
       then Inr (is ! run_length is (lo + 1) - (lo + 1 + int (run_length is (lo + 1))),
                 lo + 1 + int (run_length is (lo + 1)), is ! run_length is (lo + 1))
       else Inr (0, lo + 1 + int (run_length is (lo + 1)), if is = [] then i else lo + 1 + int (length is) - 1))"
      using Cons.prems True by (intro Cons.IH) auto
    have s: "empty_index_loop (i # is) 0 lo cur = empty_index_loop is 0 (lo + 1) i"
      using c e True by simp
    show ?thesis unfolding s ih using True by (cases "is") (auto simp: algebra_simps)
  next
    case False
    then show ?thesis using c Cons.prems by auto
  qed
qed simp

lemma empty_index_of_run:
  assumes "sorted_wrt (<) is" "\<forall>i\<in>set is. lo \<le> i \<and> i < INT_MAX" "0 \<le> lo" "lo \<le> INT_MAX"
  shows "empty_index_of is lo end' =
    Inr (if run_length is lo < length is then lo + int (run_length is lo)
         else if end' = -1 then (if is = [] then 0 else lo + int (run_length is lo)) else -1)"
proof -
  let ?k = "run_length is lo"
  note run = empty_index_loop_run [OF assms(1-3), of "-1"]
  show ?thesis
  proof (cases "?k < length is")
    case True
    have "lo + int ?k \<noteq> is ! ?k"
      using run_length_free [OF assms(1), of lo] assms(2) nth_mem [OF True] by metis
    moreover have "lo + int ?k \<le> is ! ?k"
      using assms(1,2) True by (rule run_length_ge)
    ultimately show ?thesis using run True by (simp add: empty_index_of_def)
  next
    case False
    then have k: "?k = length is" using run_length_le [of "is" lo] by simp
    have "is \<noteq> [] \<Longrightarrow> lo + int ?k - 1 \<in> set is"
      using k by (intro run_length_used [of lo]) (cases "is"; simp)+
    then have "is \<noteq> [] \<Longrightarrow> c_int (lo + int ?k) = Inr (lo + int ?k)"
      using assms(2,3) by (intro c_int_in) (force simp: INT_MIN_def INT_MAX_def)+
    then show ?thesis
      using run False k by (auto simp: empty_index_of_def c_int_def INT_MIN_def INT_MAX_def)
  qed
qed

text \<open>The least index not in use.\<close>

definition least_free :: "int list \<Rightarrow> int \<Rightarrow> bool" where
  "least_free is i \<longleftrightarrow> 0 \<le> i \<and> i \<notin> set is \<and> (\<forall>j. 0 \<le> j \<and> j < i \<longrightarrow> j \<in> set is)"

lemma empty_index_least:
  assumes "sorted_wrt (<) is" "\<forall>i\<in>set is. 0 \<le> i \<and> i < INT_MAX"
  obtains i where "empty_index_of is 0 (-1) = Inr i" "least_free is i" "i \<le> int (length is)"
proof
  let ?i = "int (run_length is 0)"
  show "empty_index_of is 0 (-1) = Inr ?i"
    using empty_index_of_run [OF assms, of "-1"] run_length_le [of "is" 0]
    by (auto simp: INT_MAX_def)
  show "least_free is ?i"
    using run_length_free [OF assms(1), of 0] run_length_used [of 0 _ "is"] assms(2)
    by (auto simp: least_free_def)
  show "?i \<le> int (length is)" using run_length_le by simp
qed

text \<open>
  The index search in general, on the increasing indexes of a query from \<open>start\<close>: it answers
  the least free index when a larger one is in use; otherwise, when the range is not bounded,
  the one after the last, but 0 and not \<open>start\<close> when there is none; and when the range is bounded
  it answers -1 even if the range is not full.
\<close>

theorem empty_index_answers:
  assumes "sorted_wrt (<) is" "\<forall>i\<in>set is. start \<le> i \<and> i < INT_MAX" "0 \<le> start" "start \<le> INT_MAX"
  shows "\<exists>free. start \<le> free \<and> free \<notin> set is \<and> (\<forall>j. start \<le> j \<and> j < free \<longrightarrow> j \<in> set is)
    \<and> empty_index_of is start end' = Inr (
        if \<exists>i\<in>set is. free < i then free
        else if end' = -1 then (if is = [] then 0 else free) else -1)"
proof -
  let ?k = "run_length is start" and ?f = "start + int (run_length is start)"
  have free: "?f \<notin> set is" using run_length_free [OF assms(1)] assms(2) by auto
  have used: "start \<le> j \<and> j < ?f \<longrightarrow> j \<in> set is" for j using run_length_used [of start j] by auto
  have "(\<exists>i\<in>set is. ?f < i) \<longleftrightarrow> ?k < length is"
  proof
    assume "\<exists>i\<in>set is. ?f < i"
    then obtain i where i: "i \<in> set is" "?f < i" by auto
    show "?k < length is"
    proof (rule ccontr)
      assume "\<not> ?k < length is"
      then have k: "?k = length is" using run_length_le [of "is" start] by simp
      have "{start..<?f} \<union> {i} \<subseteq> set is" using used i by auto
      then have "card ({start..<?f} \<union> {i}) \<le> card (set is)" by (intro card_mono) auto
      also have "\<dots> \<le> ?k" unfolding k by (rule card_length)
      finally show False using i by simp
    qed
  next
    assume k: "?k < length is"
    have "?f \<le> is ! ?k" using assms(1,2) k by (rule run_length_ge)
    moreover have "is ! ?k \<in> set is" using k by simp
    ultimately show "\<exists>i\<in>set is. ?f < i" using free by (metis order_le_less)
  qed
  then show ?thesis
    using empty_index_of_run [OF assms, of end'] free used by (intro exI [of _ ?f]) auto
qed

theorem empty_index_answers_witness:
  "empty_index_of [0, 1] 0 5 = Inr (-1) \<and> empty_index_of [] 3 (-1) = Inr 0"
proof -
  have "\<exists>free. 0 \<le> free \<and> free \<notin> set [0, 1] \<and> (\<forall>j. 0 \<le> j \<and> j < free \<longrightarrow> j \<in> set [0, 1::int])
    \<and> empty_index_of [0, 1] 0 5 = Inr (if \<exists>i\<in>set [0, 1]. free < i then free
        else if 5 = (-1::int) then (if [0, 1::int] = [] then 0 else free) else -1)"
    by (rule empty_index_answers) (simp_all add: INT_MAX_def)
  moreover have "\<exists>free. 3 \<le> free \<and> free \<notin> set [] \<and> (\<forall>j. 3 \<le> j \<and> j < free \<longrightarrow> j \<in> set ([] :: int list))
    \<and> empty_index_of [] 3 (-1) = Inr (if \<exists>i\<in>set []. free < i then free
        else if (-1) = (-1::int) then (if ([] :: int list) = [] then 0 else free) else -1)"
    by (rule empty_index_answers) (simp_all add: INT_MAX_def)
  ultimately show ?thesis by (auto split: if_splits)
qed

section \<open>Allocation over a store of indexes\<close>

text \<open>
  What an allocator relies on in a store of features: the indexes of a user are listed in
  increasing order, and storing one (\<open>stores u i s s'\<close>: from \<open>s\<close> to \<open>s'\<close> the feature \<open>i\<close> of the user \<open>u\<close> has been
  stored) adds it to that user and to nobody else.
\<close>

locale index_source =
  fixes ok :: "'s \<Rightarrow> bool"
    and user :: "int \<Rightarrow> bool"
    and indexes :: "'s \<Rightarrow> int \<Rightarrow> int list"
    and stores :: "int \<Rightarrow> int \<Rightarrow> 's \<Rightarrow> 's \<Rightarrow> bool"
  assumes strict: "ok s \<Longrightarrow> user u \<Longrightarrow> sorted_wrt (<) (indexes s u)"
    and lower: "ok s \<Longrightarrow> user u \<Longrightarrow> i \<in> set (indexes s u) \<Longrightarrow> 0 \<le> i"
    and ok_store: "ok s \<Longrightarrow> user u \<Longrightarrow> 0 \<le> i \<Longrightarrow> stores u i s s' \<Longrightarrow> ok s'"
    and stored: "ok s \<Longrightarrow> user u \<Longrightarrow> user v \<Longrightarrow> 0 \<le> i \<Longrightarrow> stores u i s s' \<Longrightarrow>
      set (indexes s' v) = (if v = u then insert i (set (indexes s v)) else set (indexes s v))"
begin

lemma allocated_fresh:
  assumes "ok s" "user u" "\<forall>i\<in>set (indexes s u). i < INT_MAX"
  obtains i where "empty_index_of (indexes s u) 0 (-1) = Inr i" "least_free (indexes s u) i"
  using empty_index_least [OF strict [OF assms(1,2)]] lower [OF assms(1,2)] assms(3) by blast

lemma least_free_range: "set is = {0..<n} \<Longrightarrow> 0 \<le> n \<Longrightarrow> least_free is i \<Longrightarrow> i = n"
  unfolding least_free_def by (metis atLeastLessThan_iff less_irrefl linorder_not_less order_antisym)

text \<open>Indexes that are used from 0 on stay so: the next one allocated is the next number.\<close>

lemma allocated_next:
  assumes "ok s" "user u" "set (indexes s u) = {0..<int n}" "int n \<le> INT_MAX"
  shows "empty_index_of (indexes s u) 0 (-1) = Inr (int n)"
proof -
  obtain i where "empty_index_of (indexes s u) 0 (-1) = Inr i" "least_free (indexes s u) i"
    using allocated_fresh [OF assms(1,2)] assms(3,4) by auto
  then show ?thesis using least_free_range [OF assms(3)] by simp
qed

lemma stored_next:
  assumes "ok s" "user u" "set (indexes s u) = {0..<int n}" "stores u (int n) s s'"
  shows "ok s'" "set (indexes s' u) = {0..<int (Suc n)}" "user v \<Longrightarrow> v \<noteq> u \<Longrightarrow> set (indexes s' v) = set (indexes s v)"
  using assms ok_store [OF assms(1,2) _ assms(4)] stored [OF assms(1,2) _ _ assms(4)] by auto

end

section \<open>The feature database as such a store\<close>

definition feature_ok :: "store \<Rightarrow> bool" where
  "feature_ok s \<longleftrightarrow> has_eigen_info (tables_of (s_db s))
     \<and> list_all (\<lambda>r. 0 \<le> r_index r) (eigen_rows (tables_of (s_db s)))"

definition feature_indexes :: "host \<Rightarrow> BioType \<Rightarrow> string \<Rightarrow> store \<Rightarrow> int \<Rightarrow> int list" where
  "feature_indexes h b d s u =
     map fi_index (group_rows (query_rows h u (biotype_code b) (Some d) 0 (-1) s))"

lemma biotype_code_nonneg: "0 \<le> biotype_code b" "biotype_code b \<noteq> -1"
  by (cases b; simp)+

lemma group_rows_indexes: "r_index ` set rs = fi_index ` set (group_rows rs)"
proof (induction rs rule: group_rows.induct)
  case (2 r rs)
  have "set rs = set (takeWhile (same_feature r) rs) \<union> set (dropWhile (same_feature r) rs)"
    by (metis set_append takeWhile_dropWhile_id)
  moreover have "r_index ` set (takeWhile (same_feature r) rs) \<subseteq> {r_index r}"
    by (auto dest!: set_takeWhileD simp: same_feature_def)
  ultimately show ?case using 2 by (auto simp: info_of_def image_Un)
qed simp

lemma query_one_user:
  assumes "r \<in> set (query_rows h u (biotype_code b) (Some d) a e s)" "u \<noteq> -1"
  shows "r_uid r = u \<and> r_biotype r = biotype_code b \<and> r_driver r = d
    \<and> r_uuid r = Some (uuid_of h (s_users s) u) \<and> a \<le> r_index r"
  using assms by (auto simp: query_rows_def row_selected_def current_def biotype_code_nonneg)

lemma query_rows_set:
  "set (query_rows h u bt d a e s) =
     {r \<in> set (eigen_rows (tables_of (s_db s))). row_selected u bt d a e r \<and> current h (s_users s) r}"
  by (auto simp: query_rows_def)

definition one_owner :: "int \<Rightarrow> string option \<Rightarrow> int \<Rightarrow> string \<Rightarrow> eigen_row \<Rightarrow> bool" where
  "one_owner u v t d r \<longleftrightarrow> r_uid r = u \<and> r_uuid r = v \<and> r_biotype r = t \<and> r_driver r = d"

lemma one_owner_index:
  "one_owner u v t d r \<Longrightarrow> one_owner u v t d x \<Longrightarrow> fkey r < fkey x \<Longrightarrow> r_index r < r_index x"
  by (simp add: one_owner_def fkey_def less_prod_def)

lemma group_indexes_increasing:
  assumes "sorted (map row_key rs)" "\<forall>r\<in>set rs. one_owner u v t d r"
  shows "sorted_wrt (<) (map fi_index (group_rows rs))"
  using assms
proof (induction rs rule: group_rows.induct)
  case (2 r rs)
  let ?rest = "dropWhile (same_feature r) rs"
  have own: "\<forall>x\<in>set ?rest. one_owner u v t d x"
    using 2(3) set_dropWhileD by (metis list.set_intros(2))
  have later: "r_index r < r_index x" if "x \<in> set ?rest" for x
  proof (rule one_owner_index)
    show "fkey r < fkey x" using dropped_later [OF 2(2) that] .
    show "one_owner u v t d r" using 2(3) by simp
    show "one_owner u v t d x" using own that by blast
  qed
  have "sorted_wrt (<) (map fi_index (group_rows ?rest))"
    by (rule "2.IH" [OF sorted_dropped own]) (use 2(2) in simp)
  moreover have "\<forall>i\<in>fi_index ` set (group_rows ?rest). r_index r < i"
    unfolding group_rows_indexes [symmetric] using later by blast
  ultimately show ?case by (simp add: info_of_def)
qed simp

lemma feature_indexes_set:
  "set (feature_indexes h b d s v) = r_index ` {r \<in> set (eigen_rows (tables_of (s_db s))).
     row_selected v (biotype_code b) (Some d) 0 (-1) r \<and> current h (s_users s) r}"
  unfolding feature_indexes_def set_map group_rows_indexes [symmetric] query_rows_set ..

lemma feature_indexes_increasing:
  "0 \<le> u \<Longrightarrow> sorted_wrt (<) (feature_indexes h b d s u)"
  unfolding feature_indexes_def
proof (rule group_indexes_increasing [OF sorted_query])
  assume "0 \<le> u"
  then show "\<forall>r\<in>set (query_rows h u (biotype_code b) (Some d) 0 (-1) s).
      one_owner u (Some (uuid_of h (s_users s) u)) (biotype_code b) d r"
    using query_one_user [of _ h u b d 0 "-1" s] by (simp add: one_owner_def)
qed

text \<open>What storing a feature of one sample does: a row more, of the user, the type, the driver and the index.\<close>

definition one_more :: "host \<Rightarrow> BioType \<Rightarrow> string \<Rightarrow> int \<Rightarrow> int \<Rightarrow> store \<Rightarrow> store \<Rightarrow> bool" where
  "one_more h b d u i s s' \<longleftrightarrow> s_users s' = s_users s
     \<and> (has_eigen_info (tables_of (s_db s)) \<longrightarrow> has_eigen_info (tables_of (s_db s')))
     \<and> (\<exists>r. eigen_rows (tables_of (s_db s')) = eigen_rows (tables_of (s_db s)) @ [r]
          \<and> r_index r = i \<and> one_owner u (Some (uuid_of h (s_users s) u)) (biotype_code b) d r)"

interpretation feature_store: index_source feature_ok "\<lambda>u. 0 \<le> u" "feature_indexes h b d" "one_more h b d"
proof
  show "0 \<le> (u::int) \<Longrightarrow> sorted_wrt (<) (feature_indexes h b d s u)" for s u
    by (rule feature_indexes_increasing)
  show "i \<in> set (feature_indexes h b d s u) \<Longrightarrow> 0 \<le> i" for s u i
    by (auto simp: feature_indexes_set row_selected_def)
  show "feature_ok s'" if "feature_ok s" "0 \<le> i" "one_more h b d u i s s'" for s u i s'
    using that by (auto simp: feature_ok_def one_more_def)
  show "set (feature_indexes h b d s' v) =
      (if v = u then insert i (set (feature_indexes h b d s v)) else set (feature_indexes h b d s v))"
    if a: "0 \<le> u" "0 \<le> v" "0 \<le> i" "one_more h b d u i s s'" for s u v i s'
  proof -
    obtain r where r: "eigen_rows (tables_of (s_db s')) = eigen_rows (tables_of (s_db s)) @ [r]" "r_index r = i"
      "one_owner u (Some (uuid_of h (s_users s) u)) (biotype_code b) d r" "s_users s' = s_users s"
      using a(4) by (auto simp: one_more_def)
    have "row_selected v (biotype_code b) (Some d) 0 (-1) r \<and> current h (s_users s) r \<longleftrightarrow> v = u"
      using r a by (auto simp: row_selected_def current_def one_owner_def)
    then show ?thesis
      unfolding feature_indexes_set r(4) using r(1,2) by (auto simp: image_iff)
  qed
qed

text \<open>The store is in working order and the device's rows are those of settled users.\<close>

definition store_ready :: "host \<Rightarrow> bio_dev \<Rightarrow> store \<Rightarrow> bool" where
  "store_ready h dev s \<longleftrightarrow> uuid_lib_ok h \<and> sound True s \<and> db_file (s_db s) \<noteq> None \<and> db_saved (s_db s) = None
     \<and> path_exists (u_fs (s_users s)) DB_DIR \<and> device_name dev \<noteq> None
     \<and> list_all (\<lambda>r. good_row h (s_users s) r \<and> 0 \<le> r_index r \<and> r_index r < INT_MAX)
         (eigen_rows (tables_of (s_db s)))"

lemma connect_ready:
  assumes "store_ready h dev s"
  shows "bio_sto_connect_db s = Inr (True, s)" "bio_sto_disconnect_db s = s"
proof -
  have "upd_tables (\<lambda>t. t) (s_db s) = s_db s"
    using assms by (auto simp: store_ready_def upd_tables_def tables_of_def)
  then show "bio_sto_connect_db s = Inr (True, s)" "bio_sto_disconnect_db s = s"
    using assms
    by (auto simp: bio_sto_connect_db_def store_ready_def sqlite3_open_def sound_def bio_sto_disconnect_db_def)
qed

lemma query_db_ready:
  assumes "store_ready h (w_dev w) (w_store w)"
    "told_apart h (s_users (w_store w))
       (query_rows h uid (biotype_code (biotype (bioinfo (w_dev w)))) (device_name (w_dev w)) a e (w_store w))"
  shows "query_db h uid a e w = Inr (group_rows
    (query_rows h uid (biotype_code (biotype (bioinfo (w_dev w)))) (device_name (w_dev w)) a e (w_store w)), w)"
proof -
  have "bio_sto_get_feature_info h True uid (biotype_code (biotype (bioinfo (w_dev w)))) (device_name (w_dev w)) a e (w_store w)
      = Inr (group_rows (query_rows h uid (biotype_code (biotype (bioinfo (w_dev w)))) (device_name (w_dev w)) a e (w_store w)), w_store w)"
    using assms by (intro get_feature_info_lemma) (auto simp: store_ready_def list_all_iff)
  then show ?thesis
    using connect_ready [OF assms(1)] by (simp add: query_db_def set_store_def)
qed

text \<open>What is found, when it can be printed.\<close>

lemma query_printed_ready:
  assumes "query_db h uid a e w = Inr (l, w')" "list_all (\<lambda>i. printable i \<and> fi_sample i \<noteq> []) l"
  shows "query_printed h uid a e w = Inr (l, w')"
  using assms(1) print_feature_info_lines [OF assms(2)] by (auto simp: query_printed_def)

lemma told_apart_one_user:
  "u \<noteq> -1 \<Longrightarrow> told_apart h us (query_rows h u bt d a e s)"
  by (auto simp: told_apart_def query_rows_def row_selected_def)

text \<open>
  C29. On a working database the framework allocates for a user the least index that none of
  the user's features of the device has, and changes nothing.
\<close>

theorem allocated_index_least_free:
  assumes "store_ready h (w_dev w) (w_store w)" "0 \<le> uid" "device_name (w_dev w) = Some d"
  shows "\<exists>i. bio_common_get_empty_index h uid 0 (-1) w = Inr (i, w)
    \<and> least_free (feature_indexes h (biotype (bioinfo (w_dev w))) d (w_store w) uid) i"
proof -
  let ?is = "feature_indexes h (biotype (bioinfo (w_dev w))) d (w_store w) uid"
  have ok: "feature_ok (w_store w)"
    using assms(1) by (auto simp: store_ready_def feature_ok_def list_all_iff sound_def
        has_uuid_column_def has_eigen_info_def split: option.splits)
  have "\<forall>i\<in>set ?is. i < INT_MAX"
    using assms(1) by (auto simp: feature_indexes_set store_ready_def list_all_iff)
  then obtain i where i: "empty_index_of ?is 0 (-1) = Inr i" "least_free ?is i"
    using feature_store.allocated_fresh [OF ok assms(2)] by blast
  have "query_db h uid 0 (-1) w = Inr (group_rows (query_rows h uid
      (biotype_code (biotype (bioinfo (w_dev w)))) (Some d) 0 (-1) (w_store w)), w)"
    using query_db_ready [OF assms(1), of uid 0 "-1"] told_apart_one_user [of uid] assms by simp
  then show ?thesis
    using i by (simp add: bio_common_get_empty_index_def feature_indexes_def)
qed

definition demo_device_world :: "store \<Rightarrow> unit bio_world" where
  "demo_device_world s = \<lparr>w_dev = idle_dev, bio_status_changed_callback = Some 0, w_calls = [],
     w_store = s, bio_ops_timeout_ms = 30000, w_priv = ()\<rparr>"

definition ready_store :: "eigen_row list \<Rightarrow> store" where
  "ready_store rs = (demo_store rs)\<lparr>s_users := demo_users'\<lparr>u_fs := (u_fs demo_users')\<lparr>fs_dirs :=
     ''/var/lib/biometric-auth'' # fs_dirs (u_fs demo_users')\<rparr>\<rparr>\<rparr>"

lemma ready_demo:
  assumes "\<forall>r\<in>set rs. good_row demo_host (s_users (ready_store rs)) r \<and> 0 \<le> r_index r \<and> r_index r < INT_MAX"
  shows "store_ready demo_host idle_dev (ready_store rs)"
  using assms demo_host_ok
  by (simp add: store_ready_def ready_store_def demo_store_def sound_def has_uuid_column_def tables_of_def
      eigen_rows_def idle_dev_def path_exists_def is_dir_def DB_DIR_def norm_path_def list_all_iff)

lemma ready_one: "store_ready demo_host idle_dev (ready_store [demo_row 1 7 UUID_DEFAULT 0 0])"
  by (rule ready_demo) (simp add: good_row_def demo_settled_absent INT_MAX_def)

theorem allocated_index_least_free_witness:
  "\<exists>i. bio_common_get_empty_index demo_host 7 0 (-1) (demo_device_world (ready_store [demo_row 1 7 UUID_DEFAULT 0 0]))
      = Inr (i, demo_device_world (ready_store [demo_row 1 7 UUID_DEFAULT 0 0]))"
proof -
  show ?thesis
    using ready_one allocated_index_least_free [of demo_host "demo_device_world (ready_store [demo_row 1 7 UUID_DEFAULT 0 0])" 7 "''aes2501''"]
    by (auto simp: demo_device_world_def idle_dev_def)
qed

section \<open>Sample numbers and driver ids\<close>

lemma mark_samples_out:
  "\<exists>n\<in>set nos. n < 0 \<or> int (length flags) \<le> n \<Longrightarrow> mark_samples nos flags = Inl Out_of_bounds"
proof (induction nos arbitrary: flags)
  case (Cons n nos)
  show ?case
  proof (cases "n < 0 \<or> int (length flags) \<le> n")
    case True
    then show ?thesis by (auto simp: wr_def)
  next
    case False
    then have "mark_samples nos (flags[nat n := 1]) = Inl Out_of_bounds"
      using Cons by (intro Cons.IH) auto
    then show ?thesis using False by (simp add: wr_def)
  qed
qed simp

lemma mark_samples_in:
  "\<forall>n\<in>set nos. 0 \<le> n \<and> n < int (length flags) \<Longrightarrow>
   mark_samples nos flags = Inr (map (\<lambda>i. if int i \<in> set nos then 1 else flags ! i) [0..<length flags])"
proof (induction nos arbitrary: flags)
  case Nil
  then show ?case by (simp add: map_nth)
next
  case (Cons n nos)
  then have "mark_samples nos (flags[nat n := 1]) =
      Inr (map (\<lambda>i. if int i \<in> set nos then 1 else flags[nat n := 1] ! i) [0..<length flags])"
    by simp
  moreover have "(if int i \<in> set nos then 1 else flags[nat n := 1] ! i) =
      (if int i \<in> set (n # nos) then 1 else flags ! i)" if "i < length flags" for i
    using Cons.prems that by (auto simp: nth_list_update)
  ultimately show ?case using Cons.prems by (simp add: wr_def)
qed

lemma find_unused_correct:
  assumes "0 \<le> i" "nat i + n \<le> length flags"
  shows "\<exists>j. find_unused flags i n = Inr j \<and>
    (if j = -1 then \<forall>k. i \<le> k \<and> k < i + int n \<longrightarrow> flags ! nat k \<noteq> 0
     else i \<le> j \<and> j < i + int n \<and> flags ! nat j = 0 \<and> (\<forall>k. i \<le> k \<and> k < j \<longrightarrow> flags ! nat k \<noteq> 0))"
  using assms
proof (induction n arbitrary: i)
  case (Suc n)
  have i: "nat i < length flags" using Suc.prems by simp
  show ?case
  proof (cases "flags ! nat i = 0")
    case True
    then show ?thesis using Suc.prems i by auto
  next
    case False
    obtain j where j: "find_unused flags (i + 1) n = Inr j"
      "if j = -1 then \<forall>k. i + 1 \<le> k \<and> k < i + 1 + int n \<longrightarrow> flags ! nat k \<noteq> 0
       else i + 1 \<le> j \<and> j < i + 1 + int n \<and> flags ! nat j = 0 \<and> (\<forall>k. i + 1 \<le> k \<and> k < j \<longrightarrow> flags ! nat k \<noteq> 0)"
      using Suc.IH [of "i + 1"] Suc.prems by (auto simp: nat_add_distrib)
    have step: "\<forall>k. i \<le> k \<and> k < m \<longrightarrow> flags ! nat k \<noteq> 0"
      if "\<forall>k. i + 1 \<le> k \<and> k < m \<longrightarrow> flags ! nat k \<noteq> 0" for m
    proof (intro allI impI)
      fix k assume "i \<le> k \<and> k < m"
      then show "flags ! nat k \<noteq> 0" using that False by (cases "k = i") auto
    qed
    have "find_unused flags i (Suc n) = Inr j" using j(1) False i Suc.prems by simp
    moreover have "if j = -1 then \<forall>k. i \<le> k \<and> k < i + int (Suc n) \<longrightarrow> flags ! nat k \<noteq> 0
       else i \<le> j \<and> j < i + int (Suc n) \<and> flags ! nat j = 0 \<and> (\<forall>k. i \<le> k \<and> k < j \<longrightarrow> flags ! nat k \<noteq> 0)"
    proof (cases "j = -1")
      case True
      then show ?thesis using step [of "i + 1 + int n"] j(2) by (simp add: algebra_simps)
    next
      case False
      then show ?thesis using step [of j] j(2) by simp
    qed
    ultimately show ?thesis by blast
  qed
qed auto

text \<open>
  The sample number allocated is the least one of the range that no sample uses, or -1
  when all are used; a stored sample with a number past the range makes the function write
  outside its array.
\<close>

theorem empty_sample_no_answers:
  assumes "0 \<le> start" "start \<le> end'"
  shows "((\<exists>n\<in>set nos. n < 0 \<or> end' < n) \<longrightarrow> empty_sample_no_of nos start end' = Inl Out_of_bounds)
    \<and> ((\<forall>n\<in>set nos. 0 \<le> n \<and> n \<le> end') \<longrightarrow> (\<exists>j. empty_sample_no_of nos start end' = Inr j \<and>
        (if j = -1 then {start..end'} \<subseteq> set nos
         else start \<le> j \<and> j \<le> end' \<and> j \<notin> set nos \<and> {start..<j} \<subseteq> set nos)))"
proof -
  let ?flags = "map (\<lambda>i. if start \<le> i then 0 else 1) [0..end'] :: byte list"
  have len: "length ?flags = nat (end' + 1)" by simp
  have "\<exists>j. empty_sample_no_of nos start end' = Inr j \<and>
        (if j = -1 then {start..end'} \<subseteq> set nos
         else start \<le> j \<and> j \<le> end' \<and> j \<notin> set nos \<and> {start..<j} \<subseteq> set nos)"
    if ok: "\<forall>n\<in>set nos. 0 \<le> n \<and> n \<le> end'"
  proof -
    define flags where "flags = map (\<lambda>i. if int i \<in> set nos then 1 else ?flags ! i) [0..<length ?flags]"
    have m: "mark_samples nos ?flags = Inr flags"
      unfolding flags_def using ok assms by (intro mark_samples_in) auto
    have nth: "flags ! nat k = 0 \<longleftrightarrow> k \<notin> set nos" if "start \<le> k" "k \<le> end'" for k
      using that assms by (auto simp: flags_def nth_upto)
    have "length flags = nat (end' + 1)" by (simp add: flags_def)
    then have "nat start + nat (end' - start + 1) \<le> length flags" using assms by simp
    then obtain j where j: "find_unused flags start (nat (end' - start + 1)) = Inr j"
      "if j = -1 then \<forall>k. start \<le> k \<and> k < start + int (nat (end' - start + 1)) \<longrightarrow> flags ! nat k \<noteq> 0
       else start \<le> j \<and> j < start + int (nat (end' - start + 1)) \<and> flags ! nat j = 0
         \<and> (\<forall>k. start \<le> k \<and> k < j \<longrightarrow> flags ! nat k \<noteq> 0)"
      using find_unused_correct [OF assms(1)] by blast
    have e: "start + int (nat (end' - start + 1)) = end' + 1" using assms by simp
    have "if j = -1 then {start..end'} \<subseteq> set nos
         else start \<le> j \<and> j \<le> end' \<and> j \<notin> set nos \<and> {start..<j} \<subseteq> set nos"
      using j(2) nth unfolding e by (cases "j = -1") auto
    moreover have "empty_sample_no_of nos start end' = Inr j"
      using j(1) m assms by (simp add: empty_sample_no_of_def Let_def del: map_map)
    ultimately show ?thesis by blast
  qed
  moreover have "empty_sample_no_of nos start end' = Inl Out_of_bounds"
    if out: "\<exists>n\<in>set nos. n < 0 \<or> end' < n"
  proof -
    obtain n where "n \<in> set nos" "n < 0 \<or> end' < n" using out by blast
    then have "\<exists>n\<in>set nos. n < 0 \<or> int (length ?flags) \<le> n"
      unfolding len using assms by (intro bexI [of _ n]) auto
    then have "mark_samples nos ?flags = Inl Out_of_bounds" by (rule mark_samples_out)
    then show ?thesis using assms by (simp add: empty_sample_no_of_def Let_def)
  qed
  ultimately show ?thesis by blast
qed

theorem empty_sample_no_answers_witness:
  "empty_sample_no_of [5] 0 3 = Inl Out_of_bounds"
  using empty_sample_no_answers [of 0 3 "[5]"] by simp

lemma mark_ids_samples:
  "mark_ids ds = mark_samples
     (map (\<lambda>d. d - BIO_DRVID_DYNAMIC_START) (filter (\<lambda>d. BIO_DRVID_DYNAMIC_START \<le> d) ds))"
proof (induction ds)
  case (Cons d ds)
  then show ?case by (intro ext) simp
qed (simp add: fun_eq_iff)

lemma first_unmarked_correct:
  assumes "i = first_unmarked flags"
  shows "i \<le> length flags \<and> (\<forall>j<i. flags ! j = 1) \<and> (i < length flags \<longrightarrow> flags ! i \<noteq> 1)"
proof -
  have "\<forall>j<i. flags ! j = 1"
    using assms nth_mem [of _ "takeWhile (\<lambda>f. f = 1) flags"]
    by (auto simp: first_unmarked_def takeWhile_nth dest: set_takeWhileD)
  then show ?thesis
    using assms nth_length_takeWhile [of "\<lambda>f. f = 1" flags]
    by (auto simp: first_unmarked_def length_takeWhile_le)
qed

lemma empty_driver_id_lemma:
  "bio_get_empty_driver_id drvs =
     (if (\<exists>d\<in>set drvs. 1023 < driver_id d) \<or> {100..1023} \<subseteq> driver_id ` set drvs then Inl Out_of_bounds
      else Inr (Min ({100..1023} - driver_id ` set drvs)))"
proof -
  let ?ids = "map (\<lambda>d. d - 100) (filter (\<lambda>d. 100 \<le> d) (map driver_id drvs))"
  let ?z = "replicate 924 0 :: byte list"
  let ?used = "driver_id ` set drvs"
  have run: "bio_get_empty_driver_id drvs = bindR (mark_samples ?ids ?z) (\<lambda>flags.
     bindR (rd flags (first_unmarked flags)) (\<lambda>f. if f \<noteq> 1 then Inr (int (first_unmarked flags) + 100) else Inr (-1)))"
    unfolding bio_get_empty_driver_id_def mark_ids_samples BIO_DRVID_DYNAMIC_START_def
      BIO_DRVID_DYNAMIC_MAX_def Let_def by simp
  show ?thesis
  proof (cases "\<exists>d\<in>set drvs. 1023 < driver_id d")
    case True
    then have "mark_samples ?ids ?z = Inl Out_of_bounds" by (intro mark_samples_out) force
    then show ?thesis using True run by simp
  next
    case False
    define flags where "flags = map (\<lambda>i. if int i \<in> set ?ids then 1 else ?z ! i) [0..<length ?z]"
    have m: "mark_samples ?ids ?z = Inr flags"
      unfolding flags_def using False by (intro mark_samples_in) force
    have len: "length flags = 924" by (simp add: flags_def)
    have mem: "int j \<in> set ?ids \<longleftrightarrow> int j + 100 \<in> ?used" for j
      by (force simp: image_iff)
    have nth: "flags ! j = 1 \<longleftrightarrow> int j + 100 \<in> ?used" if "j < 924" for j
      unfolding mem [symmetric] using that by (simp add: flags_def del: set_map set_filter)
    let ?i = "first_unmarked flags"
    have i: "?i \<le> 924" "\<forall>j<?i. flags ! j = 1" "?i < 924 \<longrightarrow> flags ! ?i \<noteq> 1"
      using first_unmarked_correct [of ?i flags] len by auto
    have below: "k \<in> ?used" if "100 \<le> k" "k < int ?i + 100" for k
      using nth [of "nat (k - 100)"] i(1,2) that by simp
    show ?thesis
    proof (cases "?i < 924")
      case True
      then have free: "int ?i + 100 \<in> {100..1023} - ?used" using nth i(3) by auto
      moreover have "int ?i + 100 \<le> k" if "k \<in> {100..1023} - ?used" for k
        using below [of k] that by force
      ultimately have "Min ({100..1023} - ?used) = int ?i + 100"
        by (intro Min_eqI) auto
      moreover have "\<not> {100..1023} \<subseteq> ?used" using free by blast
      ultimately show ?thesis using False True run m len i(3) by simp
    next
      case full: False
      then have "{100..1023} \<subseteq> ?used" using below i(1) by auto
      then show ?thesis using full run m len by simp
    qed
  qed
qed

text \<open>
  When every driver id is at most 1023, the id given to a new driver is the least dynamic
  one (100 to 1023) that no driver has; when all of them are taken, and also when some id is
  larger than 1023, the function accesses its array out of bounds.
\<close>

theorem empty_driver_id_answers:
  "bio_get_empty_driver_id drvs =
     (if (\<exists>d\<in>set drvs. 1023 < driver_id d) \<or> {100..1023} \<subseteq> driver_id ` set drvs then Inl Out_of_bounds
      else Inr (Min ({100..1023} - driver_id ` set drvs)))"
  by (rule empty_driver_id_lemma)

section \<open>Renaming a feature\<close>

lemma samples_of_one:
  assumes "\<forall>r\<in>set rs. r_uid r = u \<and> r_index r = i"
  shows "concat (map fi_sample (filter (\<lambda>f. fi_uid f = u \<and> fi_index f = i) (group_rows rs))) = map sample_of rs"
proof -
  have "\<forall>f\<in>set (group_rows rs). fi_uid f = u \<and> fi_index f = i"
    using feature_keys_of_rows [of rs] assms by (force simp: feature_key_def)
  then have "filter (\<lambda>f. fi_uid f = u \<and> fi_index f = i) (group_rows rs) = group_rows rs"
    by simp
  then show ?thesis by (simp add: concat_samples)
qed

text \<open>The effect of one update on a row.\<close>

definition upd_row :: "int \<Rightarrow> int \<Rightarrow> string \<Rightarrow> int \<Rightarrow> string \<Rightarrow> feature_sample \<Rightarrow> eigen_row \<Rightarrow> eigen_row" where
  "upd_row uid bt d idx name x r =
     (if r_id r = sa_dbid x
      then r\<lparr>r_uid := uid, r_biotype := bt, r_driver := d, r_index := idx, r_index_name := name,
             r_sample_no := sa_no x\<rparr> else r)"

lemma update_sound:
  assumes "sound True s" "s_db s = db"
  shows "bio_sto_update_feature_info_by_dbid True (sa_dbid x) uid bt (Some d) idx (Some name) (sa_no x) s =
    (0, s\<lparr>s_db := upd_tables (upd_rows (map (upd_row uid bt d idx name x))) db\<rparr>)"
proof -
  have u: "upd_row uid bt d idx name x = (\<lambda>r. if r_id r = sa_dbid x
      then r\<lparr>r_uid := uid, r_biotype := bt, r_driver := the (Some d), r_index := idx,
             r_index_name := the (Some name), r_sample_no := sa_no x\<rparr> else r)"
    by (simp add: upd_row_def fun_eq_iff)
  show ?thesis
    unfolding u using assms
    by (auto simp: bio_sto_update_feature_info_by_dbid_def sound_def prepare_sound step_sound Let_def
        has_uuid_column_def has_eigen_info_def split: option.splits)
qed

lemma sound_upd_rows: "sound h (s\<lparr>s_db := upd_tables (upd_rows f) (s_db s)\<rparr>) = sound h s"
  by (auto simp: sound_def has_uuid_column_def upd_rows_def split: option.splits)

lemma rename_samples_sound:
  assumes "sound True s"
  shows "rename_samples True uid bt (Some d) idx (Some name) xs s =
    ((int (length xs), int (length xs)),
     s\<lparr>s_db := foldl (\<lambda>db x. upd_tables (upd_rows (map (upd_row uid bt d idx name x))) db) (s_db s) xs\<rparr>)"
  using assms
proof (induction xs arbitrary: s)
  case (Cons x xs)
  show ?case
    using Cons.IH [of "s\<lparr>s_db := upd_tables (upd_rows (map (upd_row uid bt d idx name x))) (s_db s)\<rparr>"]
      Cons.prems
    by (simp add: update_sound sound_upd_rows)
qed simp

text \<open>Updating the rows of \<open>qs\<close>, each found by its id, renames exactly them.\<close>

lemma foldl_upd_row:
  assumes "inj_on r_id (set rs)" "set qs \<subseteq> set rs"
    "\<forall>q\<in>set qs. r_uid q = uid \<and> r_biotype q = bt \<and> r_driver q = d \<and> r_index q = idx"
  shows "foldl (\<lambda>xs x. map (upd_row uid bt d idx name x) xs)
      (map (\<lambda>r. if r \<in> A then r\<lparr>r_index_name := name\<rparr> else r) rs) (map sample_of qs) =
    map (\<lambda>r. if r \<in> A \<union> set qs then r\<lparr>r_index_name := name\<rparr> else r) rs"
  using assms(2,3)
proof (induction qs arbitrary: A)
  case (Cons q qs)
  have "upd_row uid bt d idx name (sample_of q) (if r \<in> A then r\<lparr>r_index_name := name\<rparr> else r) =
      (if r \<in> insert q A then r\<lparr>r_index_name := name\<rparr> else r)" if "r \<in> set rs" for r
  proof (cases "r = q")
    case True
    then show ?thesis using Cons.prems by (auto simp: upd_row_def sample_of_def)
  next
    case False
    then have "r_id r \<noteq> r_id q" using assms(1) that Cons.prems by (auto dest: inj_onD)
    then show ?thesis using False by (auto simp: upd_row_def sample_of_def)
  qed
  then have "map (upd_row uid bt d idx name (sample_of q)) (map (\<lambda>r. if r \<in> A then r\<lparr>r_index_name := name\<rparr> else r) rs)
      = map (\<lambda>r. if r \<in> insert q A then r\<lparr>r_index_name := name\<rparr> else r) rs"
    unfolding map_map comp_def by (rule map_cong [OF refl])
  moreover have "insert q A \<union> set qs = A \<union> set (q # qs)" by simp
  ultimately show ?case using Cons.IH [of "insert q A"] Cons.prems
    by (simp only: list.map foldl_Cons) simp
qed simp

lemma eigen_rows_foldl:
  assumes "has_eigen_info (tables_of db)"
  shows "has_eigen_info (tables_of (foldl (\<lambda>db x. upd_tables (upd_rows (map (f x))) db) db xs))
    \<and> eigen_rows (tables_of (foldl (\<lambda>db x. upd_tables (upd_rows (map (f x))) db) db xs)) =
      foldl (\<lambda>rs x. map (f x) rs) (eigen_rows (tables_of db)) xs"
  using assms
proof (induction xs arbitrary: db)
  case (Cons x xs)
  have "has_eigen_info (tables_of (upd_tables (upd_rows (map (f x))) db))"
    using Cons.prems by (auto simp: has_eigen_info_def upd_rows_def)
  then show ?case
    using Cons.IH [of "upd_tables (upd_rows (map (f x))) db"] Cons.prems
    by (simp add: eigen_rows_upd_has del: eigen_rows_upd)
qed simp

lemma db_saved_foldl: "db_saved (foldl (\<lambda>db x. upd_tables (g x) db) db xs) = db_saved db"
  by (induction xs arbitrary: db) (simp_all add: upd_tables_def)

text \<open>
  Renaming a feature on a working database answers 0 and gives the new name to exactly the
  current rows of the user, the device and the index; no row is added, lost or
  changed otherwise.
\<close>

lemma rename_lemma:
  assumes "store_ready h (w_dev w) (w_store w)" "device_name (w_dev w) = Some d" "0 \<le> uid" "0 \<le> idx"
    "inj_on r_id (set (eigen_rows (tables_of (s_db (w_store w)))))"
  shows "\<exists>w'. bio_comm_feature_rename_by_db h uid idx (Some name) w = Inr (0, w')
    \<and> w_dev w' = w_dev w \<and> w_calls w' = w_calls w \<and> s_users (w_store w') = s_users (w_store w)
    \<and> eigen_rows (tables_of (s_db (w_store w'))) =
      map (\<lambda>r. if row_selected uid (biotype_code (biotype (bioinfo (w_dev w)))) (Some d) idx idx r
            \<and> current h (s_users (w_store w)) r then r\<lparr>r_index_name := name\<rparr> else r)
        (eigen_rows (tables_of (s_db (w_store w))))"
proof -
  let ?s = "w_store w" and ?bt = "biotype_code (biotype (bioinfo (w_dev w)))"
  let ?rs = "eigen_rows (tables_of (s_db ?s))"
  let ?q = "query_rows h uid ?bt (Some d) idx idx ?s"
  let ?upd = "\<lambda>x. upd_row uid ?bt d idx name x"
  let ?db = "foldl (\<lambda>db x. upd_tables (upd_rows (map (?upd x))) db) (s_db ?s) (map sample_of ?q)"
  have sound: "sound True ?s" using assms(1) by (simp add: store_ready_def)
  have own: "r_uid r = uid \<and> r_biotype r = ?bt \<and> r_driver r = d \<and> r_index r = idx" if "r \<in> set ?q" for r
    using that assms(3,4) by (auto simp: query_rows_set row_selected_def biotype_code_nonneg)
  have get: "bio_sto_get_feature_info h True uid ?bt (Some d) idx idx ?s = Inr (group_rows ?q, ?s)"
    using assms(1) told_apart_one_user [of uid] assms(3)
    by (intro get_feature_info_lemma) (auto simp: store_ready_def list_all_iff)
  have samples: "concat (map fi_sample (filter (\<lambda>i. fi_uid i = uid \<and> fi_index i = idx) (group_rows ?q)))
      = map sample_of ?q" by (rule samples_of_one) (use own in blast)
  let ?s' = "?s\<lparr>s_db := ?db\<rparr>"
  have has: "has_eigen_info (tables_of (s_db ?s))"
    using sound by (auto simp: sound_def has_uuid_column_def has_eigen_info_def split: option.splits)
  have rows: "eigen_rows (tables_of ?db) = map (\<lambda>r. if r \<in> set ?q then r\<lparr>r_index_name := name\<rparr> else r) ?rs"
    using eigen_rows_foldl [OF has, of ?upd "map sample_of ?q"]
      foldl_upd_row [OF assms(5), of ?q uid ?bt d idx name "{}"] own
    by (auto simp: query_rows_set)
  have saved: "db_saved ?db = None"
    using assms(1) unfolding db_saved_foldl by (simp add: store_ready_def)
  have "bio_comm_feature_rename_by_db h uid idx (Some name) w = Inr (0, set_store (bio_sto_disconnect_db ?s') w)"
    using connect_ready(1) [OF assms(1)] get samples rename_samples_sound [OF sound] assms(2)
    by (simp add: bio_comm_feature_rename_by_db_def Let_def)
  then show ?thesis
    using rows saved by (simp add: set_store_def bio_sto_disconnect_db_def query_rows_set cong: map_cong)
qed
section \<open>The USB scan\<close>

text \<open>
  The scan counts the devices of the bus that the driver's id table lists, up to the first
  one whose descriptor cannot be read, and answers -1 exactly when the USB library fails; a
  driver without an id table makes it follow a null pointer as soon as there is a device.
\<close>

theorem detect_usb_counts:
  "bio_common_detect_usb_device bus dev =
     (case usb_devices bus of
        None \<Rightarrow> Inr (-1)
      | Some ds \<Rightarrow> let readable = map the (takeWhile (\<lambda>d. d \<noteq> None) ds)
         in if usb_init bus < 0 then Inr (-1)
            else if readable = [] then Inr 0
            else case id_table dev of
                   None \<Rightarrow> Inl Null_deref
                 | Some t \<Rightarrow> Inr (int (length (filter (table_matches t) readable))))"
proof -
  have "count_usb (Some t) ds = Inr (int (length (filter (table_matches t) (map the (takeWhile (\<lambda>d. d \<noteq> None) ds)))))"
    for t ds
    by (induction "Some t" ds rule: count_usb.induct) auto
  moreover have "count_usb None ds = (if takeWhile (\<lambda>d. d \<noteq> None) ds = [] then Inr 0 else Inl Null_deref)" for ds
    by (cases "(None :: usb_id list option, ds)" rule: count_usb.cases) auto
  ultimately show ?thesis
    by (auto simp: bio_common_detect_usb_device_def Let_def split: option.splits)
qed

end
