(* ===== verification/Store_Frame.thy ===== *)
theory Store_Frame
  imports Bio_Index
begin

text \<open>
  What the functions of the feature store leave alone, whatever calls of the SQL engine fail: the
  keys of the rows stay unique, and a call for one user and one device keeps the rows of
  everybody else.
\<close>

section \<open>Well-formed tables, and the rows of the others\<close>

definition keyed :: "tables \<Rightarrow> bool" where
  "keyed t \<longleftrightarrow> (case eigen_info t of
     None \<Rightarrow> True | Some e \<Rightarrow> distinct (map r_id (t_rows e)) \<and> list_all (\<lambda>r. r_id r \<le> t_seq e) (t_rows e))"

definition mine :: "int \<Rightarrow> int \<Rightarrow> string \<Rightarrow> eigen_row \<Rightarrow> bool" where
  "mine u b d r \<longleftrightarrow> (u = -1 \<or> r_uid r = u) \<and> r_biotype r = b \<and> r_driver r = d"

definition others :: "int \<Rightarrow> int \<Rightarrow> string \<Rightarrow> tables \<Rightarrow> eigen_row list" where
  "others u b d t = filter (\<lambda>r. \<not> mine u b d r) (eigen_rows t)"

text \<open>Outside a transaction, from well-formed tables.\<close>

definition settled_db :: "database \<Rightarrow> bool" where
  "settled_db db \<longleftrightarrow> db_saved db = None \<and> keyed (tables_of db)"

definition frame :: "int \<Rightarrow> int \<Rightarrow> string \<Rightarrow> store \<Rightarrow> store \<Rightarrow> bool" where
  "frame u b d s s' \<longleftrightarrow> (settled_db (s_db s) \<longrightarrow>
     settled_db (s_db s') \<and> others u b d (tables_of (s_db s')) = others u b d (tables_of (s_db s)))"

lemma frame_refl: "frame u b d s s"
  by (simp add: frame_def)

lemma frame_trans: "frame u b d s s' \<Longrightarrow> frame u b d s' s'' \<Longrightarrow> frame u b d s s''"
  by (auto simp: frame_def)

lemma frame_same:
  "tables_of (s_db s') = tables_of (s_db s) \<Longrightarrow> db_saved (s_db s') = db_saved (s_db s) \<Longrightarrow> frame u b d s s'"
  by (simp add: frame_def settled_db_def)

lemma keyed_upd_rows:
  assumes "keyed t" "map r_id (f (eigen_rows t)) = map r_id (filter p (eigen_rows t))"
  shows "keyed (upd_rows f t)"
proof (cases "eigen_info t")
  case (Some e)
  have "distinct (map r_id (filter p (t_rows e)))" "\<forall>i\<in>set (map r_id (filter p (t_rows e))). i \<le> t_seq e"
    using assms(1) Some by (auto simp: keyed_def list_all_iff distinct_map inj_on_def)
  then have "distinct (map r_id (f (t_rows e)))" "\<forall>i\<in>set (map r_id (f (t_rows e))). i \<le> t_seq e"
    using assms(2) Some by (simp_all add: eigen_rows_def)
  then show ?thesis using Some by (auto simp: keyed_def upd_rows_def list_all_iff)
qed (simp add: keyed_def upd_rows_def)

section \<open>Connecting and querying\<close>

lemma create_dir_tables:
  "create_db_dir s = Inr s' \<Longrightarrow> s_db s' = s_db s"
  by (auto simp: create_db_dir_def bindR_eq_Inr split: if_splits)

lemma open_tables:
  "sqlite3_open s = (ok, s') \<Longrightarrow>
   tables_of (s_db s') = tables_of (s_db s) \<and> db_saved (s_db s') = db_saved (s_db s)"
  using sql_call_simps [of "s_db s"]
  by (auto simp: sqlite3_open_def Let_def split: prod.splits if_splits simp del: sql_call.simps)

lemma exec_tables:
  "exec True f db = (ok, db') \<Longrightarrow>
   db_saved db' = db_saved db \<and> tables_of db' = (if ok then f (tables_of db) else tables_of db)"
  using step_cases [of True f db ok db'] by (simp add: exec_def)

lemma create_eigen_rows:
  assumes "internal_create_eigen_info_table db = (r, db')" "keyed (tables_of db)"
  shows "db_saved db' = db_saved db \<and> eigen_rows (tables_of db') = eigen_rows (tables_of db) \<and> keyed (tables_of db')"
proof -
  obtain ok where "exec True (\<lambda>t. if eigen_info t = None
      then t\<lparr>eigen_info := Some \<lparr>t_uuid_col = True, t_rows = [], t_seq = 0\<rparr>\<rparr> else t) db = (ok, db')"
    using assms(1) by (auto simp: internal_create_eigen_info_table_def split: prod.splits)
  from exec_tables [OF this] show ?thesis
    using assms(2) by (auto simp: keyed_def eigen_rows_def)
qed

lemma create_info_rows:
  assumes "internal_create_datebase_info db = (r, db')"
  shows "db_saved db' = db_saved db \<and> eigen_info (tables_of db') = eigen_info (tables_of db)"
  using assms
  by (auto simp: internal_create_datebase_info_def Let_def split: prod.splits if_splits
      dest!: exec_tables prepare_cases step_cases)

lemma create_table_rows:
  assumes "bio_sto_create_table db = (r, db')" "keyed (tables_of db)"
  shows "db_saved db' = db_saved db \<and> eigen_rows (tables_of db') = eigen_rows (tables_of db) \<and> keyed (tables_of db')"
proof -
  obtain r1 db1 where a: "internal_create_eigen_info_table db = (r1, db1)" by fastforce
  obtain r2 db2 where b: "internal_create_datebase_info db1 = (r2, db2)" by fastforce
  show ?thesis
    using assms create_eigen_rows [OF a] create_info_rows [OF b] a b
    by (auto simp: bio_sto_create_table_def keyed_def eigen_rows_def split: if_splits)
qed

lemma disconnect_frame: "frame u b d s (bio_sto_disconnect_db s)"
  by (auto simp: frame_def settled_db_def bio_sto_disconnect_db_def)

lemma connect_frame: "on_return (bio_sto_connect_db s) (\<lambda>(_, s'). frame u b d s s')"
proof -
  have "frame u b d s s'" if run: "bio_sto_connect_db s = Inr (ok, s')" for ok s'
  proof -
    have open_frame: "frame u b d s1 s2" if "sqlite3_open s1 = (ok, s2)" for ok s1 s2
      using open_tables [OF that] by (intro frame_same) auto
    have create_frame: "frame u b d s1 (s1\<lparr>s_db := db\<rparr>)" if "bio_sto_create_table (s_db s1) = (r, db)" for s1 r db
      using create_table_rows [OF that] by (auto simp: frame_def settled_db_def others_def)
    show ?thesis
    proof (cases "db_file (s_db s) = None")
      case False
      then show ?thesis
        using run open_frame [of s] by (auto simp: bio_sto_connect_db_def frame_refl split: prod.splits if_splits)
    next
      case True
      then obtain s0 where s0: "create_db_dir s = Inr s0"
        using run by (auto simp: bio_sto_connect_db_def bindR_eq_Inr)
      have f0: "frame u b d s s0" using create_dir_tables [OF s0] by (intro frame_same) auto
      obtain ok1 s1 where s1: "sqlite3_open s0 = (ok1, s1)" by fastforce
      obtain ok2 s2 where s2: "sqlite3_open s1 = (ok2, s2)" by fastforce
      obtain r db where c: "bio_sto_create_table (s_db s2) = (r, db)" by fastforce
      note f1 = frame_trans [OF f0 open_frame [OF s1]]
      note f2 = frame_trans [OF f1 open_frame [OF s2]]
      note f3 = frame_trans [OF f2 create_frame [OF c]]
      show ?thesis
        using run True s0 s1 s2 c f1 f2 f3 frame_trans [OF f3 disconnect_frame]
        by (auto simp: bio_sto_connect_db_def Let_def split: if_splits)
    qed
  qed
  then show ?thesis by (auto simp: on_return_def)
qed

lemma sqlite3_rows_tables:
  "sqlite3_rows rs db = (rs', db') \<Longrightarrow>
   tables_of db' = tables_of db \<and> db_saved db' = db_saved db \<and> set rs' \<subseteq> set rs"
proof (induction rs arbitrary: db rs' db')
  case Nil
  then show ?case using sql_call_simps [of db] by (metis empty_subsetI list.set(1) prod.collapse sqlite3_rows.simps(1) fst_conv snd_conv)
next
  case (Cons r rs)
  obtain ok db1 where c: "sql_call db = (ok, db1)" by fastforce
  obtain rs2 db2 where d: "sqlite3_rows rs db1 = (rs2, db2)" by fastforce
  show ?case
    using Cons.prems Cons.IH [OF d] sql_call_simps [OF c] c d
    by (auto simp del: sql_call.simps split: if_splits)
qed

text \<open>Every sample a query returns is one of a row its clause selects.\<close>

definition samples_from :: "eigen_row list \<Rightarrow> feature_info list \<Rightarrow> bool" where
  "samples_from rs l \<longleftrightarrow> (\<forall>i\<in>set l. set (fi_sample i) \<subseteq> sample_of ` set rs)"

lemma get_row_samples:
  assumes "get_row h r (g, us) = Inr (g', us')" "samples_from rs (g_list g)" "r \<in> set rs"
  shows "samples_from rs (g_list g')"
proof -
  have "g_list g' = g_list g \<or> g_list g' = info_of r # g_list g
    \<or> (\<exists>i is. g_list g = i # is \<and> g_list g' = i\<lparr>fi_sample := fi_sample i @ [sample_of r]\<rparr> # is)"
    using assms(1)
    by (auto simp: get_row_def bindR_eq_Inr refresh_user_uuid_def add_sample_def new_item_def Let_def
        split: option.splits if_splits list.splits)
  moreover have "sample_of r \<in> sample_of ` set rs" using assms(3) by blast
  ultimately show ?thesis
    using assms(2) by (elim disjE exE conjE) (simp_all add: samples_from_def info_of_def)
qed

lemma get_rows_samples:
  "get_rows h rs (g, us) = Inr (g', us') \<Longrightarrow> samples_from rs0 (g_list g) \<Longrightarrow> set rs \<subseteq> set rs0 \<Longrightarrow>
   samples_from rs0 (g_list g')"
proof (induction rs arbitrary: g us)
  case (Cons r rs)
  then obtain g1 us1 where "get_row h r (g, us) = Inr (g1, us1)" "get_rows h rs (g1, us1) = Inr (g', us')"
    by (auto simp: bindR_eq_Inr)
  then show ?case using Cons get_row_samples [of h r g us g1 us1 rs0] by auto
qed simp

lemma get_feature_info_frame:
  assumes "bio_sto_get_feature_info h handle uid bt drv i j s = Inr (l, s')"
  shows "tables_of (s_db s') = tables_of (s_db s)" "db_saved (s_db s') = db_saved (s_db s)"
    "samples_from (filter (row_selected uid bt drv i j) (eigen_rows (tables_of (s_db s)))) l"
proof -
  obtain ok db where p: "sqlite3_prepare handle (has_uuid_column (tables_of (s_db s))) (s_db s) = (ok, db)" by fastforce
  let ?sel = "filter (row_selected uid bt drv i j) (eigen_rows (tables_of db))"
  obtain rows db2 where q: "sqlite3_rows (sort_key row_key ?sel) db = (rows, db2)" by fastforce
  have "tables_of (s_db s') = tables_of (s_db s) \<and> db_saved (s_db s') = db_saved (s_db s)
    \<and> samples_from (filter (row_selected uid bt drv i j) (eigen_rows (tables_of (s_db s)))) l"
  proof (cases ok)
    case False
    then show ?thesis
      using assms p prepare_cases [OF p] by (auto simp: bio_sto_get_feature_info_def samples_from_def)
  next
    case True
    then obtain g us where g: "get_rows h rows (get_vars_init, s_users s) = Inr (g, us)"
      "l = rev (g_list g)" "s' = \<lparr>s_db = db2, s_users = us\<rparr>"
      using assms p q by (auto simp: bio_sto_get_feature_info_def bindR_eq_Inr)
    have "samples_from ?sel (g_list g)"
      by (rule get_rows_samples [OF g(1)])
        (use sqlite3_rows_tables [OF q] in \<open>auto simp: samples_from_def get_vars_init_def\<close>)
    then show ?thesis
      using g(2,3) prepare_cases [OF p] sqlite3_rows_tables [OF q] by (simp add: samples_from_def)
  qed
  then show "tables_of (s_db s') = tables_of (s_db s)" "db_saved (s_db s') = db_saved (s_db s)"
    "samples_from (filter (row_selected uid bt drv i j) (eigen_rows (tables_of (s_db s)))) l"
    by blast+
qed

text \<open>A listing or a search changes nothing in the database that anybody can see.\<close>

lemma query_db_steps:
  assumes "query_db h uid i j w = Inr (l, w')"
  obtains db s1 s2 where "bio_sto_connect_db (w_store w) = Inr (db, s1)"
    "bio_sto_get_feature_info h db uid (biotype_code (biotype (bioinfo (w_dev w)))) (device_name (w_dev w)) i j s1 = Inr (l, s2)"
    "w' = set_store (bio_sto_disconnect_db s2) w"
proof (cases "bio_sto_connect_db (w_store w)")
  case (Inl e)
  then show ?thesis using assms by (simp add: query_db_def)
next
  case (Inr p)
  obtain db s1 where p: "p = (db, s1)" by fastforce
  show ?thesis
  proof (cases "bio_sto_get_feature_info h db uid (biotype_code (biotype (bioinfo (w_dev w)))) (device_name (w_dev w)) i j s1")
    case (Inl e)
    then show ?thesis using assms Inr p by (simp add: query_db_def)
  next
    case (Inr q)
    obtain l2 s2 where q: "q = (l2, s2)" by fastforce
    have "l2 = l \<and> w' = set_store (bio_sto_disconnect_db s2) w"
      using assms \<open>bio_sto_connect_db (w_store w) = Inr p\<close> p Inr q by (simp add: query_db_def)
    then show ?thesis using that \<open>bio_sto_connect_db (w_store w) = Inr p\<close> p Inr q by blast
  qed
qed

lemma query_db_run:
  assumes "query_db h uid i j w = Inr (l, w')"
  shows "w_dev w' = w_dev w" "w_priv w' = w_priv w" "frame u b d (w_store w) (w_store w')"
proof -
  obtain db s1 s2 where c: "bio_sto_connect_db (w_store w) = Inr (db, s1)"
    "bio_sto_get_feature_info h db uid (biotype_code (biotype (bioinfo (w_dev w)))) (device_name (w_dev w)) i j s1 = Inr (l, s2)"
    "w' = set_store (bio_sto_disconnect_db s2) w"
    using query_db_steps [OF assms] .
  have "frame u b d (w_store w) s1" using connect_frame [of "w_store w" u b d] c(1) by (simp add: on_return_def)
  moreover have "frame u b d s1 s2" using get_feature_info_frame [OF c(2)] by (intro frame_same)
  ultimately have "frame u b d (w_store w) (bio_sto_disconnect_db s2)"
    by (blast intro: frame_trans disconnect_frame)
  then show "w_dev w' = w_dev w" "w_priv w' = w_priv w" "frame u b d (w_store w) (w_store w')"
    using c(3) by (simp_all add: set_store_def)
qed

section \<open>Storing, deleting, renaming\<close>

text \<open>The features a call for \<open>u\<close> on the device stores.\<close>

definition my_info :: "int \<Rightarrow> int \<Rightarrow> string \<Rightarrow> feature_info \<Rightarrow> bool" where
  "my_info u b d i \<longleftrightarrow> (u = -1 \<or> fi_uid i = u) \<and> fi_biotype i = b \<and> fi_driver i = Some d"

lemma insert_row_keyed: "keyed t \<Longrightarrow> keyed (insert_row i q x t)"
  by (auto simp: keyed_def insert_row_def list_all_iff split: option.split) fastforce+

lemma insert_row_others: "my_info u b d i \<Longrightarrow> others u b d (insert_row i q x t) = others u b d t"
  by (auto simp: others_def insert_row_def eigen_rows_def mine_def my_info_def split: option.split)

lemma step_frame:
  assumes "sqlite3_step allowed f (s_db s) = (ok, db)"
    "keyed (tables_of (s_db s)) \<Longrightarrow> keyed (f (tables_of (s_db s)))"
    "others u b d (f (tables_of (s_db s))) = others u b d (tables_of (s_db s))"
  shows "frame u b d s (s\<lparr>s_db := db\<rparr>)"
  using step_cases [OF assms(1)] assms(2,3) by (auto simp: frame_def settled_db_def)

lemma prepare_frame:
  assumes "sqlite3_prepare handle ok0 (s_db s) = (ok, db)"
  shows "frame u b d s (s\<lparr>s_db := db\<rparr>)"
  using prepare_cases [OF assms] by (intro frame_same) auto

lemma set_loop_frame:
  "\<forall>i\<in>set is. my_info u b d i \<Longrightarrow> on_return (set_loop h old q is xs s) (\<lambda>(_, s'). frame u b d s s')"
proof (induction h old q "is" xs s rule: set_loop.induct)
  case (3 h old q i "is" x ss s)
  show ?case
  proof (cases "item_uuid h old q i s")
    case (Inr p)
    obtain q1 s1 where p: "p = (q1, s1)" by fastforce
    have s1: "frame u b d s s1"
      using Inr p by (intro frame_same) (auto simp: item_uuid_def bindR_eq_Inr split: if_splits)
    obtain ok db where st: "sqlite3_step (insertable i x) (insert_row i q1 x) (s_db s1) = (ok, db)" by fastforce
    have "frame u b d s1 (s1\<lparr>s_db := db\<rparr>)"
      using insert_row_keyed insert_row_others 3(3) by (intro step_frame [OF st]) auto
    then have s2: "frame u b d s (s1\<lparr>s_db := db\<rparr>)" by (rule frame_trans [OF s1])
    have "on_return (set_loop h (fi_uid i) q1 is (case is of [] \<Rightarrow> [] | j # _ \<Rightarrow> fi_sample j) (s1\<lparr>s_db := db\<rparr>))
        (\<lambda>(_, s'). frame u b d (s1\<lparr>s_db := db\<rparr>) s')" if "ok" "ss = []"
      using 3(1) [OF Inr p [symmetric] refl st [symmetric] refl] that 3(3) by auto
    moreover have "on_return (set_loop h (fi_uid i) q1 (i # is) ss (s1\<lparr>s_db := db\<rparr>))
        (\<lambda>(_, s'). frame u b d (s1\<lparr>s_db := db\<rparr>) s')" if "ok" "ss \<noteq> []"
      using 3(2) [OF Inr p [symmetric] refl st [symmetric] refl] that 3(3) by auto
    ultimately show ?thesis
      using Inr p st s2 by (auto simp: Let_def intro: on_return_mono frame_trans)
  qed simp
next
  case (2 h old q i "is" s)
  then show ?case by (cases "item_uuid h old q i s") auto
qed (simp add: frame_refl)

lemma set_feature_info_frame:
  assumes "\<forall>i\<in>set infos. my_info u b d i"
  shows "on_return (bio_sto_set_feature_info h handle infos s) (\<lambda>(_, s'). frame u b d s s')"
proof -
  obtain ok db where p: "sqlite3_prepare handle (has_uuid_column (tables_of (s_db s))) (s_db s) = (ok, db)" by fastforce
  note p_frame = prepare_frame [OF p, of u b d]
  show ?thesis
  proof (cases infos)
    case (Cons i "is")
    have "on_return (set_loop h (-1) '''' infos (fi_sample i) (s\<lparr>s_db := db\<rparr>)) (\<lambda>(_, s'). frame u b d s s')"
      by (rule on_return_mono [OF set_loop_frame [OF assms]]) (auto intro: frame_trans [OF p_frame])
    then show ?thesis using p p_frame Cons by (auto simp: bio_sto_set_feature_info_def Let_def)
  qed (use p p_frame in \<open>simp add: bio_sto_set_feature_info_def Let_def\<close>)
qed

lemma upd_rows_others:
  assumes "filter (\<lambda>r. \<not> mine u b d r) (f (eigen_rows t)) = filter (\<lambda>r. \<not> mine u b d r) (eigen_rows t)"
  shows "others u b d (upd_rows f t) = others u b d t"
  using assms by (cases "eigen_info t") (simp_all add: others_def eigen_rows_def upd_rows_def)

lemma selected_mine:
  "row_selected u b (Some d) i j r \<Longrightarrow> b \<noteq> -1 \<Longrightarrow> mine u b d r"
  by (auto simp: row_selected_def mine_def)

lemma clean_frame:
  assumes "bio_sto_clean_feature_info handle u b (Some d) i j s = (r, s')" "d \<noteq> ''''" "b \<noteq> -1"
  shows "frame u b d s s'"
proof -
  let ?sel = "row_selected u b (Some d) i j"
  obtain ok db where p: "sqlite3_prepare handle (has_eigen_info (tables_of (s_db s))) (s_db s) = (ok, db)" by fastforce
  let ?s = "s\<lparr>s_db := db\<rparr>"
  obtain ok2 db2 where st: "sqlite3_step True (upd_rows (filter (\<lambda>r. \<not> ?sel r))) (s_db ?s) = (ok2, db2)" by fastforce
  have "frame u b d ?s (?s\<lparr>s_db := db2\<rparr>)"
  proof (rule step_frame [OF st])
    show "keyed (tables_of (s_db ?s)) \<Longrightarrow> keyed (upd_rows (filter (\<lambda>r. \<not> ?sel r)) (tables_of (s_db ?s)))"
      by (erule keyed_upd_rows) (rule refl)
    show "others u b d (upd_rows (filter (\<lambda>r. \<not> ?sel r)) (tables_of (s_db ?s))) = others u b d (tables_of (s_db ?s))"
      by (rule upd_rows_others) (use assms(3) selected_mine in \<open>auto intro!: filter_cong\<close>)
  qed
  then show ?thesis
    using frame_trans [OF prepare_frame [OF p]] prepare_frame [OF p] assms(1,2) p st
    by (auto simp: bio_sto_clean_feature_info_def split: if_splits)
qed

text \<open>The rows with these keys belong to the user and the device.\<close>

definition own_keys :: "int \<Rightarrow> int \<Rightarrow> string \<Rightarrow> int set \<Rightarrow> store \<Rightarrow> bool" where
  "own_keys u b d ks s \<longleftrightarrow> (\<forall>q\<in>set (eigen_rows (tables_of (s_db s))). r_id q \<in> ks \<longrightarrow> mine u b d q)"

lemma update_frame:
  assumes "bio_sto_update_feature_info_by_dbid handle k u b (Some d) i n no s = (r, s')"
    "own_keys u b d ks s" "k \<in> ks"
  shows "frame u b d s s' \<and> own_keys u b d ks s'"
proof -
  let ?f = "\<lambda>r. if r_id r = k then r\<lparr>r_uid := u, r_biotype := b, r_driver := the (Some d), r_index := i,
      r_index_name := the n, r_sample_no := no\<rparr> else r"
  obtain ok db where p: "sqlite3_prepare handle (has_eigen_info (tables_of (s_db s))) (s_db s) = (ok, db)" by fastforce
  let ?s = "s\<lparr>s_db := db\<rparr>"
  let ?allowed = "(Some d \<noteq> None \<and> n \<noteq> None) \<or> \<not> list_ex (\<lambda>r. r_id r = k) (eigen_rows (tables_of db))"
  obtain ok2 db2 where st: "sqlite3_step ?allowed (upd_rows (map ?f)) (s_db ?s) = (ok2, db2)" by fastforce
  have rows: "eigen_rows (tables_of db) = eigen_rows (tables_of (s_db s))" using prepare_cases [OF p] by simp
  have mine_f: "mine u b d (?f q)" if "r_id q = k" for q using that by (simp add: mine_def)
  have keep: "filter (\<lambda>r. \<not> mine u b d r) (map ?f rs) = filter (\<lambda>r. \<not> mine u b d r) rs"
    if "\<forall>q\<in>set rs. r_id q = k \<longrightarrow> mine u b d q" for rs
    using that mine_f by (induction rs) auto
  have "frame u b d ?s (?s\<lparr>s_db := db2\<rparr>)"
  proof (rule step_frame [OF st])
    have "map r_id (map ?f rs) = map r_id rs" for rs by simp
    then show "keyed (tables_of (s_db ?s)) \<Longrightarrow> keyed (upd_rows (map ?f) (tables_of (s_db ?s)))"
      by (elim keyed_upd_rows [where p = "\<lambda>_. True"]) (simp add: comp_def)
    show "others u b d (upd_rows (map ?f) (tables_of (s_db ?s))) = others u b d (tables_of (s_db ?s))"
      by (rule upd_rows_others, rule keep) (use assms(2,3) rows in \<open>auto simp: own_keys_def\<close>)
  qed
  note fr = frame_trans [OF prepare_frame [OF p] this]
  have "own_keys u b d ks (?s\<lparr>s_db := db2\<rparr>)" "own_keys u b d ks ?s"
    using step_cases [OF st] assms(2) rows mine_f
    by (auto simp: own_keys_def eigen_rows_def upd_rows_def split: option.splits if_splits)
  then show ?thesis
    using fr prepare_frame [OF p] assms(1) p st
    by (auto simp: bio_sto_update_feature_info_by_dbid_def Let_def split: if_splits)
qed

lemma rename_samples_frame:
  "rename_samples handle u b (Some d) i n xs s = (c, s') \<Longrightarrow> own_keys u b d ks s \<Longrightarrow>
   sa_dbid ` set xs \<subseteq> ks \<Longrightarrow> frame u b d s s'"
proof (induction xs arbitrary: s c s')
  case (Cons x xs)
  obtain r s1 where u1: "bio_sto_update_feature_info_by_dbid handle (sa_dbid x) u b (Some d) i n (sa_no x) s = (r, s1)"
    by fastforce
  obtain c2 s2 where r2: "rename_samples handle u b (Some d) i n xs s1 = (c2, s2)" by fastforce
  have "frame u b d s s1 \<and> own_keys u b d ks s1"
    by (rule update_frame [OF u1 Cons.prems(2)]) (use Cons.prems in auto)
  moreover have "frame u b d s1 s2" using Cons.IH [OF r2] calculation Cons.prems by auto
  ultimately show ?case using Cons.prems(1) u1 r2 by (auto simp: frame_trans split: prod.splits)
qed (simp add: frame_refl)

lemma rename_by_db_frame:
  assumes "device_name (w_dev w) = Some d" "b = biotype_code (biotype (bioinfo (w_dev w)))"
    "bio_comm_feature_rename_by_db h u i n w = Inr (r, w')"
  shows "w_dev w' = w_dev w" "w_priv w' = w_priv w" "frame u b d (w_store w) (w_store w')"
proof -
  obtain db s1 where c: "bio_sto_connect_db (w_store w) = Inr (db, s1)"
    using assms(3) by (cases "bio_sto_connect_db (w_store w)") (auto simp: bio_comm_feature_rename_by_db_def)
  obtain l s2 where g: "bio_sto_get_feature_info h db u b (Some d) i i s1 = Inr (l, s2)"
    using assms c by (cases "bio_sto_get_feature_info h db u b (Some d) i i s1")
      (auto simp: bio_comm_feature_rename_by_db_def)
  let ?xs = "concat (map fi_sample (filter (\<lambda>f. fi_uid f = u \<and> fi_index f = i) l))"
  obtain c3 n3 s3 where q: "rename_samples db u b (Some d) i n ?xs s2 = ((c3, n3), s3)" by (metis prod.exhaust)
  have w': "w' = set_store (bio_sto_disconnect_db s3) w"
    using assms c g q by (simp add: bio_comm_feature_rename_by_db_def Let_def)
  have f1: "frame u b d (w_store w) s1" using connect_frame [of "w_store w" u b d] c by (simp add: on_return_def)
  have f2: "frame u b d s1 s2" using get_feature_info_frame [OF g] by (intro frame_same)
  have f3: "frame u b d s2 s3" if s1: "settled_db (s_db s1)"
  proof (rule rename_samples_frame [OF q, of "sa_dbid ` set ?xs"])
    have "\<exists>r\<in>set (eigen_rows (tables_of (s_db s1))). x = sample_of r \<and> mine u b d r" if "x \<in> set ?xs" for x
    proof -
      have "x \<in> sample_of ` set (filter (row_selected u b (Some d) i i) (eigen_rows (tables_of (s_db s1))))"
        using get_feature_info_frame(3) [OF g] that by (auto simp: samples_from_def)
      then show ?thesis using selected_mine [of u b d i i] biotype_code_nonneg assms(2) by auto
    qed
    moreover have "inj_on r_id (set (eigen_rows (tables_of (s_db s1))))"
      using s1 by (auto simp: settled_db_def keyed_def eigen_rows_def distinct_map split: option.splits)
    ultimately show "own_keys u b d (sa_dbid ` set ?xs) s2"
      using get_feature_info_frame(1) [OF g] by (fastforce simp: own_keys_def sample_of_def dest: inj_onD)
  qed simp
  have "frame u b d (w_store w) s3"
    using f1 f2 f3 by (auto simp: frame_def)
  then show "w_dev w' = w_dev w" "w_priv w' = w_priv w" "frame u b d (w_store w) (w_store w')"
    using w' frame_trans [OF _ disconnect_frame] by (auto simp: set_store_def)
qed

end
