(* ===== verification/Bio_Ops.thy ===== *)
theory Bio_Ops
  imports Bio_Index
begin

text \<open>
  The operations the framework offers on a device (\<open>bio_ops_*\<close> of
  \<open>src/src/lib/biometric_common.c\<close>): each opens the device with the driver's hook, runs the
  hook of the operation, and closes the device.
\<close>

section \<open>The hooks of a driver\<close>

text \<open>
  The function pointers of \<open>struct bio_dev_t\<close>: each may be null. A hook takes the world and
  answers with its result and the world it leaves, or a fault.
\<close>

type_synonym ('p, 'a) call = "'p bio_world \<Rightarrow> ('a \<times> 'p bio_world) res"

record 'p driver_ops =
  ops_driver_init :: "('p, int) call option"
  ops_free :: "('p, unit) call option"
  ops_discover :: "('p, int) call option"
  ops_open :: "('p, int) call option"
  ops_close :: "('p, unit) call option"
  ops_capture :: "(OpsActions \<Rightarrow> ('p, string option) call) option"
  ops_enroll :: "(OpsActions \<Rightarrow> int \<Rightarrow> int \<Rightarrow> string option \<Rightarrow> ('p, int) call) option"
  ops_verify :: "(OpsActions \<Rightarrow> int \<Rightarrow> int \<Rightarrow> ('p, int) call) option"
  ops_identify :: "(OpsActions \<Rightarrow> int \<Rightarrow> int \<Rightarrow> int \<Rightarrow> ('p, int) call) option"
  ops_search :: "(OpsActions \<Rightarrow> int \<Rightarrow> int \<Rightarrow> int \<Rightarrow> ('p, feature_info list) call) option"
  ops_clean :: "(OpsActions \<Rightarrow> int \<Rightarrow> int \<Rightarrow> int \<Rightarrow> ('p, int) call) option"
  ops_get_feature_list :: "(OpsActions \<Rightarrow> int \<Rightarrow> int \<Rightarrow> int \<Rightarrow> ('p, feature_info list) call) option"
  ops_feature_rename :: "(int \<Rightarrow> int \<Rightarrow> string option \<Rightarrow> ('p, int) call) option"
  ops_attach :: "('p, unit) call option"
  ops_detach :: "('p, unit) call option"
  ops_stop_by_user :: "(int \<Rightarrow> ('p, int) call) option"
  ops_get_dev_status_mesg :: "('p bio_world \<Rightarrow> string option) option"
  ops_get_ops_result_mesg :: "('p bio_world \<Rightarrow> string option) option"
  ops_get_notify_mid_mesg :: "('p bio_world \<Rightarrow> string option) option"

fun hook :: "'f option \<Rightarrow> 'f res" where
  "hook None = Inl Null_deref"
| "hook (Some f) = Inr f"

section \<open>The steps all operations share\<close>

definition device_disabled :: "'p bio_world \<Rightarrow> 'p bio_world" where
  "device_disabled w =
     bio_set_notify_mid NOTIFY_COMM_DISABLE
       (bio_set_ops_result OPS_COMM_ERROR (bio_set_dev_status DEVS_COMM_DISABLE w))"

definition unsupported_ops :: "'p driver_ops \<Rightarrow> 'p bio_world \<Rightarrow> 'p bio_world res" where
  "unsupported_ops ops w =
     (let w = bio_set_notify_abs_mid NOTIFY_COMM_UNSUPPORTED_OPS (bio_set_ops_result OPS_COMM_ERROR w)
      in bindR (bio_get_notify_mid_mesg (ops_get_notify_mid_mesg ops) w) (\<lambda>_. Inr w))"

definition open_dev :: "'p driver_ops \<Rightarrow> ('p, int) call" where
  "open_dev ops w = bindR (hook (ops_open ops)) (\<lambda>f. f w)"

definition close_dev :: "'p driver_ops \<Rightarrow> ('p, unit) call" where
  "close_dev ops w = bindR (hook (ops_close ops)) (\<lambda>f. f w)"

definition print_result :: "'p driver_ops \<Rightarrow> 'p bio_world \<Rightarrow> 'p bio_world res" where
  "print_result ops w = bindR (bio_get_ops_result_mesg (ops_get_ops_result_mesg ops) w) (\<lambda>_. Inr w)"

text \<open>
  Open; on success run the hook, or report an unsupported operation with \<open>unsup\<close>; on failure
  answer \<open>failed\<close> of the result of the opening; close in any case and print the result.
\<close>

definition device_session ::
    "'p driver_ops \<Rightarrow> (int \<Rightarrow> 'a) \<Rightarrow> 'a \<Rightarrow> ('p, 'a) call option \<Rightarrow> ('p, 'a) call" where
  "device_session ops failed unsup opn w =
     bindR (open_dev ops w) (\<lambda>(ret, w).
     bindR (if ret = 0
            then case opn of
                   Some f \<Rightarrow> f w
                 | None \<Rightarrow> bindR (unsupported_ops ops w) (\<lambda>w. Inr (unsup, w))
            else Inr (failed ret, w)) (\<lambda>(x, w).
     bindR (close_dev ops w) (\<lambda>(_, w).
     bindR (print_result ops w) (\<lambda>w. Inr (x, w)))))"

section \<open>The operations\<close>

text \<open>A disabled device gives a null string; otherwise a missing result is the empty string.\<close>

definition bio_ops_capture :: "'p driver_ops \<Rightarrow> ('p, string option) call" where
  "bio_ops_capture ops w =
     (if enable (w_dev w) = 0 then Inr (None, device_disabled w)
      else bindR (device_session ops (\<lambda>_. None) None
             (map_option (\<lambda>f w. bindR (f ACTION_START w) (\<lambda>(caps, w).
                Inr (Some (case caps of None \<Rightarrow> '''' | Some s \<Rightarrow> s), w))) (ops_capture ops)) w) (\<lambda>(caps, w).
           Inr (case caps of None \<Rightarrow> Some '''' | Some s \<Rightarrow> Some s, w)))"

definition bio_ops_enroll ::
    "'p driver_ops \<Rightarrow> int \<Rightarrow> int \<Rightarrow> string option \<Rightarrow> ('p, int) call" where
  "bio_ops_enroll ops uid idx idx_name w =
     (if enable (w_dev w) = 0 then Inr (-1, device_disabled w)
      else device_session ops (\<lambda>ret. ret) (-1)
             (map_option (\<lambda>f. f ACTION_START uid idx idx_name) (ops_enroll ops)) w)"

definition bio_ops_verify :: "'p driver_ops \<Rightarrow> int \<Rightarrow> int \<Rightarrow> ('p, int) call" where
  "bio_ops_verify ops uid idx w =
     (if enable (w_dev w) = 0 then Inr (-1, device_disabled w)
      else device_session ops (\<lambda>ret. ret) (-1)
             (map_option (\<lambda>f. f ACTION_START uid idx) (ops_verify ops)) w)"

definition bio_ops_identify :: "'p driver_ops \<Rightarrow> int \<Rightarrow> int \<Rightarrow> int \<Rightarrow> ('p, int) call" where
  "bio_ops_identify ops uid idx_start idx_end w =
     (if enable (w_dev w) = 0 then Inr (-1, device_disabled w)
      else device_session ops (\<lambda>_. -1) (-1)
             (map_option (\<lambda>f. f ACTION_START uid idx_start idx_end) (ops_identify ops)) w)"

definition bio_ops_search :: "'p driver_ops \<Rightarrow> int \<Rightarrow> int \<Rightarrow> int \<Rightarrow> ('p, feature_info list) call" where
  "bio_ops_search ops uid idx_start idx_end w =
     (if enable (w_dev w) = 0 then Inr ([], device_disabled w)
      else device_session ops (\<lambda>_. []) []
             (map_option (\<lambda>f. f ACTION_START uid idx_start idx_end) (ops_search ops)) w)"

definition bio_ops_clean :: "'p driver_ops \<Rightarrow> int \<Rightarrow> int \<Rightarrow> int \<Rightarrow> ('p, int) call" where
  "bio_ops_clean ops uid idx_start idx_end w =
     (if enable (w_dev w) = 0 then Inr (-1, device_disabled w)
      else device_session ops (\<lambda>ret. ret) (-1)
             (map_option (\<lambda>f. f ACTION_START uid idx_start idx_end) (ops_clean ops)) w)"

definition bio_ops_get_feature_list ::
    "host \<Rightarrow> 'p driver_ops \<Rightarrow> int \<Rightarrow> int \<Rightarrow> int \<Rightarrow> ('p, feature_info list) call" where
  "bio_ops_get_feature_list h ops uid idx_start idx_end w =
     (if enable (w_dev w) = 0 then Inr ([], device_disabled w)
      else bindR (case ops_get_feature_list ops of
             Some f \<Rightarrow>
               bindR (open_dev ops w) (\<lambda>(ret, w).
               bindR (if ret = 0 then f ACTION_START uid idx_start idx_end w else Inr ([], w)) (\<lambda>(l, w).
               bindR (close_dev ops w) (\<lambda>(_, w). Inr (l, w))))
           | None \<Rightarrow> bio_common_get_feature_list h ACTION_START uid idx_start idx_end w) (\<lambda>(l, w).
           bindR (print_result ops w) (\<lambda>w. Inr (l, w))))"

definition bio_ops_feature_rename ::
    "host \<Rightarrow> 'p driver_ops \<Rightarrow> int \<Rightarrow> int \<Rightarrow> string option \<Rightarrow> ('p, int) call" where
  "bio_ops_feature_rename h ops uid idx new_name w =
     (case ops_feature_rename ops of
        Some f \<Rightarrow>
          if enable (w_dev w) = 0 then Inr (-1, device_disabled w)
          else bindR (open_dev ops w) (\<lambda>(ret, w).
               bindR (if ret = 0 then bindR (f uid idx new_name w) (\<lambda>(_, w). Inr w) else Inr w) (\<lambda>w.
               bindR (close_dev ops w) (\<lambda>(_, w). Inr (ret, w))))
      | None \<Rightarrow>
          bindR (bio_comm_feature_rename_by_db h uid idx new_name
                   (bio_set_dev_abs_status DEVS_RENAME_DOING w)) (\<lambda>(ret, w).
          Inr (ret, if ret = 0
                    then bio_set_all_abs_status DEVS_COMM_IDLE OPS_RENAME_SUCCESS NOTIFY_RENAME_SUCCESS w
                    else bio_set_all_abs_status DEVS_COMM_IDLE OPS_RENAME_FAIL NOTIFY_RENAME_INCOMPLETE w)))"

definition bio_ops_stop_ops :: "'p driver_ops \<Rightarrow> int \<Rightarrow> ('p, int) call" where
  "bio_ops_stop_ops ops waiting_sec w =
     bindR (hook (ops_stop_by_user ops)) (\<lambda>f.
     bindR (c_int (waiting_sec * 1000)) (\<lambda>ms. f ms w))"

definition bio_set_ops_timeout_ms :: "int \<Rightarrow> 'p bio_world \<Rightarrow> 'p bio_world" where
  "bio_set_ops_timeout_ms t w = w\<lparr>bio_ops_timeout_ms := t\<rparr>"

definition bio_get_ops_timeout_ms :: "'p bio_world \<Rightarrow> int" where
  "bio_get_ops_timeout_ms w = bio_ops_timeout_ms w"

section \<open>What a driver promises the framework\<close>

text \<open>
  \<open>guar u\<close> relates the world before and after a call made on behalf of the user \<open>u\<close>: the hooks
  for \<open>u\<close>, opening and closing, the status functions and the default listing and renaming
  all keep to it. The framework's operations then keep to it too.
\<close>

locale driver_contract =
  fixes h :: host
    and ops :: "'p driver_ops"
    and guar :: "int \<Rightarrow> 'p bio_world \<Rightarrow> 'p bio_world \<Rightarrow> bool"
  assumes guar_refl: "guar u w w"
    and guar_trans: "guar u w w' \<Longrightarrow> guar u w' w'' \<Longrightarrow> guar u w w''"
    and guar_dev_status: "guar u w (bio_set_dev_status s w)"
    and guar_ops_result: "guar u w (bio_set_ops_result s w)"
    and guar_notify_mid: "guar u w (bio_set_notify_mid s w)"
    and guar_notify_abs_mid: "guar u w (bio_set_notify_abs_mid s w)"
    and guar_all_status: "guar u w (bio_set_all_abs_status d r m w)"
    and guar_open: "ops_open ops = Some f0 \<Longrightarrow> on_return (f0 w) (\<lambda>(_, w'). guar u w w')"
    and guar_close: "ops_close ops = Some f1 \<Longrightarrow> on_return (f1 w) (\<lambda>(_, w'). guar u w w')"
    and guar_capture: "ops_capture ops = Some f2 \<Longrightarrow> on_return (f2 a w) (\<lambda>(_, w'). guar u w w')"
    and guar_enroll: "ops_enroll ops = Some f3 \<Longrightarrow> on_return (f3 a u i n w) (\<lambda>(_, w'). guar u w w')"
    and guar_verify: "ops_verify ops = Some f4 \<Longrightarrow> on_return (f4 a u i w) (\<lambda>(_, w'). guar u w w')"
    and guar_identify: "ops_identify ops = Some f5 \<Longrightarrow> on_return (f5 a u i j w) (\<lambda>(_, w'). guar u w w')"
    and guar_search: "ops_search ops = Some f6 \<Longrightarrow> on_return (f6 a u i j w) (\<lambda>(_, w'). guar u w w')"
    and guar_clean: "ops_clean ops = Some f7 \<Longrightarrow> on_return (f7 a u i j w) (\<lambda>(_, w'). guar u w w')"
    and guar_list: "ops_get_feature_list ops = Some f8 \<Longrightarrow> on_return (f8 a u i j w) (\<lambda>(_, w'). guar u w w')"
    and guar_rename: "ops_feature_rename ops = Some f9 \<Longrightarrow> on_return (f9 u i n w) (\<lambda>(_, w'). guar u w w')"
    and guar_stop: "ops_stop_by_user ops = Some f10 \<Longrightarrow> on_return (f10 i w) (\<lambda>(_, w'). guar u w w')"
    and guar_default_list:
      "ops_get_feature_list ops = None \<Longrightarrow>
       on_return (bio_common_get_feature_list h a u i j w) (\<lambda>(_, w'). guar u w w')"
    and guar_default_rename:
      "ops_feature_rename ops = None \<Longrightarrow>
       on_return (bio_comm_feature_rename_by_db h u i n w) (\<lambda>(_, w'). guar u w w')"
begin

lemma guar_disabled: "guar u w (device_disabled w)"
  unfolding device_disabled_def
  by (rule guar_trans [OF guar_trans [OF guar_dev_status guar_ops_result] guar_notify_mid])

lemma open_dev_guar: "on_return (open_dev ops w) (\<lambda>(_, w'). guar u w w')"
  by (cases "ops_open ops") (simp_all add: open_dev_def guar_open)

lemma close_dev_guar: "on_return (close_dev ops w) (\<lambda>(_, w'). guar u w w')"
  by (cases "ops_close ops") (simp_all add: close_dev_def guar_close)

lemma unsupported_guar: "on_return (unsupported_ops ops w) (guar u w)"
  using guar_trans [OF guar_ops_result guar_notify_abs_mid]
  by (simp add: unsupported_ops_def Let_def on_return_bind) (simp add: on_return_def)

lemma print_result_guar: "on_return (print_result ops w) (\<lambda>w'. w' = w)"
  by (simp add: print_result_def on_return_bind) (simp add: on_return_def)

text \<open>Two calls in sequence, the second from the world the first leaves.\<close>

lemma guar_seq:
  assumes "on_return m (\<lambda>(_, w'). guar u w w')" "\<And>x w'. on_return (k x w') (\<lambda>(_, w''). guar u w' w'')"
  shows "on_return (bindR m (\<lambda>(x, w'). k x w')) (\<lambda>(_, w''). guar u w w'')"
proof (cases m)
  case (Inr p)
  obtain x w' where p: "p = (x, w')" by fastforce
  have "guar u w w'" using assms(1) Inr p by simp
  then have "on_return (k x w') (\<lambda>(_, w''). guar u w w'')"
    using assms(2) [of x w'] guar_trans by (auto simp: on_return_def)
  then show ?thesis using Inr p by simp
qed simp

lemma closed_guar: "on_return (bindR (close_dev ops w) (\<lambda>(_, w). Inr (x, w))) (\<lambda>(_, w'). guar u w w')"
  by (rule guar_seq [OF close_dev_guar]) (simp add: guar_refl)

lemma printed_guar: "on_return (bindR (print_result ops w) (\<lambda>w. Inr (x, w))) (\<lambda>(_, w'). guar u w w')"
  by (auto simp: print_result_def bindR_eq_Inr on_return_def guar_refl)

lemma session_guar:
  assumes "\<And>f w. opn = Some f \<Longrightarrow> on_return (f w) (\<lambda>(_, w'). guar u w w')"
  shows "on_return (device_session ops failed unsup opn w) (\<lambda>(_, w'). guar u w w')"
proof -
  have "on_return (bindR (unsupported_ops ops w) (\<lambda>w. Inr (unsup, w))) (\<lambda>(_, w'). guar u w w')" for w
    using unsupported_guar [of w u] by (simp add: on_return_bind)
  then have body: "on_return (if ret = 0 then case opn of Some f \<Rightarrow> f w
        | None \<Rightarrow> bindR (unsupported_ops ops w) (\<lambda>w. Inr (unsup, w)) else Inr (failed ret, w))
      (\<lambda>(_, w'). guar u w w')" for ret w
    using assms by (cases opn) (auto simp: guar_refl)
  show ?thesis
    unfolding device_session_def
    by (rule guar_seq [OF open_dev_guar guar_seq [OF body guar_seq [OF close_dev_guar printed_guar]]])
qed

lemma session_ops_guar:
  "on_return (bio_ops_capture ops w) (\<lambda>(_, w'). guar u w w')"
  "on_return (bio_ops_enroll ops u i n w) (\<lambda>(_, w'). guar u w w')"
  "on_return (bio_ops_verify ops u i w) (\<lambda>(_, w'). guar u w w')"
  "on_return (bio_ops_identify ops u i j w) (\<lambda>(_, w'). guar u w w')"
  "on_return (bio_ops_search ops u i j w) (\<lambda>(_, w'). guar u w w')"
  "on_return (bio_ops_clean ops u i j w) (\<lambda>(_, w'). guar u w w')"
proof -
  have "on_return (bindR (f a w) (\<lambda>(caps, w). Inr (Some (case caps of None \<Rightarrow> '''' | Some s \<Rightarrow> s), w)))
      (\<lambda>(_, w'). guar u w w')" if "ops_capture ops = Some f" for f a w
    by (rule guar_seq [OF guar_capture [OF that]]) (simp add: guar_refl)
  then have "on_return (bindR (device_session ops (\<lambda>_. None) None
             (map_option (\<lambda>f w. bindR (f ACTION_START w) (\<lambda>(caps, w).
                Inr (Some (case caps of None \<Rightarrow> '''' | Some s \<Rightarrow> s), w))) (ops_capture ops)) w) (\<lambda>(caps, w).
           Inr (case caps of None \<Rightarrow> Some '''' | Some s \<Rightarrow> Some s, w))) (\<lambda>(_, w'). guar u w w')"
    by (intro guar_seq [OF session_guar]) (auto simp: guar_refl)
  then show "on_return (bio_ops_capture ops w) (\<lambda>(_, w'). guar u w w')"
    by (simp add: bio_ops_capture_def guar_disabled)
  show "on_return (bio_ops_enroll ops u i n w) (\<lambda>(_, w'). guar u w w')"
    by (clarsimp simp: bio_ops_enroll_def guar_disabled) (rule session_guar, clarsimp, erule guar_enroll)
  show "on_return (bio_ops_verify ops u i w) (\<lambda>(_, w'). guar u w w')"
    by (clarsimp simp: bio_ops_verify_def guar_disabled) (rule session_guar, clarsimp, erule guar_verify)
  show "on_return (bio_ops_identify ops u i j w) (\<lambda>(_, w'). guar u w w')"
    by (clarsimp simp: bio_ops_identify_def guar_disabled) (rule session_guar, clarsimp, erule guar_identify)
  show "on_return (bio_ops_search ops u i j w) (\<lambda>(_, w'). guar u w w')"
    by (clarsimp simp: bio_ops_search_def guar_disabled) (rule session_guar, clarsimp, erule guar_search)
  show "on_return (bio_ops_clean ops u i j w) (\<lambda>(_, w'). guar u w w')"
    by (clarsimp simp: bio_ops_clean_def guar_disabled) (rule session_guar, clarsimp, erule guar_clean)
qed

lemma list_guar: "on_return (bio_ops_get_feature_list h ops u i j w) (\<lambda>(_, w'). guar u w w')"
proof (cases "ops_get_feature_list ops")
  case None
  then show ?thesis
    unfolding bio_ops_get_feature_list_def
    by (simp add: guar_disabled) (intro impI guar_seq [OF guar_default_list] printed_guar)
next
  case (Some f)
  have "on_return (if ret = 0 then f ACTION_START u i j w else Inr ([], w)) (\<lambda>(_, w'). guar u w w')"
    for ret :: int and w
    using guar_list [OF Some] by (simp add: guar_refl)
  then show ?thesis
    unfolding bio_ops_get_feature_list_def
    by (simp add: guar_disabled Some)
       (intro impI guar_seq [OF guar_seq [OF open_dev_guar]] guar_seq closed_guar printed_guar)
qed

lemma rename_guar: "on_return (bio_ops_feature_rename h ops u i n w) (\<lambda>(_, w'). guar u w w')"
proof (cases "ops_feature_rename ops")
  case None
  have doing: "guar u w (bio_set_dev_abs_status s w)" for s w
    using guar_dev_status by (simp add: bio_set_dev_abs_status_def bio_set_dev_status_def)
  have run: "on_return (bindR (bio_comm_feature_rename_by_db h u i n w) (\<lambda>(ret, w).
          Inr (ret, if ret = 0
                    then bio_set_all_abs_status DEVS_COMM_IDLE OPS_RENAME_SUCCESS NOTIFY_RENAME_SUCCESS w
                    else bio_set_all_abs_status DEVS_COMM_IDLE OPS_RENAME_FAIL NOTIFY_RENAME_INCOMPLETE w)))
      (\<lambda>(_, w'). guar u w w')" for w
    by (rule guar_seq [OF guar_default_rename [OF None]]) (simp add: guar_all_status)
  show ?thesis
    unfolding bio_ops_feature_rename_def None option.case
    by (rule on_return_mono [OF run]) (auto intro: guar_trans [OF doing])
next
  case (Some f)
  have run: "on_return (bindR (if ret = 0 then bindR (f u i n w) (\<lambda>(_, w). Inr w) else Inr w)
      (\<lambda>w. bindR (close_dev ops w) (\<lambda>(_, w). Inr (ret, w)))) (\<lambda>(_, w'). guar u w w')" for ret :: int and w
  proof (cases "ret = 0")
    case True
    show ?thesis
    proof (cases "f u i n w")
      case (Inr p)
      obtain r w1 where p: "p = (r, w1)" by fastforce
      have "guar u w w1" using guar_rename [OF Some, of u i n w] Inr p by simp
      then have "on_return (bindR (close_dev ops w1) (\<lambda>(_, w). Inr (ret, w))) (\<lambda>(_, w'). guar u w w')"
        by (intro on_return_mono [OF closed_guar [of w1 ret u]]) (auto intro: guar_trans)
      then show ?thesis using True Inr p by simp
    qed (simp add: True)
  qed (simp add: closed_guar)
  then show ?thesis
    unfolding bio_ops_feature_rename_def
    by (simp add: Some guar_disabled) (intro impI guar_seq [OF open_dev_guar run])
qed

lemma stop_guar: "on_return (bio_ops_stop_ops ops t w) (\<lambda>(_, w'). guar u w w')"
  by (cases "ops_stop_by_user ops") (auto simp: bio_ops_stop_ops_def on_return_bind guar_stop c_int_def)

end

section \<open>What the status functions leave alone\<close>

lemma setters_dev [simp]:
  "w_dev (bio_set_dev_status s w) = (w_dev w)\<lparr>dev_status := s\<rparr>"
  "w_dev (bio_set_dev_abs_status s w) = (w_dev w)\<lparr>dev_status := s\<rparr>"
  "w_dev (bio_set_ops_result r w) =
     (w_dev w)\<lparr>ops_result := dev_status (w_dev w) sdiv 100 * 100 + r smod 100\<rparr>"
  "w_dev (bio_set_ops_abs_result r w) = (w_dev w)\<lparr>ops_result := r\<rparr>"
  "w_dev (bio_set_notify_mid m w) =
     (w_dev w)\<lparr>notify_mid := dev_status (w_dev w) sdiv 100 * 100 + m smod 100\<rparr>"
  "w_dev (bio_set_notify_abs_mid m w) = (w_dev w)\<lparr>notify_mid := m\<rparr>"
  "w_dev (bio_set_all_abs_status s r m w) = (w_dev w)\<lparr>dev_status := s, ops_result := r, notify_mid := m\<rparr>"
  by (simp_all add: setter_defs Let_def bio_get_dev_status_def)

lemma setters_more:
  "world.more (bio_set_dev_status s w) = world.more w"
  "world.more (bio_set_dev_abs_status s w) = world.more w"
  "world.more (bio_set_ops_result r w) = world.more w"
  "world.more (bio_set_ops_abs_result r w) = world.more w"
  "world.more (bio_set_notify_mid m w) = world.more w"
  "world.more (bio_set_notify_abs_mid m w) = world.more w"
  "world.more (bio_set_all_abs_status s r m w) = world.more w"
  by (simp_all add: setter_defs Let_def)

text \<open>The fields of the extension are functions of it.\<close>

lemma more_fields:
  assumes "world.more w = world.more w'"
  shows "w_store w = w_store w'" "w_priv w = w_priv w'" "bio_ops_timeout_ms w = bio_ops_timeout_ms w'"
  using assms by (cases w; cases w'; simp)+

lemmas setters_store [simp] = setters_more [THEN more_fields(1)]
lemmas setters_priv [simp] = setters_more [THEN more_fields(2)]
lemmas setters_timeout [simp] = setters_more [THEN more_fields(3)]

section \<open>Disabled devices, failed openings, lost results\<close>

text \<open>The world after an operation on a disabled device: only the three status words differ.\<close>

lemma device_disabled_dev [simp]:
  "w_dev (device_disabled w) = (w_dev w)\<lparr>dev_status := DEVS_COMM_DISABLE,
     ops_result := OPS_COMM_ERROR, notify_mid := NOTIFY_COMM_DISABLE\<rparr>"
  by (simp add: device_disabled_def sdiv_nonneg smod_nonneg)

lemma device_disabled_more [simp]:
  "w_store (device_disabled w) = w_store w" "w_priv (device_disabled w) = w_priv w"
  by (simp_all add: device_disabled_def)

text \<open>
  On a disabled device no hook of the driver runs and nothing is stored: the operations
  answer their failure value and set the status words to disabled.
\<close>

theorem disabled_device_untouched:
  assumes "enable (w_dev w) = 0"
  shows "bio_ops_capture ops w = Inr (None, device_disabled w)
    \<and> bio_ops_enroll ops uid idx name w = Inr (-1, device_disabled w)
    \<and> bio_ops_verify ops uid idx w = Inr (-1, device_disabled w)
    \<and> bio_ops_identify ops uid i j w = Inr (-1, device_disabled w)
    \<and> bio_ops_search ops uid i j w = Inr ([], device_disabled w)
    \<and> bio_ops_clean ops uid i j w = Inr (-1, device_disabled w)
    \<and> bio_ops_get_feature_list h ops uid i j w = Inr ([], device_disabled w)
    \<and> w_store (device_disabled w) = w_store w \<and> w_priv (device_disabled w) = w_priv w
    \<and> w_dev (device_disabled w) = (w_dev w)\<lparr>dev_status := DEVS_COMM_DISABLE,
          ops_result := OPS_COMM_ERROR, notify_mid := NOTIFY_COMM_DISABLE\<rparr>"
  using assms
  by (simp add: bio_ops_capture_def bio_ops_enroll_def bio_ops_verify_def bio_ops_identify_def
      bio_ops_search_def bio_ops_clean_def bio_ops_get_feature_list_def)

definition no_hooks :: "unit driver_ops" where
  "no_hooks = \<lparr>ops_driver_init = None, ops_free = None, ops_discover = None, ops_open = None, ops_close = None,
     ops_capture = None, ops_enroll = None, ops_verify = None, ops_identify = None, ops_search = None,
     ops_clean = None, ops_get_feature_list = None, ops_feature_rename = None, ops_attach = None,
     ops_detach = None, ops_stop_by_user = None, ops_get_dev_status_mesg = None,
     ops_get_ops_result_mesg = None, ops_get_notify_mid_mesg = None\<rparr>"

theorem disabled_device_untouched_witness:
  "bio_ops_verify no_hooks 7 0 ((demo_device_world (ready_store []))\<lparr>w_dev := idle_dev\<lparr>enable := 0\<rparr>\<rparr>) =
     Inr (-1, device_disabled ((demo_device_world (ready_store []))\<lparr>w_dev := idle_dev\<lparr>enable := 0\<rparr>\<rparr>))"
  using disabled_device_untouched [of "(demo_device_world (ready_store []))\<lparr>w_dev := idle_dev\<lparr>enable := 0\<rparr>\<rparr>"]
  by simp

text \<open>
  C34. For a driver without a hook of its own, renaming through the framework answers 0 on a
  working database, gives the new name to exactly the current rows of the feature, and leaves
  the device idle with a success; it does so on a disabled device too, which no other
  operation does.
\<close>

theorem rename_by_framework:
  assumes "ops_feature_rename ops = None"
    "store_ready h (w_dev w) (w_store w)" "device_name (w_dev w) = Some d" "0 \<le> uid" "0 \<le> idx"
    "inj_on r_id (set (eigen_rows (tables_of (s_db (w_store w)))))"
  shows "\<exists>w'. bio_ops_feature_rename h ops uid idx (Some name) w = Inr (0, w')
    \<and> w_dev w' = (w_dev w)\<lparr>dev_status := DEVS_COMM_IDLE, ops_result := OPS_RENAME_SUCCESS,
          notify_mid := NOTIFY_RENAME_SUCCESS\<rparr>
    \<and> eigen_rows (tables_of (s_db (w_store w'))) =
      map (\<lambda>r. if row_selected uid (biotype_code (biotype (bioinfo (w_dev w)))) (Some d) idx idx r
            \<and> current h (s_users (w_store w)) r then r\<lparr>r_index_name := name\<rparr> else r)
        (eigen_rows (tables_of (s_db (w_store w))))"
proof -
  let ?w = "bio_set_dev_abs_status DEVS_RENAME_DOING w"
  have "store_ready h (w_dev ?w) (w_store ?w)" using assms(2) by (simp add: store_ready_def)
  then obtain w' where "bio_comm_feature_rename_by_db h uid idx (Some name) ?w = Inr (0, w')"
    "w_dev w' = w_dev ?w"
    "eigen_rows (tables_of (s_db (w_store w'))) =
      map (\<lambda>r. if row_selected uid (biotype_code (biotype (bioinfo (w_dev w)))) (Some d) idx idx r
            \<and> current h (s_users (w_store w)) r then r\<lparr>r_index_name := name\<rparr> else r)
        (eigen_rows (tables_of (s_db (w_store w))))"
    using rename_lemma [of h ?w d uid idx name] assms(3-6) by auto
  then show ?thesis
    using assms(1) by (simp add: bio_ops_feature_rename_def)
qed

theorem rename_by_framework_witness:
  "\<exists>w'. bio_ops_feature_rename demo_host no_hooks 7 0 (Some ''index'')
      (demo_device_world (ready_store [demo_row 1 7 UUID_DEFAULT 0 0])) = Inr (0, w')
    \<and> map r_index_name (eigen_rows (tables_of (s_db (w_store w')))) = [''index'']"
proof -
  have "current demo_host (s_users (ready_store [demo_row 1 7 UUID_DEFAULT 0 0])) (demo_row 1 7 UUID_DEFAULT 0 0)"
    by (simp add: current_def demo_settled_absent ready_store_def)
  then show ?thesis
    using rename_by_framework [of no_hooks demo_host "demo_device_world (ready_store [demo_row 1 7 UUID_DEFAULT 0 0])"
        "''aes2501''" 7 0 "''index''"] ready_one
    by (auto simp: demo_device_world_def idle_dev_def row_selected_def ready_store_def demo_store_def
        tables_of_def eigen_rows_def no_hooks_def)
qed

text \<open>When the driver renames by itself, its answer is lost.\<close>

lemma rename_result_lost:
  assumes "ops_feature_rename ops = Some f" "enable (w_dev w) \<noteq> 0" "open_dev ops w = Inr (0, w')"
  shows "on_return (bio_ops_feature_rename h ops uid idx name w) (\<lambda>(ret, _). ret = 0)"
  using assms by (simp add: bio_ops_feature_rename_def on_return_bind) (simp add: on_return_def)

end
