(* ===== verification/Bio_Devlist.thy ===== *)
theory Bio_Devlist
  imports Bio_Ops Bio_Version Bio_Db_Upgrade Template_Codec
begin

text \<open>
  The lists of drivers and devices of the framework (\<open>src/src/lib/biometric_common.c\<close>,
  \<open>biometric_config.c\<close>): loading the configured drivers, finding their devices, and USB devices
  that come and go.
\<close>

section \<open>The configuration file\<close>

text \<open>
  What \<open>GKeyFile\<close> answers, group and key given; \<open>None\<close> stands for a \<open>GError\<close>, with which
  \<open>g_key_file_get_boolean\<close> returns \<open>FALSE\<close>.
\<close>

record key_file =
  kf_groups :: "string list"
  kf_string :: "string \<Rightarrow> string \<Rightarrow> string option"
  kf_boolean :: "string \<Rightarrow> string \<Rightarrow> bool option"

definition bio_dev_is_enable :: "key_file \<Rightarrow> bio_dev \<Rightarrow> int" where
  "bio_dev_is_enable conf dev =
     (case device_name dev of
        None \<Rightarrow> 0
      | Some name \<Rightarrow> (case kf_boolean conf name ''Enable'' of None \<Rightarrow> 0 | Some b \<Rightarrow> if b then 1 else 0))"

definition bio_dev_set_serial_path :: "key_file \<Rightarrow> bio_dev \<Rightarrow> (int \<times> bio_dev) res" where
  "bio_dev_set_serial_path conf dev =
     (let dev = dev\<lparr>serial_path := ''''\<rparr>
      in case device_name dev of
           None \<Rightarrow> Inr (-1, dev)
         | Some name \<Rightarrow>
             (case kf_string conf name ''Path'' of
                None \<Rightarrow> Inr (-1, dev)
              | Some path \<Rightarrow>
                  if path = '''' then Inr (-1, dev)
                  else bindR (fits (length path + 1) MAX_PATH_LEN) (\<lambda>_.
                       Inr (0, dev\<lparr>serial_path := path\<rparr>))))"

section \<open>The lists\<close>

text \<open>
  \<open>bio_drv_list\<close> holds the structures, with their hooks; \<open>bio_dev_list\<close> holds pointers to some of
  them, as positions in \<open>bio_drv_list\<close>. \<open>fw_world\<close> has everything else that the hooks share: its
  device is the one operated on last. \<open>hotplug_calls\<close> and \<open>hotplug_watched\<close> record the calls of
  the hotplug listener and what \<open>libusb\<close> was asked to report (arrivals: \<open>True\<close>).
\<close>

type_synonym 'p driver = "bio_dev \<times> 'p driver_ops"

record 'p framework =
  bio_drv_list :: "'p driver list"
  bio_dev_list :: "nat list"
  fw_world :: "'p bio_world"
  bio_usb_device_hot_plug_callback :: "nat option"
  hotplug_calls :: "(nat \<times> int \<times> int \<times> int) list"
  hotplug_watched :: "(bool \<times> 16 word \<times> 16 word) list"

definition fw_dev :: "'p framework \<Rightarrow> nat \<Rightarrow> bio_dev" where
  "fw_dev fw i = fst (bio_drv_list fw ! i)"

definition fw_ops :: "'p framework \<Rightarrow> nat \<Rightarrow> 'p driver_ops" where
  "fw_ops fw i = snd (bio_drv_list fw ! i)"

definition set_dev :: "nat \<Rightarrow> bio_dev \<Rightarrow> 'p framework \<Rightarrow> 'p framework" where
  "set_dev i d fw = fw\<lparr>bio_drv_list := (bio_drv_list fw)[i := (d, fw_ops fw i)]\<rparr>"

text \<open>Run a hook, or an operation of the framework, on the \<open>i\<close>-th structure.\<close>

definition on_dev :: "nat \<Rightarrow> ('p, 'a) call \<Rightarrow> 'p framework \<Rightarrow> ('a \<times> 'p framework) res" where
  "on_dev i f fw =
     bindR (f ((fw_world fw)\<lparr>w_dev := fw_dev fw i\<rparr>)) (\<lambda>(x, w).
     Inr (x, set_dev i (w_dev w) (fw\<lparr>fw_world := w\<rparr>)))"

definition hook_on :: "nat \<Rightarrow> ('p driver_ops \<Rightarrow> ('p, 'a) call option) \<Rightarrow> 'p framework \<Rightarrow> ('a \<times> 'p framework) res" where
  "hook_on i sel fw = bindR (hook (sel (fw_ops fw i))) (\<lambda>f. on_dev i f fw)"

section \<open>Releasing\<close>

text \<open>\<open>bio_dev_free\<close> runs the driver's hook; the memory is gone with the list.\<close>

definition bio_dev_free :: "'p driver \<Rightarrow> 'p bio_world \<Rightarrow> 'p bio_world res" where
  "bio_dev_free = (\<lambda>(d, ops) w. bindR (hook (ops_free ops)) (\<lambda>f. bindR (f (w\<lparr>w_dev := d\<rparr>)) (\<lambda>(_, w). Inr w)))"

fun free_all :: "'p driver list \<Rightarrow> 'p bio_world \<Rightarrow> 'p bio_world res" where
  "free_all [] w = Inr w"
| "free_all (d # ds) w = bindR (bio_dev_free d w) (free_all ds)"

definition bio_free_driver :: "'p framework \<Rightarrow> 'p framework res" where
  "bio_free_driver fw =
     bindR (free_all (bio_drv_list fw) (fw_world fw)) (\<lambda>w.
     Inr (fw\<lparr>bio_drv_list := [], fw_world := w\<rparr>))"

definition bio_free_device :: "'p framework \<Rightarrow> 'p framework" where
  "bio_free_device fw = fw\<lparr>bio_dev_list := []\<rparr>"

section \<open>Loading the drivers\<close>

text \<open>
  A driver file as the loader sees it: \<open>ops_configure\<close> is null when the symbol is missing. It is
  given the drivers loaded so far (for \<open>bio_get_empty_driver_id\<close>), the configuration, and a world
  with a zeroed device; it fills in the device and its hooks.
\<close>

type_synonym 'p configure =
  "bio_dev list \<Rightarrow> key_file \<Rightarrow> 'p bio_world \<Rightarrow> (int \<times> 'p driver_ops \<times> 'p bio_world) res"

record 'p plugin =
  ops_configure :: "'p configure option"

text \<open>\<open>bio_dev_new\<close>: all bytes zero.\<close>

definition bio_dev_new :: bio_dev where
  "bio_dev_new = \<lparr>driver_id = 0, device_name = None, full_name = None,
     drv_api_version = \<lparr>v_major = 0, v_minor = 0, v_function = 0\<rparr>, enable = 0, dev_num = 0,
     bioinfo = \<lparr>biotype = BioT_FingerPrint, stotype = StoT_Device, eigtype = EigT_Data,
       vertype = VerT_Hardware, idtype = IdT_Hardware, bustype = BusT_Serial\<rparr>,
     serial_path = '''', id_table = None, driver_data = 0, dev_status = 0, ops_result = 0,
     notify_mid = 0, ops_status_changed_callback = None\<rparr>"

text \<open>The entries before the terminating one.\<close>

definition table_entries :: "usb_id list \<Rightarrow> usb_id list" where
  "table_entries = takeWhile (\<lambda>e. idVendor e \<noteq> 0)"

definition watch_usb :: "bio_dev \<Rightarrow> 'p framework \<Rightarrow> 'p framework res" where
  "watch_usb dev fw =
     (if bustype (bioinfo dev) \<noteq> BusT_USB then Inr fw
      else case id_table dev of
             None \<Rightarrow> Inl Null_deref
           | Some t \<Rightarrow> Inr (fw\<lparr>hotplug_watched := hotplug_watched fw @
               concat (map (\<lambda>e. [(True, idVendor e, idProduct e), (False, idVendor e, idProduct e)])
                          (table_entries t))\<rparr>))"

text \<open>What happens to one loaded plugin: \<open>None\<close> when it is dropped.\<close>

definition init_driver ::
    "key_file \<Rightarrow> 'p configure \<Rightarrow> 'p framework \<Rightarrow> ('p driver option \<times> 'p bio_world) res" where
  "init_driver conf cfg fw =
     bindR (cfg (map fst (bio_drv_list fw)) conf ((fw_world fw)\<lparr>w_dev := bio_dev_new\<rparr>)) (\<lambda>(r, ops, w).
     let v = drv_api_version (w_dev w)
     in if r \<noteq> 0 then Inr (None, w)
        else if bio_check_drv_api_version (v_major v) (v_minor v) (v_function v) \<noteq> 0 then Inr (None, w)
        else bindR (hook (ops_driver_init ops)) (\<lambda>f.
             bindR (f w) (\<lambda>(r, w).
             if r < 0
             then bindR (bio_dev_free (w_dev w, ops) w) (\<lambda>w. Inr (None, w))
             else let w = bio_set_dev_status DEVS_COMM_IDLE w;
                      w = bio_set_notify_mid NOTIFY_COMM_IDLE (bio_set_ops_result OPS_COMM_SUCCESS w);
                      w = upd_dev (\<lambda>d. d\<lparr>enable := bio_dev_is_enable conf d\<rparr>) w
                  in Inr (Some (w_dev w, ops), w))))"

text \<open>The loop over the groups: the flag tells whether the function goes on to return its list.\<close>

fun load_drivers ::
    "key_file \<Rightarrow> (string \<Rightarrow> 'p plugin option) \<Rightarrow> string list \<Rightarrow> 'p framework \<Rightarrow> (bool \<times> 'p framework) res" where
  "load_drivers conf dlopen [] fw = Inr (True, fw)"
| "load_drivers conf dlopen (g # gs) fw =
     (if g = '''' then load_drivers conf dlopen gs fw
      else case kf_string conf g ''Driver'' of
             None \<Rightarrow> bindR (bio_free_driver fw) (\<lambda>fw. Inr (False, fw))
           | Some path \<Rightarrow>
               if path = '''' then bindR (bio_free_driver fw) (\<lambda>fw. Inr (False, fw))
               else case dlopen path of
                      None \<Rightarrow> load_drivers conf dlopen gs fw
                    | Some p \<Rightarrow>
                        bindR (hook (ops_configure p)) (\<lambda>cfg.
                        bindR (init_driver conf cfg fw) (\<lambda>(d, w).
                        case d of
                          None \<Rightarrow> load_drivers conf dlopen gs (fw\<lparr>fw_world := w\<rparr>)
                        | Some d \<Rightarrow>
                            bindR (watch_usb (fst d) (fw\<lparr>fw_world := w, bio_drv_list := bio_drv_list fw @ [d]\<rparr>))
                              (load_drivers conf dlopen gs))))"

definition bio_driver_list_init ::
    "key_file option \<Rightarrow> (string \<Rightarrow> 'p plugin option) \<Rightarrow> 'p framework \<Rightarrow> ('p driver list \<times> 'p framework) res" where
  "bio_driver_list_init conf dlopen fw =
     (case conf of
        None \<Rightarrow> Inr ([], fw)
      | Some conf \<Rightarrow>
          bindR (load_drivers conf dlopen (kf_groups conf) fw) (\<lambda>(ok, fw).
          Inr (if ok then bio_drv_list fw else [], fw)))"

section \<open>Finding the devices\<close>

definition discover :: "nat \<Rightarrow> 'p framework \<Rightarrow> 'p framework res" where
  "discover i fw =
     bindR (hook_on i ops_discover fw) (\<lambda>(n, fw).
     Inr (set_dev i ((fw_dev fw i)\<lparr>dev_num := n\<rparr>) fw))"

fun discover_devices :: "nat list \<Rightarrow> 'p framework \<Rightarrow> (nat list \<times> 'p framework) res" where
  "discover_devices [] fw = Inr ([], fw)"
| "discover_devices (i # is) fw =
     (if enable (fw_dev fw i) = 0 then discover_devices is fw
      else bindR (discover i fw) (\<lambda>fw.
           bindR (discover_devices is fw) (\<lambda>(l, fw').
           Inr (if 0 < dev_num (fw_dev fw i) then i # l else l, fw'))))"

definition bio_device_list_init :: "'p framework \<Rightarrow> (nat list \<times> 'p framework) res" where
  "bio_device_list_init fw =
     bindR (discover_devices [0..<length (bio_drv_list fw)] fw) (\<lambda>(l, fw).
     Inr (l, fw\<lparr>bio_dev_list := l\<rparr>))"

section \<open>Devices that come and go\<close>

abbreviation (input) USB_HOT_PLUG_ATTACHED :: int where "USB_HOT_PLUG_ATTACHED \<equiv> 1"
abbreviation (input) USB_HOT_PLUG_DETACHED :: int where "USB_HOT_PLUG_DETACHED \<equiv> -1"

definition hot_plug_common_callback :: "int \<Rightarrow> int \<Rightarrow> int \<Rightarrow> 'p framework \<Rightarrow> 'p framework" where
  "hot_plug_common_callback drvid action n fw =
     (case bio_usb_device_hot_plug_callback fw of
        None \<Rightarrow> fw
      | Some f \<Rightarrow> fw\<lparr>hotplug_calls := hotplug_calls fw @ [(f, drvid, action, n)]\<rparr>)"

definition serves :: "16 word \<times> 16 word \<Rightarrow> bio_dev \<Rightarrow> bool" where
  "serves vp d \<longleftrightarrow> enable d \<noteq> 0 \<and> bustype (bioinfo d) = BusT_USB \<and>
     (case id_table d of None \<Rightarrow> False | Some t \<Rightarrow> table_matches t vp)"

text \<open>The first driver of the list that serves the device.\<close>

definition serving_driver :: "16 word \<times> 16 word \<Rightarrow> 'p framework \<Rightarrow> nat option" where
  "serving_driver vp fw =
     List.find (\<lambda>i. serves vp (fw_dev fw i)) [0..<length (bio_drv_list fw)]"

definition hotplug_discover :: "int \<Rightarrow> nat \<Rightarrow> 'p framework \<Rightarrow> 'p framework res" where
  "hotplug_discover action i fw =
     bindR (discover i fw) (\<lambda>fw.
     Inr (hot_plug_common_callback (driver_id (fw_dev fw i)) action (dev_num (fw_dev fw i)) fw))"

definition bio_usb_hotplug_callback_attach ::
    "(16 word \<times> 16 word) option \<Rightarrow> 'p framework \<Rightarrow> (int \<times> 'p framework) res" where
  "bio_usb_hotplug_callback_attach desc fw =
     (case desc of
        None \<Rightarrow> Inl Bad_memory
      | Some vp \<Rightarrow>
          (case serving_driver vp fw of
             None \<Rightarrow> Inr (0, fw)
           | Some i \<Rightarrow>
               bindR (hotplug_discover USB_HOT_PLUG_ATTACHED i fw) (\<lambda>fw.
               if 0 < dev_num (fw_dev fw i)
               then bindR (hook_on i ops_attach (fw\<lparr>bio_dev_list := bio_dev_list fw @ [i]\<rparr>)) (\<lambda>(_, fw).
                    Inr (0, fw))
               else Inr (0, fw))))"

definition bio_usb_hotplug_callback_detach ::
    "(16 word \<times> 16 word) option \<Rightarrow> 'p framework \<Rightarrow> (int \<times> 'p framework) res" where
  "bio_usb_hotplug_callback_detach desc fw =
     (case desc of
        None \<Rightarrow> Inl Bad_memory
      | Some vp \<Rightarrow>
          (case serving_driver vp fw of
             None \<Rightarrow> Inr (0, fw)
           | Some i \<Rightarrow>
               bindR (hotplug_discover USB_HOT_PLUG_DETACHED i fw) (\<lambda>fw.
               let fw = (if dev_num (fw_dev fw i) \<le> 0
                         then fw\<lparr>bio_dev_list := remove1 i (bio_dev_list fw)\<rparr> else fw)
               in bindR (hook_on i ops_detach fw) (\<lambda>(_, fw). Inr (0, fw)))))"

section \<open>Starting the framework\<close>

text \<open>
  \<open>conf\<close> is the configuration file as loaded (\<open>None\<close>: an error), \<open>usb\<close> the answer of
  \<open>libusb_init\<close>. The database is brought up to date, and its handle kept open.
\<close>

definition bio_init :: "host \<Rightarrow> key_file option \<Rightarrow> int \<Rightarrow> store \<Rightarrow> (int \<times> store) res" where
  "bio_init h conf usb s =
     (case conf of
        None \<Rightarrow> Inr (-1, s)
      | Some _ \<Rightarrow>
          bindR (bio_sto_connect_db s) (\<lambda>(db, s).
          bindR (bio_sto_check_and_upgrade_db_format h db s) (\<lambda>(ret, s).
          if ret \<noteq> 0 then Inr (-1, bio_sto_disconnect_db s)
          else if usb < 0 then Inr (-1, s)
          else Inr (0, s))))"

section \<open>What a hook can change\<close>

lemma set_dev_simps [simp]:
  "length (bio_drv_list (set_dev i d fw)) = length (bio_drv_list fw)"
  "bio_dev_list (set_dev i d fw) = bio_dev_list fw"
  "fw_world (set_dev i d fw) = fw_world fw"
  "fw_ops (set_dev i d fw) j = fw_ops fw j"
  "i \<noteq> j \<Longrightarrow> fw_dev (set_dev i d fw) j = fw_dev fw j"
  "i < length (bio_drv_list fw) \<Longrightarrow> fw_dev (set_dev i d fw) i = d"
  "bio_usb_device_hot_plug_callback (set_dev i d fw) = bio_usb_device_hot_plug_callback fw"
  by (simp_all add: set_dev_def fw_dev_def)
    (cases "i < length (bio_drv_list fw)"; cases "i = j"; simp add: fw_ops_def list_update_beyond)

text \<open>A hook of the \<open>i\<close>-th driver changes no other structure, no table of hooks and no list.\<close>

definition only_dev :: "nat \<Rightarrow> 'p framework \<Rightarrow> 'p framework \<Rightarrow> bool" where
  "only_dev i fw fw' \<longleftrightarrow> length (bio_drv_list fw') = length (bio_drv_list fw)
     \<and> bio_dev_list fw' = bio_dev_list fw \<and> fw_ops fw' = fw_ops fw
     \<and> (\<forall>j. j \<noteq> i \<longrightarrow> fw_dev fw' j = fw_dev fw j)"

lemma only_dev_trans: "only_dev i fw fw' \<Longrightarrow> only_dev i fw' fw'' \<Longrightarrow> only_dev i fw fw''"
  by (simp add: only_dev_def)

lemma only_dev_set: "only_dev i fw (set_dev i d fw)"
  by (auto simp: only_dev_def)

lemma only_dev_world: "only_dev i fw (fw\<lparr>fw_world := w\<rparr>)"
  by (auto simp: only_dev_def fw_ops_def fw_dev_def)

lemma on_dev_only: "on_dev i f fw = Inr (x, fw') \<Longrightarrow> only_dev i fw fw'"
  by (auto simp: on_dev_def bindR_eq_Inr intro: only_dev_trans [OF only_dev_world only_dev_set])

lemma hook_on_only: "hook_on i sel fw = Inr (x, fw') \<Longrightarrow> only_dev i fw fw'"
  by (auto simp: hook_on_def bindR_eq_Inr intro: on_dev_only)

lemma discover_only: "discover i fw = Inr fw' \<Longrightarrow> only_dev i fw fw'"
  by (auto simp: discover_def bindR_eq_Inr intro: only_dev_trans [OF hook_on_only only_dev_set])

section \<open>The device list\<close>

lemma discover_devices_only:
  "discover_devices is fw = Inr (l, fw') \<Longrightarrow>
   length (bio_drv_list fw') = length (bio_drv_list fw) \<and> bio_dev_list fw' = bio_dev_list fw
   \<and> (\<forall>j. j \<notin> set is \<longrightarrow> fw_dev fw' j = fw_dev fw j)"
proof (induction "is" arbitrary: fw l)
  case (Cons i "is")
  show ?case
  proof (cases "enable (fw_dev fw i) = 0")
    case True
    then show ?thesis using Cons.IH Cons.prems by auto
  next
    case False
    then obtain fw1 l1 where d: "discover i fw = Inr fw1" "discover_devices is fw1 = Inr (l1, fw')"
      using Cons.prems by (auto simp: bindR_eq_Inr)
    then show ?thesis
      using Cons.IH [OF d(2)] discover_only [OF d(1)] by (auto simp: only_dev_def)
  qed
qed simp

lemma discover_devices_correct:
  "discover_devices is fw = Inr (l, fw') \<Longrightarrow> distinct is \<Longrightarrow>
   l = filter (\<lambda>i. enable (fw_dev fw i) \<noteq> 0 \<and> 0 < dev_num (fw_dev fw' i)) is"
proof (induction "is" arbitrary: fw l)
  case (Cons i "is")
  show ?case
  proof (cases "enable (fw_dev fw i) = 0")
    case True
    then show ?thesis using Cons by auto
  next
    case False
    then obtain fw1 l1 where d: "discover i fw = Inr fw1" "discover_devices is fw1 = Inr (l1, fw')"
      and l: "l = (if 0 < dev_num (fw_dev fw1 i) then i # l1 else l1)"
      using Cons.prems by (auto simp: bindR_eq_Inr)
    have "fw_dev fw' i = fw_dev fw1 i"
      using discover_devices_only [OF d(2)] Cons.prems(2) by simp
    moreover have "l1 = filter (\<lambda>j. enable (fw_dev fw1 j) \<noteq> 0 \<and> 0 < dev_num (fw_dev fw' j)) is"
      using Cons.IH [OF d(2)] Cons.prems(2) by simp
    moreover have "fw_dev fw1 j = fw_dev fw j" if "j \<in> set is" for j
      using discover_only [OF d(1)] that Cons.prems(2) by (auto simp: only_dev_def)
    ultimately show ?thesis using l False by (auto cong: filter_cong)
  qed
qed simp

text \<open>
  The device list holds, in the order of the driver list and each once, exactly the drivers
  that were enabled and whose discovery found at least one device.
\<close>

theorem device_list_init_correct:
  "on_return (bio_device_list_init fw) (\<lambda>(l, fw').
     bio_dev_list fw' = l \<and> length (bio_drv_list fw') = length (bio_drv_list fw) \<and> sorted l \<and> distinct l
     \<and> set l = {i. i < length (bio_drv_list fw) \<and> enable (fw_dev fw i) \<noteq> 0 \<and> 0 < dev_num (fw_dev fw' i)})"
proof -
  have "bio_dev_list fw' = l \<and> length (bio_drv_list fw') = length (bio_drv_list fw) \<and> sorted l \<and> distinct l
     \<and> set l = {i. i < length (bio_drv_list fw) \<and> enable (fw_dev fw i) \<noteq> 0 \<and> 0 < dev_num (fw_dev fw' i)}"
    if init: "bio_device_list_init fw = Inr (l, fw')" for l fw'
  proof -
    obtain fw1 where d: "discover_devices [0..<length (bio_drv_list fw)] fw = Inr (l, fw1)"
      "fw' = fw1\<lparr>bio_dev_list := l\<rparr>"
      using init by (auto simp: bio_device_list_init_def bindR_eq_Inr)
    then show ?thesis
      using discover_devices_correct [OF d(1)] discover_devices_only [OF d(1)]
      by (auto simp: fw_dev_def sorted_filter [where f = id, simplified])
  qed
  then show ?thesis by (auto simp: on_return_def)
qed

section \<open>Devices that come and go\<close>

lemma hot_plug_callback_simps [simp]:
  "bio_dev_list (hot_plug_common_callback d a n fw) = bio_dev_list fw"
  "fw_dev (hot_plug_common_callback d a n fw) = fw_dev fw"
  "fw_ops (hot_plug_common_callback d a n fw) = fw_ops fw"
  by (simp_all add: hot_plug_common_callback_def fw_dev_def fw_ops_def fun_eq_iff split: option.split)

lemma hotplug_discover_list: "hotplug_discover a i fw = Inr fw' \<Longrightarrow> bio_dev_list fw' = bio_dev_list fw"
  by (auto simp: hotplug_discover_def bindR_eq_Inr dest: discover_only simp: only_dev_def)

lemma hook_on_list: "hook_on i sel fw = Inr (x, fw') \<Longrightarrow> bio_dev_list fw' = bio_dev_list fw"
  by (auto dest: hook_on_only simp: only_dev_def)

text \<open>An arrival appends the serving driver when its discovery finds a device, and changes nothing else.\<close>

lemma attach_list:
  assumes "bio_usb_hotplug_callback_attach (Some vp) fw = Inr (r, fw')" "serving_driver vp fw = Some i"
    "hotplug_discover USB_HOT_PLUG_ATTACHED i fw = Inr fw1"
  shows "bio_dev_list fw' = (if 0 < dev_num (fw_dev fw1 i) then bio_dev_list fw @ [i] else bio_dev_list fw)"
  using assms hotplug_discover_list [OF assms(3)]
  by (auto simp: bio_usb_hotplug_callback_attach_def bindR_eq_Inr split: if_splits dest: hook_on_list)

lemma detach_list:
  assumes "bio_usb_hotplug_callback_detach (Some vp) fw = Inr (r, fw')" "serving_driver vp fw = Some i"
    "hotplug_discover USB_HOT_PLUG_DETACHED i fw = Inr fw1"
  shows "bio_dev_list fw' = (if dev_num (fw_dev fw1 i) \<le> 0 then remove1 i (bio_dev_list fw) else bio_dev_list fw)"
  using assms hotplug_discover_list [OF assms(3)]
  by (auto simp: bio_usb_hotplug_callback_detach_def bindR_eq_Inr Let_def split: if_splits dest: hook_on_list)

text \<open>
  Devices of one driver that arrive (\<open>True\<close>) and leave, one after the other, by their vendor and product; and
  that \<open>n\<close> are connected before, the driver \<open>i\<close> serves them all, and its discovery counts them right.
\<close>

fun hotplug_events :: "(bool \<times> 16 word \<times> 16 word) list \<Rightarrow> 'p framework \<Rightarrow> 'p framework res" where
  "hotplug_events [] fw = Inr fw"
| "hotplug_events ((arrives, vp) # es) fw =
     bindR (if arrives then bio_usb_hotplug_callback_attach (Some vp) fw else bio_usb_hotplug_callback_detach (Some vp) fw)
       (\<lambda>(_, fw). hotplug_events es fw)"

fun counted_right :: "nat \<Rightarrow> int \<Rightarrow> (bool \<times> 16 word \<times> 16 word) list \<Rightarrow> 'p framework \<Rightarrow> bool" where
  "counted_right i n [] fw \<longleftrightarrow> True"
| "counted_right i n ((arrives, vp) # es) fw \<longleftrightarrow>
     serving_driver vp fw = Some i \<and> (arrives \<or> 0 < n)
     \<and> (let n' = (if arrives then n + 1 else n - 1);
            action = (if arrives then USB_HOT_PLUG_ATTACHED else USB_HOT_PLUG_DETACHED)
        in (case hotplug_discover action i fw of Inl _ \<Rightarrow> False | Inr fwd \<Rightarrow> dev_num (fw_dev fwd i) = n')
         \<and> (case hotplug_events [(arrives, vp)] fw of Inl _ \<Rightarrow> False | Inr fw \<Rightarrow> counted_right i n' es fw))"

text \<open>How often a device arrived, and how often the last one left.\<close>

definition arrivals :: "(bool \<times> 16 word \<times> 16 word) list \<Rightarrow> nat" where
  "arrivals es = length (filter fst es)"

fun emptied :: "int \<Rightarrow> (bool \<times> 16 word \<times> 16 word) list \<Rightarrow> nat" where
  "emptied n [] = 0"
| "emptied n ((True, _) # es) = emptied (n + 1) es"
| "emptied n ((False, _) # es) = (if n \<le> 1 then 1 else 0) + emptied (n - 1) es"

lemma count_remove1: "count_list xs x \<le> count_list (remove1 y xs) x + (if x = y then 1 else 0)"
  by (induction xs) auto

lemma entries_left:
  "counted_right i n es fw \<Longrightarrow> hotplug_events es fw = Inr fw' \<Longrightarrow> 0 \<le> n \<Longrightarrow>
   count_list (bio_dev_list fw) i + arrivals es \<le> count_list (bio_dev_list fw') i + emptied n es"
proof (induction es arbitrary: n fw)
  case (Cons e es)
  obtain arrives vp where e: "e = (arrives, vp)" by (cases e)
  show ?case
  proof (cases arrives)
    case True
    obtain r fw1 where a: "bio_usb_hotplug_callback_attach (Some vp) fw = Inr (r, fw1)" "hotplug_events es fw1 = Inr fw'"
      using Cons.prems(2) e True by (auto simp: bindR_eq_Inr)
    obtain fwd where d: "serving_driver vp fw = Some i" "hotplug_discover USB_HOT_PLUG_ATTACHED i fw = Inr fwd"
      "dev_num (fw_dev fwd i) = n + 1" "counted_right i (n + 1) es fw1"
      using Cons.prems(1) e True a(1) by (auto simp: Let_def split: sum.splits)
    have "bio_dev_list fw1 = bio_dev_list fw @ [i]"
      using attach_list [OF a(1) d(1,2)] d(3) Cons.prems(3) by simp
    then show ?thesis using Cons.IH [OF d(4) a(2)] Cons.prems(3) e True by (simp add: arrivals_def)
  next
    case False
    obtain r fw1 where a: "bio_usb_hotplug_callback_detach (Some vp) fw = Inr (r, fw1)" "hotplug_events es fw1 = Inr fw'"
      using Cons.prems(2) e False by (auto simp: bindR_eq_Inr)
    obtain fwd where d: "serving_driver vp fw = Some i" "0 < n" "hotplug_discover USB_HOT_PLUG_DETACHED i fw = Inr fwd"
      "dev_num (fw_dev fwd i) = n - 1" "counted_right i (n - 1) es fw1"
      using Cons.prems(1) e False a(1) by (auto simp: Let_def split: sum.splits)
    have "count_list (bio_dev_list fw) i \<le> count_list (bio_dev_list fw1) i + (if n \<le> 1 then 1 else 0)"
      using detach_list [OF a(1) d(1,3)] d(2,4) count_remove1 [of "bio_dev_list fw" i i] by auto
    then show ?thesis using Cons.IH [OF d(5) a(2)] d(2) e False by (simp add: arrivals_def)
  qed
qed (simp add: arrivals_def)

text \<open>
  C40. While devices of a driver arrive and leave, and its discovery counts them right, every arrival enters the
  driver in the list of devices, also when it is there already, and only the departure of the last device takes
  an entry out, one: a driver that was listed, and of which a second device arrived, is still listed when
  all its devices have left.
\<close>

theorem hotplug_stale_entry:
  assumes "counted_right i n es fw" "0 \<le> n" "hotplug_events es fw = Inr fw'"
  shows "count_list (bio_dev_list fw) i + arrivals es \<le> count_list (bio_dev_list fw') i + emptied n es
    \<and> (i \<in> set (bio_dev_list fw) \<and> 0 < arrivals es \<and> emptied n es = 1 \<longrightarrow> i \<in> set (bio_dev_list fw'))"
proof -
  have c: "count_list (bio_dev_list fw) i + arrivals es \<le> count_list (bio_dev_list fw') i + emptied n es"
    using entries_left [OF assms(1,3,2)] .
  moreover have "0 < count_list (bio_dev_list fw) i \<longleftrightarrow> i \<in> set (bio_dev_list fw)"
    "0 < count_list (bio_dev_list fw') i \<longleftrightarrow> i \<in> set (bio_dev_list fw')"
    by (metis count_list_0_iff gr0I less_numeral_extra(3))+
  ultimately show ?thesis by linarith
qed

text \<open>A driver whose discovery answers the numbers in its memory one after the other.\<close>

definition counting_ops :: "int list driver_ops" where
  "counting_ops = \<lparr>ops_driver_init = None, ops_free = None,
     ops_discover = Some (\<lambda>w. Inr (hd (w_priv w), w\<lparr>w_priv := tl (w_priv w)\<rparr>)),
     ops_open = None, ops_close = None, ops_capture = None, ops_enroll = None, ops_verify = None,
     ops_identify = None, ops_search = None, ops_clean = None, ops_get_feature_list = None,
     ops_feature_rename = None, ops_attach = Some (\<lambda>w. Inr ((), w)), ops_detach = Some (\<lambda>w. Inr ((), w)),
     ops_stop_by_user = None, ops_get_dev_status_mesg = None, ops_get_ops_result_mesg = None,
     ops_get_notify_mid_mesg = None\<rparr>"

definition counting_fw :: "int list framework" where
  "counting_fw = \<lparr>bio_drv_list = [(idle_dev\<lparr>id_table := Some [\<lparr>idVendor = 0x08ff, idProduct = 0x2580,
       description = None\<rparr>]\<rparr>, counting_ops)], bio_dev_list = [0],
     fw_world = \<lparr>w_dev = idle_dev, bio_status_changed_callback = None, w_calls = [], w_store = ready_store [],
       bio_ops_timeout_ms = 30000, w_priv = [2, 0]\<rparr>,
     bio_usb_device_hot_plug_callback = None, hotplug_calls = [], hotplug_watched = []\<rparr>"

lemmas counting_simps = counting_fw_def counting_ops_def hotplug_discover_def discover_def hook_on_def
  on_dev_def fw_dev_def fw_ops_def set_dev_def hot_plug_common_callback_def idle_dev_def

lemma counting_serving: "serving_driver (0x08ff, 0x2580) counting_fw = Some 0"
  by (simp add: serving_driver_def serves_def table_matches_def counting_fw_def fw_dev_def idle_dev_def)

text \<open>One of its devices is connected; a second one arrives, and then both leave.\<close>

definition two_leave :: "(bool \<times> 16 word \<times> 16 word) list" where
  "two_leave = [(True, 0x08ff, 0x2580), (False, 0x08ff, 0x2580), (False, 0x08ff, 0x2580)]"

definition counting_two :: "int list framework" where
  "counting_two = counting_fw\<lparr>fw_world := (fw_world counting_fw)\<lparr>w_priv := [2, 1, 0]\<rparr>\<rparr>"

lemma counting_run:
  "counted_right 0 1 two_leave counting_two"
  "bindR (hotplug_events two_leave counting_two) (\<lambda>fw. Inr (dev_num (fw_dev fw 0))) = Inr 0"
  "emptied 1 two_leave = 1" "arrivals two_leave = 1" "bio_dev_list counting_two = [0]"
  by code_simp+

theorem hotplug_stale_entry_witness:
  "\<exists>fw'. hotplug_events two_leave counting_two = Inr fw' \<and> dev_num (fw_dev fw' 0) = 0 \<and> 0 \<in> set (bio_dev_list fw')"
proof -
  obtain fw' where run: "hotplug_events two_leave counting_two = Inr fw'" "dev_num (fw_dev fw' 0) = 0"
    using counting_run(2) by (auto simp: bindR_eq_Inr)
  then show ?thesis
    using hotplug_stale_entry [OF counting_run(1) _ run(1)] counting_run(3-5) by auto
qed

section \<open>The ids of the drivers\<close>

definition driver_ids :: "'p framework \<Rightarrow> int list" where
  "driver_ids fw = map (\<lambda>(d, _). driver_id d) (bio_drv_list fw)"

definition ids_ok :: "'p framework \<Rightarrow> bool" where
  "ids_ok fw \<longleftrightarrow> distinct (driver_ids fw) \<and> (\<forall>i\<in>set (driver_ids fw). 100 \<le> i \<and> i \<le> 1023)"

lemma empty_driver_id_fresh:
  assumes "bio_get_empty_driver_id drvs = Inr i"
  shows "i \<notin> driver_id ` set drvs" "100 \<le> i" "i \<le> 1023"
proof -
  let ?free = "{100..1023} - driver_id ` set drvs"
  have free: "?free \<noteq> {}" "i = Min ?free"
    using assms empty_driver_id_lemma [of drvs] by (auto split: if_splits)
  have "i \<in> ?free" unfolding free(2) by (rule Min_in) (use free in auto)
  then show "i \<notin> driver_id ` set drvs" "100 \<le> i" "i \<le> 1023" by auto
qed

text \<open>
  What the framework needs of the driver files so that ids tell drivers apart: a configuration
  that succeeds takes the id from the framework, and initialising keeps it.
\<close>

locale fresh_driver_ids =
  fixes dlopen :: "string \<Rightarrow> 'p plugin option"
  assumes takes_id: "dlopen path = Some p \<Longrightarrow> ops_configure p = Some cfg \<Longrightarrow>
      cfg drvs conf w = Inr (0, ops, w') \<Longrightarrow> bio_get_empty_driver_id drvs = Inr (driver_id (w_dev w'))"
    and keeps_id: "dlopen path = Some p \<Longrightarrow> ops_configure p = Some cfg \<Longrightarrow>
      cfg drvs conf w = Inr (0, ops, w') \<Longrightarrow> ops_driver_init ops = Some f \<Longrightarrow> f w' = Inr (r, w'') \<Longrightarrow>
      driver_id (w_dev w'') = driver_id (w_dev w')"
begin

lemma init_driver_id:
  assumes "dlopen path = Some p" "ops_configure p = Some cfg" "init_driver conf cfg fw = Inr (Some d, w)"
  shows "driver_id (fst d) \<notin> set (driver_ids fw)" "100 \<le> driver_id (fst d)" "driver_id (fst d) \<le> 1023"
proof -
  obtain r ops w1 where cfg: "cfg (map fst (bio_drv_list fw)) conf ((fw_world fw)\<lparr>w_dev := bio_dev_new\<rparr>) = Inr (r, ops, w1)"
    using assms(3) by (auto simp: init_driver_def bindR_eq_Inr)
  then have r: "r = 0" using assms(3) by (auto simp: init_driver_def Let_def split: if_splits)
  obtain f r2 w2 where f: "ops_driver_init ops = Some f" "f w1 = Inr (r2, w2)"
    and d: "driver_id (fst d) = driver_id (w_dev w2)"
    using assms(3) cfg r
    by (cases "ops_driver_init ops")
      (auto simp: init_driver_def bindR_eq_Inr Let_def setter_defs split: if_splits)
  have "driver_id (fst d) = driver_id (w_dev w1)"
    using keeps_id [OF assms(1,2) cfg [unfolded r] f] d by simp
  then have "bio_get_empty_driver_id (map fst (bio_drv_list fw)) = Inr (driver_id (fst d))"
    using takes_id [OF assms(1,2) cfg [unfolded r]] by simp
  then show "driver_id (fst d) \<notin> set (driver_ids fw)" "100 \<le> driver_id (fst d)" "driver_id (fst d) \<le> 1023"
    using empty_driver_id_fresh by (force simp: driver_ids_def)+
qed

lemma load_drivers_ids:
  "load_drivers conf dlopen gs fw = Inr (ok, fw') \<Longrightarrow> ids_ok fw \<Longrightarrow> ids_ok fw'"
proof (induction gs arbitrary: fw)
  case (Cons g gs)
  have freed: "ids_ok fw1" if "bio_free_driver fw = Inr fw1" for fw1
    using that by (auto simp: bio_free_driver_def bindR_eq_Inr ids_ok_def driver_ids_def)
  have same: "ids_ok (fw\<lparr>fw_world := w\<rparr>)" for w
    using Cons.prems(2) by (simp add: ids_ok_def driver_ids_def)
  show ?case
  proof (cases "g \<noteq> '''' \<and> kf_string conf g ''Driver'' \<noteq> None \<and> kf_string conf g ''Driver'' \<noteq> Some ''''")
    case False
    then show ?thesis using Cons freed by (auto simp: bindR_eq_Inr split: option.splits if_splits)
  next
    case True
    then obtain path where path: "g \<noteq> ''''" "kf_string conf g ''Driver'' = Some path" "path \<noteq> ''''" by auto
    show ?thesis
    proof (cases "dlopen path")
      case None
      then show ?thesis using Cons path by simp
    next
      case (Some p)
      then obtain cfg d w where c: "ops_configure p = Some cfg" "init_driver conf cfg fw = Inr (d, w)"
        using Cons.prems(1) path by (cases "ops_configure p") (auto simp: bindR_eq_Inr)
      show ?thesis
      proof (cases d)
        case None
        then show ?thesis using Cons.IH [OF _ same] Cons.prems(1) path Some c by simp
      next
        case (Some d')
        let ?fw = "fw\<lparr>fw_world := w, bio_drv_list := bio_drv_list fw @ [d']\<rparr>"
        obtain fw2 where w2: "watch_usb (fst d') ?fw = Inr fw2" "load_drivers conf dlopen gs fw2 = Inr (ok, fw')"
          using Cons.prems(1) path \<open>dlopen path = Some p\<close> c Some by (auto simp: bindR_eq_Inr)
        have "driver_ids fw2 = driver_ids fw @ [driver_id (fst d')]"
          using w2(1) by (auto simp: watch_usb_def driver_ids_def split: if_splits option.splits prod.splits)
        then have "ids_ok fw2"
          using Cons.prems(2) init_driver_id [OF \<open>dlopen path = Some p\<close> c(1) c(2) [unfolded Some]]
          by (auto simp: ids_ok_def)
        then show ?thesis using Cons.IH w2(2) by blast
      qed
    qed
  qed
qed simp

lemma loaded_ids:
  assumes "bio_drv_list fw = []"
  shows "on_return (bio_driver_list_init conf dlopen fw) (\<lambda>(_, fw').
    distinct (driver_ids fw') \<and> (\<forall>i\<in>set (driver_ids fw'). 100 \<le> i \<and> i \<le> 1023))"
proof (cases conf)
  case None
  then show ?thesis using assms by (simp add: bio_driver_list_init_def driver_ids_def)
next
  case (Some c)
  have "ids_ok fw" using assms by (simp add: ids_ok_def driver_ids_def)
  then show ?thesis
    using Some load_drivers_ids [of c "kf_groups c" fw]
    by (auto simp: bio_driver_list_init_def on_return_bind) (auto simp: on_return_def ids_ok_def)
qed

end

end
