(* ===== verification/Community_Driver.thy ===== *)
theory Community_Driver
  imports Bio_Ops Template_Codec
begin

text \<open>
  The community driver (\<open>src/src/drivers/community-multidevice\<close>: \<open>community_ops.c\<close>, \<open>close.c\<close>,
  \<open>driver_internal.c\<close>): the hooks it gives the framework, the callbacks it gives the
  fingerprint library, and the loops that wait for them.
\<close>

section \<open>The fingerprint library and what happens while a hook sleeps\<close>

text \<open>
  \<open>libfprint\<close> is not part of the repository: its prints \<open>'pr\<close>, its scans \<open>'sc\<close> and what it
  computes on them are parameters. \<open>fp_compare\<close> is the outcome it reports for a
  verification, \<open>fp_identify\<close> the print it reports for an identification.
\<close>

record ('pr, 'sc) fp_lib =
  fp_serialize :: "'pr \<Rightarrow> byte list option"
  fp_deserialize :: "byte list \<Rightarrow> 'pr option"
  fp_equal :: "'pr \<Rightarrow> 'pr \<Rightarrow> bool"
  fp_compare :: "'pr \<Rightarrow> 'sc \<Rightarrow> bool"
  fp_identify :: "'pr option list \<Rightarrow> 'sc \<Rightarrow> 'pr option"
  fp_stages :: int

text \<open>
  A hook waits by sleeping in a loop. What can happen during one sleep: a callback of the
  library, with what its \<open>_finish\<close> function returns (\<open>None\<close>: an error), or another thread
  that asks to stop the operation. A schedule is the list, sleep by sleep, of what happens.
\<close>

datatype ('pr, 'sc) fp_event =
    Opened bool
  | Closed
  | Enroll_progress int
  | Enroll_completed "'pr option"
  | Capture_completed "byte list option"
  | Match_report "'sc option"
  | Match_completed
  | User_stop

type_synonym ('pr, 'sc) schedule = "('pr, 'sc) fp_event list list"

section \<open>The private data of the driver\<close>

abbreviation (input) CONTROL_FLAG_IDLE :: int where "CONTROL_FLAG_IDLE \<equiv> 0"
abbreviation (input) CONTROL_FLAG_RUNNING :: int where "CONTROL_FLAG_RUNNING \<equiv> 1"
abbreviation (input) CONTROL_FLAG_STOPING :: int where "CONTROL_FLAG_STOPING \<equiv> 2"
abbreviation (input) CONTROL_FLAG_STOPPED :: int where "CONTROL_FLAG_STOPPED \<equiv> 3"
abbreviation (input) CONTROL_FLAG_DONE :: int where "CONTROL_FLAG_DONE \<equiv> 4"
abbreviation (input) ASYN_FLAG_DONE :: int where "ASYN_FLAG_DONE \<equiv> 0"
abbreviation (input) ASYN_FALG_RUNNING :: int where "ASYN_FALG_RUNNING \<equiv> 1"
abbreviation (input) EXTRA_INFO_LENGTH :: nat where "EXTRA_INFO_LENGTH \<equiv> 1024"
abbreviation (input) FINGER_CHECK_INTERVAL_MS :: int where "FINGER_CHECK_INTERVAL_MS \<equiv> 100"
abbreviation (input) MID_EXTENDED_MESSAGE :: int where "MID_EXTENDED_MESSAGE \<equiv> NOTIFY_COMM_MAX + 1"

text \<open>
  The segment the instances of the driver share, found by its key: the devices of the
  library, each by the name of its driver (\<open>None\<close>: a null array), the device looked at last,
  and the number of users. \<open>shm_locked\<close>: some instance holds the lock on the key file;
  \<open>fp_devices\<close>: what a new library context enumerates; \<open>environ\<close>: the environment variables.
\<close>

record shared_number =
  sh_devices :: "string list option"
  sh_device :: "nat option"
  d_count :: int

record shm =
  shm_locked :: bool
  shm_segment :: "shared_number option"
  fp_devices :: "string list option"
  environ :: "(string \<times> string) list"

text \<open>
  \<open>struct driver_info_t\<close>; \<open>cancellable\<close> is null or whether it is cancelled. The last three fields
  are the surroundings: the shared segment, the schedule of the coming sleeps, and what the thread
  of the operation writes to \<open>ctrlFlag\<close> while a stop request waits.
\<close>

record ('pr, 'sc) driver_info =
  timeoutMS :: int
  timeused :: int
  ctrlFlag :: int
  extra_info :: string
  fp_device :: "nat option"
  asyn_flag :: int
  cancellable :: "bool option"
  aes_key :: "byte list option"
  community_driver_id :: string
  fd_locked :: bool
  shared :: shm
  events :: "('pr, 'sc) schedule"
  ctrl_writes :: "int option list"

type_synonym ('pr, 'sc) cworld = "('pr, 'sc) driver_info bio_world"

definition upd_priv ::
    "(('pr, 'sc) driver_info \<Rightarrow> ('pr, 'sc) driver_info) \<Rightarrow> ('pr, 'sc) cworld \<Rightarrow> ('pr, 'sc) cworld" where
  "upd_priv f w = w\<lparr>w_priv := f (w_priv w)\<rparr>"

section \<open>Messages\<close>

text \<open>The limit of \<open>snprintf\<close> on the length.\<close>

definition set_extra_info :: "string \<Rightarrow> ('pr, 'sc) cworld \<Rightarrow> ('pr, 'sc) cworld" where
  "set_extra_info s = upd_priv (\<lambda>p. p\<lparr>extra_info := take (EXTRA_INFO_LENGTH - 1) s\<rparr>)"

text \<open>A message for the user: the text, then the extended notification.\<close>

definition extended_message :: "string \<Rightarrow> ('pr, 'sc) cworld \<Rightarrow> ('pr, 'sc) cworld" where
  "extended_message s w = bio_set_notify_abs_mid MID_EXTENDED_MESSAGE (set_extra_info s w)"

definition community_ops_get_dev_status_mesg :: "('pr, 'sc) cworld \<Rightarrow> string option" where
  "community_ops_get_dev_status_mesg w = None"

definition community_ops_get_ops_result_mesg :: "('pr, 'sc) cworld \<Rightarrow> string option" where
  "community_ops_get_ops_result_mesg w = None"

definition community_ops_get_notify_mid_mesg :: "('pr, 'sc) cworld \<Rightarrow> string option" where
  "community_ops_get_notify_mid_mesg w =
     (if bio_get_notify_mid w = MID_EXTENDED_MESSAGE then Some (extra_info (w_priv w)) else None)"

section \<open>Stopping\<close>

definition set_asyn :: "int \<Rightarrow> ('pr, 'sc) cworld \<Rightarrow> ('pr, 'sc) cworld" where
  "set_asyn v = upd_priv (\<lambda>p. p\<lparr>asyn_flag := v\<rparr>)"

definition set_ctrl :: "int \<Rightarrow> ('pr, 'sc) cworld \<Rightarrow> ('pr, 'sc) cworld" where
  "set_ctrl v = upd_priv (\<lambda>p. p\<lparr>ctrlFlag := v\<rparr>)"

text \<open>The first part of \<open>community_ops_stop_by_user\<close>: what the stopped operation sees of it.\<close>

definition request_stop :: "('pr, 'sc) cworld \<Rightarrow> ('pr, 'sc) cworld" where
  "request_stop w =
     extended_message (''_Device '' @ (case device_name (w_dev w) of None \<Rightarrow> ''(null)'' | Some s \<Rightarrow> s) @ ''[''
         @ show_int (driver_id (w_dev w)) @ ''] received interrupt request'' @ [CHR 0x0A])
       (set_ctrl CONTROL_FLAG_STOPING (set_asyn ASYN_FALG_RUNNING w))"

definition stop_answered :: "int \<Rightarrow> bool" where
  "stop_answered c \<longleftrightarrow> c = CONTROL_FLAG_STOPPED \<or> c = CONTROL_FLAG_DONE \<or> c = CONTROL_FLAG_IDLE"

function wait_stopped :: "int option list \<Rightarrow> int \<Rightarrow> int \<Rightarrow> int \<Rightarrow> int" where
  "wait_stopped ws ctrl used timeout =
     (if \<not> stop_answered ctrl \<and> used < timeout
      then case ws of
             [] \<Rightarrow> wait_stopped [] ctrl (used + FINGER_CHECK_INTERVAL_MS) timeout
           | None # ws \<Rightarrow> wait_stopped ws ctrl (used + FINGER_CHECK_INTERVAL_MS) timeout
           | Some c # ws \<Rightarrow> wait_stopped ws c (used + FINGER_CHECK_INTERVAL_MS) timeout
      else ctrl)"
  by pat_completeness auto
termination
  by (relation "measure (\<lambda>(_, _, used, timeout). nat (timeout - used))") auto

definition community_ops_stop_by_user :: "int \<Rightarrow> (('pr, 'sc) driver_info, int) call" where
  "community_ops_stop_by_user waiting_ms w =
     (if bio_get_dev_status w = DEVS_COMM_IDLE then Inr (0, w)
      else let timeout = bio_get_ops_timeout_ms w;
               timeout = (if waiting_ms < timeout then waiting_ms else timeout);
               w = request_stop w;
               ctrl = wait_stopped (ctrl_writes (w_priv w)) (ctrlFlag (w_priv w)) 0 timeout;
               w = set_ctrl ctrl w
           in Inr (if stop_answered ctrl then 0 else -1, w))"

section \<open>Waiting for the library\<close>

text \<open>
  A callback acts on the data of its operation \<open>'s\<close> and on the world. One sleep: the events of
  the next batch in order; when the schedule is empty nothing happens any more.
\<close>

type_synonym ('pr, 'sc, 's) callback =
  "('pr, 'sc) fp_event \<Rightarrow> 's \<Rightarrow> ('pr, 'sc) cworld \<Rightarrow> ('s \<times> ('pr, 'sc) cworld) res"

fun handle_events ::
    "('pr, 'sc, 's) callback \<Rightarrow> ('pr, 'sc) fp_event list \<Rightarrow> 's \<Rightarrow> ('pr, 'sc) cworld \<Rightarrow>
     ('s \<times> ('pr, 'sc) cworld) res" where
  "handle_events cb [] s w = Inr (s, w)"
| "handle_events cb (e # es) s w =
     bindR (case e of
              User_stop \<Rightarrow> Inr (s, if bio_get_dev_status w = DEVS_COMM_IDLE then w else request_stop w)
            | _ \<Rightarrow> cb e s w) (\<lambda>(s, w). handle_events cb es s w)"

definition usleep ::
    "('pr, 'sc, 's) callback \<Rightarrow> ('pr, 'sc) schedule \<Rightarrow> 's \<Rightarrow> ('pr, 'sc) cworld \<Rightarrow>
     (('pr, 'sc) schedule \<times> 's \<times> ('pr, 'sc) cworld) res" where
  "usleep cb evs s w =
     (case evs of
        [] \<Rightarrow> Inr ([], s, w)
      | es # evs \<Rightarrow> bindR (handle_events cb es s w) (\<lambda>(s, w). Inr (evs, s, w)))"

text \<open>The inner loop after a cancellation: it ends only when the library completes the request.\<close>

fun wait_done ::
    "('pr, 'sc, 's) callback \<Rightarrow> ('pr, 'sc) schedule \<Rightarrow> 's \<Rightarrow> ('pr, 'sc) cworld \<Rightarrow>
     (('pr, 'sc) schedule \<times> 's \<times> ('pr, 'sc) cworld) res" where
  "wait_done cb [] s w = (if asyn_flag (w_priv w) = ASYN_FLAG_DONE then Inr ([], s, w) else Inl Hang)"
| "wait_done cb (es # evs) s w =
     bindR (handle_events cb es s w) (\<lambda>(s, w).
       if asyn_flag (w_priv w) = ASYN_FLAG_DONE then Inr (evs, s, w) else wait_done cb evs s w)"

definition cancel :: "('pr, 'sc) cworld \<Rightarrow> ('pr, 'sc) cworld" where
  "cancel = upd_priv (\<lambda>p. p\<lparr>cancellable := map_option (\<lambda>_. True) (cancellable p)\<rparr>)"

definition is_cancelled :: "('pr, 'sc) cworld \<Rightarrow> bool" where
  "is_cancelled w \<longleftrightarrow> cancellable (w_priv w) = Some True"

definition stopped_by_user :: "('pr, 'sc) cworld \<Rightarrow> ('pr, 'sc) cworld" where
  "stopped_by_user w =
     cancel (set_ctrl CONTROL_FLAG_STOPPED (bio_set_dev_status DEVS_COMM_IDLE
       (bio_set_notify_mid NOTIFY_COMM_STOP_BY_USER (bio_set_ops_result OPS_COMM_STOP_BY_USER w))))"

datatype outcome = Finished | Timed_out | Stopped

text \<open>
  The polling loop of every hook: \<open>stoppable\<close> for those that look at \<open>ctrlFlag\<close>. One round sleeps
  twice, before the look at \<open>asyn_flag\<close> and after it.
\<close>

function poll ::
    "('pr, 'sc, 's) callback \<Rightarrow> bool \<Rightarrow> ('pr, 'sc) schedule \<Rightarrow> 's \<Rightarrow> ('pr, 'sc) cworld \<Rightarrow>
     (outcome \<times> ('pr, 'sc) schedule \<times> 's \<times> ('pr, 'sc) cworld) res" where
  "poll cb stoppable evs s w =
     bindR (usleep cb evs s w) (\<lambda>(evs1, s1, w1).
     if asyn_flag (w_priv w1) = ASYN_FLAG_DONE then Inr (Finished, evs1, s1, w1)
     else let w2 = (if timeoutMS (w_priv w1) < timeused (w_priv w1) then cancel w1 else w1)
          in if timeoutMS (w_priv w1) < timeused (w_priv w1) \<and> is_cancelled w2
             then bindR (wait_done cb evs1 s1 w2) (\<lambda>(evs, s, w). Inr (Timed_out, evs, s, w))
             else bindR (c_int (timeused (w_priv w2) + FINGER_CHECK_INTERVAL_MS)) (\<lambda>t.
                  bindR (usleep cb evs1 s1 (upd_priv (\<lambda>p. p\<lparr>timeused := t\<rparr>) w2)) (\<lambda>(evs3, s3, w3).
                  if stoppable \<and> ctrlFlag (w_priv w3) = CONTROL_FLAG_STOPING
                  then let w4 = stopped_by_user w3
                       in if is_cancelled w4
                          then bindR (wait_done cb evs3 s3 w4) (\<lambda>(evs, s, w). Inr (Stopped, evs, s, w))
                          else poll cb stoppable evs3 s3 w4
                  else poll cb stoppable evs3 s3 w3)))"
  by pat_completeness auto

lemma usleep_shorter: "usleep cb evs s w = Inr (evs', s', w') \<Longrightarrow> evs' = tl evs"
  by (auto simp: usleep_def bindR_eq_Inr split: list.splits)

lemma usleep_empty: "usleep cb [] s w = Inr (evs', s', w') \<longleftrightarrow> evs' = [] \<and> s' = s \<and> w' = w"
  by (auto simp: usleep_def)

lemma upd_priv_simps [simp]:
  "w_priv (upd_priv f w) = f (w_priv w)" "w_dev (upd_priv f w) = w_dev w"
  "w_store (upd_priv f w) = w_store w" "w_calls (upd_priv f w) = w_calls w"
  "bio_ops_timeout_ms (upd_priv f w) = bio_ops_timeout_ms w"
  by (simp_all add: upd_priv_def)

lemma cancel_simps [simp]:
  "timeused (w_priv (cancel w)) = timeused (w_priv w)"
  "asyn_flag (w_priv (cancel w)) = asyn_flag (w_priv w)"
  "w_dev (cancel w) = w_dev w" "w_store (cancel w) = w_store w"
  by (simp_all add: cancel_def)

lemma stopped_timeused [simp]: "timeused (w_priv (stopped_by_user w)) = timeused (w_priv w)"
  by (simp add: stopped_by_user_def set_ctrl_def)

text \<open>
  Every round takes from the schedule, or, when it is empty, gives 100 ms to \<open>timeused\<close>, which
  cannot grow past the range of \<open>int\<close>.
\<close>

termination poll
  by (relation "measures [\<lambda>(_, _, evs, _, _). length evs,
        \<lambda>(_, _, _, _, w). nat (INT_MAX - timeused (w_priv w))]")
     (auto simp: usleep_def bindR_eq_Inr c_int_def split: list.splits if_splits)

end
