(* ===== verification/Community_Ops.thy ===== *)
theory Community_Ops
  imports Community_Driver
begin

text \<open>
  The callbacks of the community driver (\<open>close.c\<close>) and the hooks it gives the framework
  (\<open>community_ops.c\<close>, \<open>driver_internal.c\<close>).
\<close>

abbreviation (input) OPS_TYPE_IDENTIFY :: int where "OPS_TYPE_IDENTIFY \<equiv> 4"
abbreviation (input) OPS_TYPE_SEARCH :: int where "OPS_TYPE_SEARCH \<equiv> 6"
abbreviation (input) OPS_TYPE_GET_FLIST :: int where "OPS_TYPE_GET_FLIST \<equiv> 8"

section \<open>Waiting, with the schedule of the world\<close>

definition await ::
    "('pr, 'sc, 's) callback \<Rightarrow> bool \<Rightarrow> 's \<Rightarrow> ('pr, 'sc) cworld \<Rightarrow>
     (outcome \<times> 's \<times> ('pr, 'sc) cworld) res" where
  "await cb stoppable s w =
     bindR (poll cb stoppable (events (w_priv w)) s w) (\<lambda>(r, evs, s, w).
       Inr (r, s, upd_priv (\<lambda>p. p\<lparr>events := evs\<rparr>) w))"

definition start_request :: "('pr, 'sc) cworld \<Rightarrow> ('pr, 'sc) cworld" where
  "start_request = upd_priv (\<lambda>p. p\<lparr>asyn_flag := ASYN_FALG_RUNNING, timeused := 0\<rparr>)"

definition set_final :: "int \<Rightarrow> int \<Rightarrow> ('pr, 'sc) cworld \<Rightarrow> ('pr, 'sc) cworld" where
  "set_final result mid w =
     bio_set_dev_status DEVS_COMM_IDLE (bio_set_notify_abs_mid mid (bio_set_ops_abs_result result w))"

text \<open>The check each hook makes again, with the framework's three words or the status alone.\<close>

definition hook_disabled :: "('pr, 'sc) cworld \<Rightarrow> ('pr, 'sc) cworld" where
  "hook_disabled w =
     bio_set_notify_abs_mid NOTIFY_COMM_DISABLE
       (bio_set_ops_result OPS_COMM_ERROR (bio_set_dev_status DEVS_COMM_DISABLE w))"

section \<open>The database as the driver uses it\<close>

text \<open>Base64, decryption, and the library's reading of it.\<close>

definition decode_sample ::
    "('pr, 'sc) fp_lib \<Rightarrow> byte list option \<Rightarrow> feature_sample \<Rightarrow> 'pr option res" where
  "decode_sample lib key x =
     (if sa_no x < 0 then Inl Null_deref
      else case sa_data x of
             None \<Rightarrow> Inl Null_deref
           | Some data \<Rightarrow> bindR (decode_template key data (nat (sa_no x))) (\<lambda>stored_data.
               Inr (fp_deserialize lib stored_data)))"

fun decode_samples ::
    "('pr, 'sc) fp_lib \<Rightarrow> byte list option \<Rightarrow> feature_sample list \<Rightarrow> 'pr option list res" where
  "decode_samples lib key [] = Inr []"
| "decode_samples lib key (x # xs) =
     bindR (decode_sample lib key x) (\<lambda>print.
     bindR (decode_samples lib key xs) (\<lambda>prints. Inr (print # prints)))"

definition create_prints ::
    "host \<Rightarrow> ('pr, 'sc) fp_lib \<Rightarrow> int \<Rightarrow> int \<Rightarrow> int \<Rightarrow> (('pr, 'sc) driver_info, 'pr option list) call" where
  "create_prints h lib uid idx_start idx_end w =
     bindR (query_printed h uid idx_start idx_end w) (\<lambda>(info_list, w).
     bindR (decode_samples lib (aes_key (w_priv w)) (concat (map fi_sample info_list))) (\<lambda>prints.
     Inr (prints, w)))"

section \<open>Opening and closing\<close>

text \<open>A failed opening is printed, and nothing more.\<close>

definition on_device_opened :: "bool \<Rightarrow> ('pr, 'sc) cworld \<Rightarrow> ('pr, 'sc) cworld" where
  "on_device_opened ok w = (if ok then set_asyn ASYN_FLAG_DONE w else w)"

definition on_device_closed :: "('pr, 'sc) cworld \<Rightarrow> ('pr, 'sc) cworld" where
  "on_device_closed w = set_asyn ASYN_FLAG_DONE w"

fun open_callback :: "('pr, 'sc, unit) callback" where
  "open_callback (Opened ok) s w = Inr (s, on_device_opened ok w)"
| "open_callback _ s w = Inr (s, w)"

fun close_callback :: "('pr, 'sc, unit) callback" where
  "close_callback Closed s w = Inr (s, on_device_closed w)"
| "close_callback _ s w = Inr (s, w)"

definition community_ops_open :: "(('pr, 'sc) driver_info, int) call" where
  "community_ops_open w =
     (let w = upd_priv (\<lambda>p. p\<lparr>asyn_flag := ASYN_FALG_RUNNING, ctrlFlag := CONTROL_FLAG_RUNNING\<rparr>) w
      in if enable (w_dev w) = 0 then Inr (-1, hook_disabled w)
         else let w = upd_priv (\<lambda>p. p\<lparr>cancellable := Some False\<rparr>) (bio_set_dev_status DEVS_OPEN_DOING w)
              in bindR (await open_callback False () w) (\<lambda>(r, _, w).
                   if r = Timed_out then Inr (-1, set_final OPS_OPEN_FAIL NOTIFY_OPEN_FAIL w)
                   else Inr (0, bio_set_notify_abs_mid NOTIFY_OPEN_SUCCESS
                          (bio_set_ops_abs_result OPS_OPEN_SUCCESS (bio_set_dev_status DEVS_COMM_IDLE w)))))"

definition community_ops_close :: "(('pr, 'sc) driver_info, unit) call" where
  "community_ops_close w =
     (let w = set_asyn ASYN_FALG_RUNNING w;
          w = (if enable (w_dev w) = 0 then hook_disabled w else w)
      in bindR (await close_callback False () w) (\<lambda>(r, _, w).
           if r = Timed_out then Inr ((), set_final OPS_CLOSE_FAIL NOTIFY_CLOSE_FAIL w)
           else Inr ((), set_ctrl CONTROL_FLAG_IDLE w)))"

section \<open>Capturing\<close>

text \<open>
  \<open>finger_capture\<close>: the image is what the callback stores; \<open>None\<close> is the null pointer it leaves
  after an error, a timeout or a stop.
\<close>

fun capture_callback :: "('pr, 'sc, byte list option) callback" where
  "capture_callback (Capture_completed (Some data)) s w = Inr (Some data, set_asyn ASYN_FLAG_DONE w)"
| "capture_callback (Capture_completed None) s w = Inr (s, set_asyn ASYN_FLAG_DONE w)"
| "capture_callback _ s w = Inr (s, w)"

definition finger_capture :: "(('pr, 'sc) driver_info, byte list option) call" where
  "finger_capture w =
     (let w = extended_message (''capture start ! Please press your finger.'' @ [CHR 0x0A]) (start_request w)
      in bindR (await capture_callback True None w) (\<lambda>(r, data, w).
           case r of
             Finished \<Rightarrow> Inr (data, w)
           | Timed_out \<Rightarrow> Inr (None, set_final OPS_CAPTURE_TIMEOUT NOTIFY_CAPTURE_TIMEOUT w)
           | Stopped \<Rightarrow> Inr (None, w)))"

text \<open>The bytes up to the terminator, read as a string.\<close>

fun c_string :: "byte list \<Rightarrow> string res" where
  "c_string [] = Inl Out_of_bounds"
| "c_string (b # bs) = (if b = 0 then Inr '''' else bindR (c_string bs) (\<lambda>s. Inr (char_of (unat b) # s)))"

definition capture_done :: "('pr, 'sc) cworld \<Rightarrow> ('pr, 'sc) cworld" where
  "capture_done w = bio_set_notify_abs_mid NOTIFY_CAPTURE_SUCCESS
     (bio_set_ops_result OPS_CAPTURE_SUCCESS (bio_set_dev_status DEVS_COMM_IDLE w))"

text \<open>
  Of a feature value the driver encodes \<open>sizeof\<close> a pointer bytes, 8, whatever the size of the
  image; the buffer of the text has twice the size of the image and one byte.
\<close>

definition community_ops_capture :: "OpsActions \<Rightarrow> (('pr, 'sc) driver_info, string option) call" where
  "community_ops_capture action w =
     (if enable (w_dev w) = 0 then Inr (None, hook_disabled w)
      else let w = bio_set_dev_status DEVS_CAPTURE_DOING w
           in bindR (finger_capture w) (\<lambda>(data, w).
              case data of
                None \<Rightarrow> Inr (None, w)
              | Some data \<Rightarrow>
                  if eigtype (bioinfo (w_dev w)) = EigT_Data
                  then bindR (c_string data) (\<lambda>s. Inr (Some s, capture_done w))
                  else bindR (bio_base64_encode data 8) (\<lambda>s.
                       bindR (fits (length s + 1) (length data * 2 + 1)) (\<lambda>_.
                       Inr (Some s, capture_done w)))))"

section \<open>Enrolling\<close>

text \<open>
  The template is serialised, encrypted, encoded and stored; what storing answers is not looked
  at. When serialising fails the callback returns without completing the request.
\<close>

definition store_template ::
    "host \<Rightarrow> int \<Rightarrow> int \<Rightarrow> string option \<Rightarrow> byte list \<Rightarrow> ('pr, 'sc) cworld \<Rightarrow> ('pr, 'sc) cworld res" where
  "store_template h uid idx idx_name data w =
     bindR (encode_template (aes_key (w_priv w)) data) (\<lambda>feature_encode.
     case bio_sto_new_feature_info uid (biotype_code (biotype (bioinfo (w_dev w))))
            (device_name (w_dev w)) idx idx_name of
       None \<Rightarrow> Inl Null_deref
     | Some info \<Rightarrow>
         let sample = (bio_sto_new_feature_sample (-1) None)
               \<lparr>sa_no := int (length data), sa_data := Some feature_encode\<rparr>
         in bindR (print_feature_info [info\<lparr>fi_sample := [sample]\<rparr>]) (\<lambda>_.
            bindR (bio_sto_connect_db (w_store w)) (\<lambda>(db, s).
            bindR (bio_sto_set_feature_info h db [info\<lparr>fi_sample := [sample]\<rparr>] s) (\<lambda>(_, s).
            Inr (set_store (bio_sto_disconnect_db s) w)))))"

definition on_enroll_progress :: "('pr, 'sc) fp_lib \<Rightarrow> int \<Rightarrow> ('pr, 'sc) cworld \<Rightarrow> ('pr, 'sc) cworld" where
  "on_enroll_progress lib stage w =
     upd_priv (\<lambda>p. p\<lparr>timeused := 0\<rparr>)
       (extended_message (''Enroll stage[ '' @ show_int stage @ '' / '' @ show_int (fp_stages lib)
          @ '' ] passed. Yay! Please press your finger again.'' @ [CHR 0x0A]) w)"

definition on_enroll_completed ::
    "host \<Rightarrow> ('pr, 'sc) fp_lib \<Rightarrow> int \<Rightarrow> int \<Rightarrow> string option \<Rightarrow> 'pr option \<Rightarrow>
     ('pr, 'sc) cworld \<Rightarrow> ('pr, 'sc) cworld res" where
  "on_enroll_completed h lib uid idx idx_name result w =
     (case result of
        None \<Rightarrow> Inr (set_asyn ASYN_FLAG_DONE w)
      | Some print \<Rightarrow>
          (case fp_serialize lib print of
             None \<Rightarrow> Inr w
           | Some data \<Rightarrow>
               bindR (store_template h uid idx idx_name data w) (\<lambda>w.
               Inr (set_asyn ASYN_FLAG_DONE (set_final OPS_ENROLL_SUCCESS NOTIFY_ENROLL_SUCCESS w)))))"

fun enroll_callback ::
    "host \<Rightarrow> ('pr, 'sc) fp_lib \<Rightarrow> int \<Rightarrow> int \<Rightarrow> string option \<Rightarrow> ('pr, 'sc, unit) callback" where
  "enroll_callback h lib uid idx idx_name (Enroll_progress n) s w = Inr (s, on_enroll_progress lib n w)"
| "enroll_callback h lib uid idx idx_name (Enroll_completed r) s w =
     bindR (on_enroll_completed h lib uid idx idx_name r w) (\<lambda>w. Inr (s, w))"
| "enroll_callback h lib uid idx idx_name _ s w = Inr (s, w)"

definition community_ops_enroll ::
    "host \<Rightarrow> ('pr, 'sc) fp_lib \<Rightarrow> OpsActions \<Rightarrow> int \<Rightarrow> int \<Rightarrow> string option \<Rightarrow>
     (('pr, 'sc) driver_info, int) call" where
  "community_ops_enroll h lib action uid idx bio_idx_name w =
     bindR (if idx = -1 then bio_common_get_empty_index h uid 0 (-1) w else Inr (idx, w)) (\<lambda>(idx, w).
     if enable (w_dev w) = 0 then Inr (-1, hook_disabled w)
     else let w = extended_message (''enroll start ! Please press your finger.'' @ [CHR 0x0A])
                    (start_request (bio_set_dev_status DEVS_ENROLL_DOING w))
          in bindR (await (enroll_callback h lib uid idx bio_idx_name) True () w) (\<lambda>(r, _, w).
             case r of
               Finished \<Rightarrow> Inr (0, w)
             | Timed_out \<Rightarrow> Inr (-1, set_final OPS_ENROLL_TIMEOUT NOTIFY_ENROLL_TIMEOUT w)
             | Stopped \<Rightarrow> Inr (-1, w)))"

section \<open>Verifying\<close>

text \<open>The result of a comparison, as the callbacks report it to the user.\<close>

definition report_match :: "string \<Rightarrow> int \<Rightarrow> int \<Rightarrow> ('pr, 'sc) cworld \<Rightarrow> ('pr, 'sc) cworld" where
  "report_match text result mid w =
     bio_set_notify_abs_mid MID_EXTENDED_MESSAGE
       (bio_set_notify_abs_mid mid (bio_set_ops_abs_result result (set_extra_info text w)))"

definition on_match_cb_verify ::
    "('pr, 'sc) fp_lib \<Rightarrow> 'pr \<Rightarrow> 'sc option \<Rightarrow> ('pr, 'sc) cworld \<Rightarrow> ('pr, 'sc) cworld" where
  "on_match_cb_verify lib print scan w =
     (case scan of
        None \<Rightarrow> w
      | Some scan \<Rightarrow>
          if fp_compare lib print scan
          then report_match ''_Verify fingerprint template successful'' OPS_VERIFY_MATCH NOTIFY_VERIFY_MATCH w
          else report_match ''_Verify fingerprint template fail'' OPS_VERIFY_NO_MATCH NOTIFY_VERIFY_NO_MATCH w)"

fun verify_callback :: "('pr, 'sc) fp_lib \<Rightarrow> 'pr \<Rightarrow> ('pr, 'sc, unit) callback" where
  "verify_callback lib print (Match_report scan) s w = Inr (s, on_match_cb_verify lib print scan w)"
| "verify_callback lib print Match_completed s w = Inr (s, set_asyn ASYN_FLAG_DONE w)"
| "verify_callback lib print _ s w = Inr (s, w)"

definition community_ops_verify ::
    "host \<Rightarrow> ('pr, 'sc) fp_lib \<Rightarrow> OpsActions \<Rightarrow> int \<Rightarrow> int \<Rightarrow> (('pr, 'sc) driver_info, int) call" where
  "community_ops_verify h lib action uid idx w =
     (if enable (w_dev w) = 0 then Inr (-1, bio_set_dev_status DEVS_COMM_DISABLE w)
      else let w = start_request (bio_set_dev_status DEVS_VERIFY_DOING w)
           in bindR (query_printed h uid idx idx w) (\<lambda>(info_list, w).
              case info_list of
                [] \<Rightarrow> Inl Null_deref
              | info # _ \<Rightarrow>
                  (case fi_sample info of
                     [] \<Rightarrow> Inl Null_deref
                   | sample # _ \<Rightarrow>
                       bindR (decode_sample lib (aes_key (w_priv w)) sample) (\<lambda>print.
                       case print of
                         None \<Rightarrow> Inr (-1, w)
                       | Some verify_print \<Rightarrow>
                           let w = extended_message (''verify start ! Please press your finger.'' @ [CHR 0x0A]) w
                           in bindR (await (verify_callback lib verify_print) True () w) (\<lambda>(r, _, w).
                              case r of
                                Finished \<Rightarrow> Inr (0, bio_set_dev_status DEVS_COMM_IDLE w)
                              | Timed_out \<Rightarrow> Inr (-1, set_final OPS_VERIFY_TIMEOUT NOTIFY_VERIFY_TIMEOUT w)
                              | Stopped \<Rightarrow> Inr (-1, w))))))"

section \<open>Identifying\<close>

text \<open>The matched print is compared with every stored sample; the last equal one gives the user.\<close>

fun identify_samples ::
    "('pr, 'sc) fp_lib \<Rightarrow> byte list option \<Rightarrow> 'pr \<Rightarrow> (int \<times> feature_sample) list \<Rightarrow> int \<Rightarrow> int res" where
  "identify_samples lib key m [] uid = Inr uid"
| "identify_samples lib key m ((u, x) # xs) uid =
     bindR (decode_sample lib key x) (\<lambda>compare_print.
       identify_samples lib key m xs
         (case compare_print of None \<Rightarrow> uid | Some c \<Rightarrow> if fp_equal lib m c then u else uid))"

definition on_match_cb_identify ::
    "host \<Rightarrow> ('pr, 'sc) fp_lib \<Rightarrow> int \<Rightarrow> int \<Rightarrow> 'pr option list \<Rightarrow> 'sc option \<Rightarrow> int \<Rightarrow>
     ('pr, 'sc) cworld \<Rightarrow> (int \<times> ('pr, 'sc) cworld) res" where
  "on_match_cb_identify h lib idx_start idx_end prints scan uid w =
     (case scan of
        None \<Rightarrow> Inr (uid, w)
      | Some scan \<Rightarrow>
          (case fp_identify lib prints scan of
             Some m \<Rightarrow>
               bindR (query_printed h uid idx_start idx_end w) (\<lambda>(info_list, w).
               bindR (identify_samples lib (aes_key (w_priv w)) m
                        (concat (map (\<lambda>i. map (Pair (fi_uid i)) (fi_sample i)) info_list)) uid) (\<lambda>uid.
               Inr (uid, report_match (''_identify fingerprint template successful, its uid is '' @ show_int uid)
                      OPS_IDENTIFY_MATCH NOTIFY_IDENTIFY_MATCH w)))
           | None \<Rightarrow>
               Inr (uid, report_match ''_identify fingerprint template fail''
                      OPS_IDENTIFY_NO_MATCH NOTIFY_IDENTIFY_NO_MATCH w)))"

fun identify_callback ::
    "host \<Rightarrow> ('pr, 'sc) fp_lib \<Rightarrow> int \<Rightarrow> int \<Rightarrow> 'pr option list \<Rightarrow> ('pr, 'sc, int) callback" where
  "identify_callback h lib i j prints (Match_report scan) uid w =
     on_match_cb_identify h lib i j prints scan uid w"
| "identify_callback h lib i j prints Match_completed uid w = Inr (uid, set_asyn ASYN_FLAG_DONE w)"
| "identify_callback h lib i j prints _ uid w = Inr (uid, w)"

text \<open>The status is set to the kind of operation (4), not to \<open>DEVS_IDENTIFY_DOING\<close> (401).\<close>

definition community_ops_identify ::
    "host \<Rightarrow> ('pr, 'sc) fp_lib \<Rightarrow> OpsActions \<Rightarrow> int \<Rightarrow> int \<Rightarrow> int \<Rightarrow> (('pr, 'sc) driver_info, int) call" where
  "community_ops_identify h lib action uid idx_start idx_end w =
     (if enable (w_dev w) = 0 then Inr (-1, bio_set_dev_status DEVS_COMM_DISABLE w)
      else let w = start_request (bio_set_dev_status OPS_TYPE_IDENTIFY w)
           in bindR (create_prints h lib uid idx_start idx_end w) (\<lambda>(prints, w).
              let w = extended_message (''identify start ! Please press your finger.'' @ [CHR 0x0A]) w
              in bindR (await (identify_callback h lib idx_start idx_end prints) True uid w) (\<lambda>(r, found, w).
                 case r of
                   Finished \<Rightarrow> Inr (found, bio_set_dev_status DEVS_COMM_IDLE w)
                 | Timed_out \<Rightarrow> Inr (-1, set_final OPS_IDENTIFY_TIMEOUT NOTIFY_IDENTIFY_TIMEOUT w)
                 | Stopped \<Rightarrow> Inr (-1, w))))"

section \<open>Searching\<close>

text \<open>
  The data of a search: the index the next round starts from, the list behind \<open>found_head\<close>, and the
  pointer \<open>found\<close>: \<open>Some 0\<close> is the address of \<open>found_head\<close>, \<open>Some n\<close> the \<open>n\<close>-th node, \<open>None\<close> null.
\<close>

record search_data =
  sd_index :: int
  sd_list :: "feature_info list"
  sd_found :: "nat option"

definition add_found :: "feature_info \<Rightarrow> feature_sample \<Rightarrow> search_data \<Rightarrow> search_data res" where
  "add_found i x d =
     (case sd_found d of
        None \<Rightarrow> Inl Null_deref
      | Some k \<Rightarrow>
          (case bio_sto_new_feature_info (fi_uid i) (fi_biotype i) (fi_driver i) (fi_index i) (fi_index_name i) of
             None \<Rightarrow> Inl Null_deref
           | Some n \<Rightarrow> Inr \<lparr>sd_index = fi_index i,
               sd_list = take k (sd_list d) @ [n\<lparr>fi_sample := [bio_sto_new_feature_sample (sa_no x) (sa_data x)]\<rparr>],
               sd_found = Some (k + 1)\<rparr>))"

text \<open>
  The loop over the samples of one feature. After a sample that differs it releases the
  decoding buffer; when another sample follows, it releases the same buffer a second time at the
  end of the round.
\<close>

fun search_samples ::
    "('pr, 'sc) fp_lib \<Rightarrow> byte list option \<Rightarrow> 'pr \<Rightarrow> feature_info \<Rightarrow> feature_sample list \<Rightarrow>
     search_data \<Rightarrow> search_data res" where
  "search_samples lib key m i [] d = Inr d"
| "search_samples lib key m i (x # xs) d =
     bindR (decode_sample lib key x) (\<lambda>compare_print.
       if (case compare_print of None \<Rightarrow> False | Some c \<Rightarrow> fp_equal lib m c)
       then bindR (add_found i x d) (search_samples lib key m i xs)
       else if xs = [] then Inr d else Inl Bad_memory)"

fun search_features ::
    "('pr, 'sc) fp_lib \<Rightarrow> byte list option \<Rightarrow> 'pr \<Rightarrow> feature_info list \<Rightarrow> search_data \<Rightarrow> search_data res" where
  "search_features lib key m [] d = Inr d"
| "search_features lib key m (i # is) d =
     bindR (search_samples lib key m i (fi_sample i) d) (search_features lib key m is)"

definition on_match_cb_search ::
    "host \<Rightarrow> ('pr, 'sc) fp_lib \<Rightarrow> int \<Rightarrow> int \<Rightarrow> 'pr option list \<Rightarrow> 'sc option \<Rightarrow> search_data \<Rightarrow>
     ('pr, 'sc) cworld \<Rightarrow> (search_data \<times> ('pr, 'sc) cworld) res" where
  "on_match_cb_search h lib uid idx_end prints scan d w =
     (case scan of
        None \<Rightarrow> Inr (d, w)
      | Some scan \<Rightarrow>
          (case fp_identify lib prints scan of
             Some m \<Rightarrow>
               bindR (query_printed h uid (sd_index d) idx_end w) (\<lambda>(info_list, w).
               bindR (search_features lib (aes_key (w_priv w)) m info_list d) (\<lambda>d.
               Inr (d, extended_message (''search successful [index = '' @ show_int (sd_index d)
                         @ ''] ! Please press your finger again to search.'' @ [CHR 0x0A]) w)))
           | None \<Rightarrow>
               Inr (d\<lparr>sd_found := (if sd_list d = [] then None else Some 1)\<rparr>, set_ctrl CONTROL_FLAG_DONE w)))"

fun search_callback ::
    "host \<Rightarrow> ('pr, 'sc) fp_lib \<Rightarrow> int \<Rightarrow> int \<Rightarrow> 'pr option list \<Rightarrow> ('pr, 'sc, search_data) callback" where
  "search_callback h lib uid j prints (Match_report scan) d w = on_match_cb_search h lib uid j prints scan d w"
| "search_callback h lib uid j prints Match_completed d w = Inr (d, set_asyn ASYN_FLAG_DONE w)"
| "search_callback h lib uid j prints _ d w = Inr (d, w)"

text \<open>
  The rounds of a search, at most \<open>n\<close>. A finished round has taken from the schedule, so its
  length is enough rounds; with none left the search would wait for ever.
\<close>

fun search_rounds ::
    "host \<Rightarrow> ('pr, 'sc) fp_lib \<Rightarrow> int \<Rightarrow> int \<Rightarrow> nat \<Rightarrow> search_data \<Rightarrow> ('pr, 'sc) cworld \<Rightarrow>
     (outcome \<times> search_data \<times> ('pr, 'sc) cworld) res" where
  "search_rounds h lib uid idx_end n d w =
     (if ctrlFlag (w_priv w) = CONTROL_FLAG_DONE then Inr (Finished, d, w)
      else case n of
             0 \<Rightarrow> Inl Hang
           | Suc n \<Rightarrow>
               bindR (create_prints h lib uid (sd_index d) idx_end (start_request w)) (\<lambda>(prints, w).
               bindR (await (search_callback h lib uid idx_end prints) True d w) (\<lambda>(r, d, w).
               case r of
                 Finished \<Rightarrow> bindR (c_int (sd_index d + 1)) (\<lambda>i.
                   search_rounds h lib uid idx_end n (d\<lparr>sd_index := i\<rparr>) w)
               | _ \<Rightarrow> Inr (r, d, w))))"

definition found_list :: "search_data \<Rightarrow> feature_info list res" where
  "found_list d =
     (case sd_found d of
        None \<Rightarrow> Inr []
      | Some k \<Rightarrow> if k = 0 then Inl Bad_memory else Inr (drop (k - 1) (sd_list d)))"

definition community_ops_search ::
    "host \<Rightarrow> ('pr, 'sc) fp_lib \<Rightarrow> OpsActions \<Rightarrow> int \<Rightarrow> int \<Rightarrow> int \<Rightarrow>
     (('pr, 'sc) driver_info, feature_info list) call" where
  "community_ops_search h lib action uid idx_start idx_end w =
     (if enable (w_dev w) = 0 then Inr ([], bio_set_dev_status DEVS_COMM_DISABLE w)
      else let w = extended_message (''search start ! Please press your finger.'' @ [CHR 0x0A])
                     (bio_set_dev_status OPS_TYPE_SEARCH w)
           in bindR (search_rounds h lib uid idx_end (length (events (w_priv w)) + 1)
                      \<lparr>sd_index = 0, sd_list = [], sd_found = Some 0\<rparr> w) (\<lambda>(r, d, w).
              case r of
                Finished \<Rightarrow>
                  let w = (if sd_found d \<noteq> None
                           then report_match ''_search fingerprint template successful''
                                  OPS_SEARCH_MATCH NOTIFY_SEARCH_MATCH w
                           else report_match ''_search fingerprint template fail''
                                  OPS_SEARCH_NO_MATCH NOTIFY_SEARCH_NO_MATCH w)
                  in bindR (found_list d) (\<lambda>l. Inr (l, bio_set_dev_status DEVS_COMM_IDLE w))
              | Timed_out \<Rightarrow> Inr ([], set_final OPS_SEARCH_TIMEOUT NOTIFY_SEARCH_TIMEOUT w)
              | Stopped \<Rightarrow> Inr ([], w)))"

section \<open>Cleaning and listing\<close>

definition community_ops_clean ::
    "OpsActions \<Rightarrow> int \<Rightarrow> int \<Rightarrow> int \<Rightarrow> (('pr, 'sc) driver_info, int) call" where
  "community_ops_clean action uid idx_start idx_end w =
     (if enable (w_dev w) = 0 then Inr (0, bio_set_dev_status DEVS_COMM_DISABLE w)
      else let w = bio_set_dev_status DEVS_CLEAN_DOING w
           in bindR (bio_sto_connect_db (w_store w)) (\<lambda>(db, s).
              let (ret, s) = bio_sto_clean_feature_info db uid (biotype_code (biotype (bioinfo (w_dev w))))
                               (device_name (w_dev w)) idx_start idx_end s;
                  w = set_store (bio_sto_disconnect_db s) w;
                  w = (if ret = 0
                       then bio_set_notify_abs_mid NOTIFY_CLEAN_SUCCESS (bio_set_ops_abs_result OPS_CLEAN_SUCCESS w)
                       else bio_set_notify_abs_mid NOTIFY_CLEAN_FAIL (bio_set_ops_result OPS_CLEAN_FAIL w))
              in Inr (ret, bio_set_dev_status DEVS_COMM_IDLE w)))"

definition community_ops_get_feature_list ::
    "host \<Rightarrow> OpsActions \<Rightarrow> int \<Rightarrow> int \<Rightarrow> int \<Rightarrow> (('pr, 'sc) driver_info, feature_info list) call" where
  "community_ops_get_feature_list h action uid idx_start idx_end w =
     (if enable (w_dev w) = 0 then Inr ([], bio_set_dev_status DEVS_COMM_DISABLE w)
      else bindR (query_printed h uid idx_start idx_end (bio_set_dev_status OPS_TYPE_GET_FLIST w)) (\<lambda>(found, w).
           let w = set_extra_info ''_get_feature_list fingerprint template seccessful'' w;
               w = bio_set_dev_status DEVS_COMM_IDLE w;
               w = bio_set_notify_abs_mid MID_EXTENDED_MESSAGE (bio_set_ops_abs_result OPS_GET_FLIST_SUCCESS w)
           in Inr (found, bio_set_dev_status DEVS_COMM_IDLE w)))"

end
