(* ===== verification/Community_Init.thy ===== *)
theory Community_Init
  imports Community_Ops
begin

text \<open>
  Initialisation, discovery and release of the community driver (\<open>driver_internal.c\<close>,
  \<open>community_ops.c\<close>): the segment its instances share, the devices of the library, and the table
  of hooks.
\<close>

section \<open>The shared segment\<close>

definition upd_shm :: "(shm \<Rightarrow> shm) \<Rightarrow> ('pr, 'sc) cworld \<Rightarrow> ('pr, 'sc) cworld" where
  "upd_shm f = upd_priv (\<lambda>p. p\<lparr>shared := f (shared p)\<rparr>)"

text \<open>Without a segment \<open>shmat\<close> answers an address that is not one.\<close>

definition attached :: "('pr, 'sc) cworld \<Rightarrow> shared_number res" where
  "attached w = (case shm_segment (shared (w_priv w)) of None \<Rightarrow> Inl Bad_memory | Some sh \<Rightarrow> Inr sh)"

definition set_segment :: "shared_number \<Rightarrow> ('pr, 'sc) cworld \<Rightarrow> ('pr, 'sc) cworld" where
  "set_segment sh = upd_shm (\<lambda>m. m\<lparr>shm_segment := Some sh\<rparr>)"

text \<open>
  The loop over the devices, from the \<open>i\<close>-th on: the number of devices of this driver when all are,
  else 0; the last one looked at is left in the segment.
\<close>

fun discover_loop :: "string list \<Rightarrow> nat \<Rightarrow> string \<Rightarrow> int \<Rightarrow> nat option \<Rightarrow> int \<times> nat option" where
  "discover_loop [] i name deviceNum dev = (deviceNum, dev)"
| "discover_loop (d # ds) i name deviceNum dev =
     (if d = name then discover_loop ds (Suc i) name (deviceNum + 1) (Some i) else (0, Some i))"

definition device_discover :: "(('pr, 'sc) driver_info, int) call" where
  "device_discover w =
     bindR (attached w) (\<lambda>share.
     case sh_devices share of
       None \<Rightarrow> Inl Null_deref
     | Some ds \<Rightarrow>
         if ds = [] then Inr (0, w)
         else let (n, dev) = discover_loop ds 0 (community_driver_id (w_priv w)) 0 (sh_device share)
              in Inr (n, set_segment (share\<lparr>sh_device := dev\<rparr>) w))"

definition set_fp_common_context :: "(('pr, 'sc) driver_info, int) call" where
  "set_fp_common_context w =
     (if \<not> shm_locked (shared (w_priv w))
      then let w = upd_shm (\<lambda>m. m\<lparr>shm_locked := True\<rparr>) (upd_priv (\<lambda>p. p\<lparr>fd_locked := True\<rparr>) w);
               ds = fp_devices (shared (w_priv w));
               w = set_segment \<lparr>sh_devices = ds, sh_device = None, d_count = 0\<rparr> w
           in if ds = None then Inr (-1, w)
              else bindR (device_discover w) (\<lambda>(_, w).
                   bindR (attached w) (\<lambda>share.
                   Inr (0, upd_priv (\<lambda>p. p\<lparr>fp_device := sh_device share\<rparr>) (set_segment (share\<lparr>d_count := 1\<rparr>) w))))
      else bindR (attached w) (\<lambda>share.
           bindR (c_int (d_count share + 1)) (\<lambda>n.
           Inr (0, upd_priv (\<lambda>p. p\<lparr>fp_device := sh_device share\<rparr>) (set_segment (share\<lparr>d_count := n\<rparr>) w)))))"

section \<open>Initialisation, discovery, release\<close>

definition community_ops_driver_init :: "(('pr, 'sc) driver_info, int) call" where
  "community_ops_driver_init w =
     (let w = upd_priv (\<lambda>p. p\<lparr>timeoutMS := bio_get_ops_timeout_ms w, ctrlFlag := CONTROL_FLAG_IDLE,
                              cancellable := None\<rparr>) w
      in bindR (set_fp_common_context w) (\<lambda>(_, w). Inr (0, w)))"

text \<open>\<open>strcmp\<close> with what \<open>getenv\<close> answers, which is null for a variable that is not set.\<close>

definition env_is :: "string \<Rightarrow> string \<Rightarrow> ('pr, 'sc) cworld \<Rightarrow> bool res" where
  "env_is name value w =
     (case map_of (environ (shared (w_priv w))) name of None \<Rightarrow> Inl Null_deref | Some v \<Rightarrow> Inr (v = value))"

definition setenv_if_unset :: "string \<Rightarrow> string \<Rightarrow> ('pr, 'sc) cworld \<Rightarrow> ('pr, 'sc) cworld" where
  "setenv_if_unset name value =
     upd_shm (\<lambda>m. if map_of (environ m) name = None then m\<lparr>environ := (name, value) # environ m\<rparr> else m)"

definition community_ops_discover :: "(('pr, 'sc) driver_info, int) call" where
  "community_ops_discover w =
     bindR (env_is ''BIO_PRINT_LEVEL'' ''7'' w) (\<lambda>level.
     bindR (if level then env_is ''BIO_PRINT_COLOR'' ''1'' w else Inr False) (\<lambda>debug.
     let w = (if debug then setenv_if_unset ''G_MESSAGES_DEBUG'' ''all'' w else w)
     in bindR (device_discover w) (\<lambda>(ret, w).
        Inr (if ret < 0 then -1 else if ret = 0 then 0 else ret, w))))"

definition community_ops_free :: "(('pr, 'sc) driver_info, unit) call" where
  "community_ops_free w =
     bindR (attached w) (\<lambda>share.
     bindR (c_int (d_count share - 1)) (\<lambda>n.
     let w = set_segment (share\<lparr>d_count := n\<rparr>) w;
         w = (if n = 0
              then upd_shm (\<lambda>m. m\<lparr>shm_segment := None\<rparr>) (upd_priv (\<lambda>p. p\<lparr>fp_device := None\<rparr>) w)
              else w);
         w = (if fd_locked (w_priv w)
              then upd_shm (\<lambda>m. m\<lparr>shm_locked := False\<rparr>) (upd_priv (\<lambda>p. p\<lparr>fd_locked := False\<rparr>) w)
              else w)
     in Inr ((), w)))"

definition community_ops_attach :: "(('pr, 'sc) driver_info, unit) call" where
  "community_ops_attach w = Inr ((), w)"

definition community_ops_detach :: "(('pr, 'sc) driver_info, unit) call" where
  "community_ops_detach w = Inr ((), w)"

section \<open>The table of hooks\<close>

text \<open>What every \<open>ops_configure\<close> of the driver sets; capturing and renaming are left null.\<close>

definition community_ops :: "host \<Rightarrow> ('pr, 'sc) fp_lib \<Rightarrow> ('pr, 'sc) driver_info driver_ops" where
  "community_ops h lib =
     \<lparr>ops_driver_init = Some community_ops_driver_init,
      ops_free = Some community_ops_free,
      ops_discover = Some community_ops_discover,
      ops_open = Some community_ops_open,
      ops_close = Some community_ops_close,
      ops_capture = None,
      ops_enroll = Some (community_ops_enroll h lib),
      ops_verify = Some (community_ops_verify h lib),
      ops_identify = Some (community_ops_identify h lib),
      ops_search = Some (community_ops_search h lib),
      ops_clean = Some community_ops_clean,
      ops_get_feature_list = Some (community_ops_get_feature_list h),
      ops_feature_rename = None,
      ops_attach = Some community_ops_attach,
      ops_detach = Some community_ops_detach,
      ops_stop_by_user = Some community_ops_stop_by_user,
      ops_get_dev_status_mesg = Some community_ops_get_dev_status_mesg,
      ops_get_ops_result_mesg = Some community_ops_get_ops_result_mesg,
      ops_get_notify_mid_mesg = Some community_ops_get_notify_mid_mesg\<rparr>"

end
