(* ===== verification/Driver_Tables.thy ===== *)
theory Driver_Tables
  imports Community_Init Bio_Devlist
begin

text \<open>
  The twenty drivers built on the community driver
  (\<open>src/src/drivers/community-multidevice/drivers/*.c\<close>): the table of USB ids each one serves
  and its \<open>ops_configure\<close>, which differ in the name, the description, the table, and in whether
  capturing is offered.
\<close>

section \<open>What every \<open>ops_configure\<close> does\<close>

definition usb :: "16 word \<Rightarrow> 16 word \<Rightarrow> string \<Rightarrow> usb_id" where
  "usb v p s = \<lparr>idVendor = v, idProduct = p, description = Some s\<rparr>"

definition usb_end :: usb_id where
  "usb_end = \<lparr>idVendor = 0, idProduct = 0, description = None\<rparr>"

text \<open>\<open>g_new0\<close> zeroes the private structure; the surroundings are not part of it.\<close>

definition new_driver_info :: "string \<Rightarrow> byte list \<Rightarrow> ('pr, 'sc) driver_info \<Rightarrow> ('pr, 'sc) driver_info" where
  "new_driver_info name key p = p\<lparr>timeoutMS := 0, timeused := 0, ctrlFlag := 0, extra_info := '''',
     fp_device := None, asyn_flag := 0, cancellable := None, aes_key := Some key,
     community_driver_id := name, fd_locked := False\<rparr>"

definition finger_info :: BioInfo where
  "finger_info = \<lparr>biotype = BioT_FingerPrint, stotype = StoT_OS, eigtype = EigT_Eigenvalue,
     vertype = VerT_Software, idtype = IdT_Software, bustype = BusT_USB\<rparr>"

definition community_configure ::
    "key_env \<Rightarrow> string \<Rightarrow> string \<Rightarrow> usb_id list \<Rightarrow> ('pr, 'sc) driver_info driver_ops \<Rightarrow>
     ('pr, 'sc) driver_info configure" where
  "community_configure files name full table ops drvs conf w =
     bindR (bio_get_empty_driver_id drvs) (\<lambda>id.
     let w = upd_dev (\<lambda>d. bio_set_drv_api_version (d\<lparr>driver_id := id, device_name := Some name,
               full_name := Some full, bioinfo := finger_info, id_table := Some table, driver_data := 0\<rparr>)) w;
         w = bio_set_notify_mid NOTIFY_COMM_IDLE
               (bio_set_ops_result OPS_COMM_SUCCESS (bio_set_dev_status DEVS_COMM_IDLE w));
         w = upd_dev (\<lambda>d. d\<lparr>enable := bio_dev_is_enable conf d\<rparr>) w;
         key = community_para_config (files\<lparr>aes_key_file := kf_string conf name ''AESKey''\<rparr>)
     in Inr (0, ops, upd_priv (new_driver_info name key) w))"

section \<open>The drivers\<close>

definition aes1610_id_table :: "usb_id list" where
  "aes1610_id_table =
    [usb 0x08ff 0x1600 ''AuthenTec AES1610'', usb_end]"

definition aes1610_ops_configure ::
    "host \<Rightarrow> ('pr, 'sc) fp_lib \<Rightarrow> key_env \<Rightarrow> ('pr, 'sc) driver_info configure" where
  "aes1610_ops_configure h lib files =
     community_configure files ''aes1610'' ''AuthenTec AES1610'' aes1610_id_table
       (community_ops h lib)"

definition aes1660_id_table :: "usb_id list" where
  "aes1660_id_table =
    [usb 0x08ff 0x1660 ''AuthenTec AES1660'', usb 0x08ff 0x1680 ''AuthenTec AES1660'',
     usb 0x08ff 0x1681 ''AuthenTec AES1660'', usb 0x08ff 0x1682 ''AuthenTec AES1660'',
     usb 0x08ff 0x1683 ''AuthenTec AES1660'', usb 0x08ff 0x1684 ''AuthenTec AES1660'',
     usb 0x08ff 0x1685 ''AuthenTec AES1660'', usb 0x08ff 0x1686 ''AuthenTec AES1660'',
     usb 0x08ff 0x1687 ''AuthenTec AES1660'', usb 0x08ff 0x1688 ''AuthenTec AES1660'',
     usb 0x08ff 0x1689 ''AuthenTec AES1660'', usb 0x08ff 0x168a ''AuthenTec AES1660'',
     usb 0x08ff 0x168b ''AuthenTec AES1660'', usb 0x08ff 0x168c ''AuthenTec AES1660'',
     usb 0x08ff 0x168d ''AuthenTec AES1660'', usb 0x08ff 0x168e ''AuthenTec AES1660'',
     usb 0x08ff 0x168f ''AuthenTec AES1660'', usb_end]"

definition aes1660_ops_configure ::
    "host \<Rightarrow> ('pr, 'sc) fp_lib \<Rightarrow> key_env \<Rightarrow> ('pr, 'sc) driver_info configure" where
  "aes1660_ops_configure h lib files =
     community_configure files ''aes1660'' ''AuthenTec AES1660'' aes1660_id_table
       (community_ops h lib)"

definition aes2501_id_table :: "usb_id list" where
  "aes2501_id_table =
    [usb 0x08ff 0x2500 ''AES2500'', usb 0x08ff 0x2580 ''AES2501'', usb_end]"

definition aes2501_ops_configure ::
    "host \<Rightarrow> ('pr, 'sc) fp_lib \<Rightarrow> key_env \<Rightarrow> ('pr, 'sc) driver_info configure" where
  "aes2501_ops_configure h lib files =
     community_configure files ''aes2501'' ''AuthenTec AES2501/AES2500'' aes2501_id_table
       (community_ops h lib)"

definition aes2550_id_table :: "usb_id list" where
  "aes2550_id_table =
    [usb 0x08ff 0x2550 ''AES2550'', usb 0x08ff 0x2810 ''AES2810'', usb_end]"

definition aes2550_ops_configure ::
    "host \<Rightarrow> ('pr, 'sc) fp_lib \<Rightarrow> key_env \<Rightarrow> ('pr, 'sc) driver_info configure" where
  "aes2550_ops_configure h lib files =
     community_configure files ''aes2550'' ''AuthenTec AES2550/AES2810'' aes2550_id_table
       (community_ops h lib)"

definition aes2660_id_table :: "usb_id list" where
  "aes2660_id_table =
    [usb 0x08ff 0x2660 '''', usb 0x08ff 0x2680 '''', usb 0x08ff 0x2681 '''',
     usb 0x08ff 0x2682 '''', usb 0x08ff 0x2683 '''', usb 0x08ff 0x2684 '''',
     usb 0x08ff 0x2685 '''', usb 0x08ff 0x2686 '''', usb 0x08ff 0x2687 '''',
     usb 0x08ff 0x2688 '''', usb 0x08ff 0x2689 '''', usb 0x08ff 0x268a '''',
     usb 0x08ff 0x268b '''', usb 0x08ff 0x268c '''', usb 0x08ff 0x268d '''',
     usb 0x08ff 0x268e '''', usb 0x08ff 0x268f '''', usb 0x08ff 0x2691 '''', usb_end]"

definition aes2660_ops_configure ::
    "host \<Rightarrow> ('pr, 'sc) fp_lib \<Rightarrow> key_env \<Rightarrow> ('pr, 'sc) driver_info configure" where
  "aes2660_ops_configure h lib files =
     community_configure files ''aes2660'' ''AuthenTec AES2660'' aes2660_id_table
       (community_ops h lib)"

definition aes3500_id_table :: "usb_id list" where
  "aes3500_id_table =
    [usb 0x08ff 0x5731 ''AuthenTec AES3500'', usb_end]"

definition aes3500_ops_configure ::
    "host \<Rightarrow> ('pr, 'sc) fp_lib \<Rightarrow> key_env \<Rightarrow> ('pr, 'sc) driver_info configure" where
  "aes3500_ops_configure h lib files =
     community_configure files ''aes3500'' ''AuthenTec AES3500'' aes3500_id_table
       (community_ops h lib)"

definition aes4000_id_table :: "usb_id list" where
  "aes4000_id_table =
    [usb 0x08ff 0x5501 ''AuthenTec AES4000'', usb_end]"

definition aes4000_ops_configure ::
    "host \<Rightarrow> ('pr, 'sc) fp_lib \<Rightarrow> key_env \<Rightarrow> ('pr, 'sc) driver_info configure" where
  "aes4000_ops_configure h lib files =
     community_configure files ''aes4000'' ''AuthenTec AES4000'' aes4000_id_table
       (community_ops h lib)"

definition elan_id_table :: "usb_id list" where
  "elan_id_table =
    [usb 0x04f3 0x0903 ''ElanTech Fingerprint Sensor'', usb 0x04f3 0x0907 ''ELAN 0907'',
     usb 0x04f3 0x0c01 ''ElanTech Fingerprint Sensor'',
     usb 0x04f3 0x0c02 ''ElanTech Fingerprint Sensor'', usb 0x04f3 0x0c03 ''ELAN 0C03'',
     usb 0x04f3 0x0c04 ''ElanTech Fingerprint Sensor'',
     usb 0x04f3 0x0c05 ''ElanTech Fingerprint Sensor'',
     usb 0x04f3 0x0c06 ''ElanTech Fingerprint Sensor'',
     usb 0x04f3 0x0c07 ''ElanTech Fingerprint Sensor'',
     usb 0x04f3 0x0c08 ''ElanTech Fingerprint Sensor'',
     usb 0x04f3 0x0c09 ''ElanTech Fingerprint Sensor'',
     usb 0x04f3 0x0c0a ''ElanTech Fingerprint Sensor'',
     usb 0x04f3 0x0c0b ''ElanTech Fingerprint Sensor'',
     usb 0x04f3 0x0c0c ''ElanTech Fingerprint Sensor'',
     usb 0x04f3 0x0c0d ''ElanTech Fingerprint Sensor'',
     usb 0x04f3 0x0c0e ''ElanTech Fingerprint Sensor'',
     usb 0x04f3 0x0c0f ''ElanTech Fingerprint Sensor'',
     usb 0x04f3 0x0c10 ''ElanTech Fingerprint Sensor'',
     usb 0x04f3 0x0c11 ''ElanTech Fingerprint Sensor'',
     usb 0x04f3 0x0c12 ''ElanTech Fingerprint Sensor'',
     usb 0x04f3 0x0c13 ''ElanTech Fingerprint Sensor'',
     usb 0x04f3 0x0c14 ''ElanTech Fingerprint Sensor'',
     usb 0x04f3 0x0c15 ''ElanTech Fingerprint Sensor'',
     usb 0x04f3 0x0c16 ''ElanTech Fingerprint Sensor'',
     usb 0x04f3 0x0c17 ''ElanTech Fingerprint Sensor'',
     usb 0x04f3 0x0c18 ''ElanTech Fingerprint Sensor'',
     usb 0x04f3 0x0c19 ''ElanTech Fingerprint Sensor'',
     usb 0x04f3 0x0c1a ''ElanTech Fingerprint Sensor'',
     usb 0x04f3 0x0c1b ''ElanTech Fingerprint Sensor'',
     usb 0x04f3 0x0c1c ''ElanTech Fingerprint Sensor'',
     usb 0x04f3 0x0c1d ''ElanTech Fingerprint Sensor'',
     usb 0x04f3 0x0c1e ''ElanTech Fingerprint Sensor'',
     usb 0x04f3 0x0c1f ''ElanTech Fingerprint Sensor'',
     usb 0x04f3 0x0c20 ''ElanTech Fingerprint Sensor'',
     usb 0x04f3 0x0c21 ''ElanTech Fingerprint Sensor'',
     usb 0x04f3 0x0c22 ''ElanTech Fingerprint Sensor'',
     usb 0x04f3 0x0c23 ''ElanTech Fingerprint Sensor'',
     usb 0x04f3 0x0c24 ''ElanTech Fingerprint Sensor'',
     usb 0x04f3 0x0c25 ''ElanTech Fingerprint Sensor'',
     usb 0x04f3 0x0c26 ''ElanTech Fingerprint Sensor'',
     usb 0x04f3 0x0c27 ''ElanTech Fingerprint Sensor'',
     usb 0x04f3 0x0c28 ''ElanTech Fingerprint Sensor'',
     usb 0x04f3 0x0c29 ''ElanTech Fingerprint Sensor'',
     usb 0x04f3 0x0c2a ''ElanTech Fingerprint Sensor'',
     usb 0x04f3 0x0c2b ''ElanTech Fingerprint Sensor'',
     usb 0x04f3 0x0c2c ''ElanTech Fingerprint Sensor'',
     usb 0x04f3 0x0c2d ''ElanTech Fingerprint Sensor'',
     usb 0x04f3 0x0c2e ''ElanTech Fingerprint Sensor'',
     usb 0x04f3 0x0c2f ''ElanTech Fingerprint Sensor'',
     usb 0x04f3 0x0c30 ''ElanTech Fingerprint Sensor'',
     usb 0x04f3 0x0c31 ''ElanTech Fingerprint Sensor'',
     usb 0x04f3 0x0c32 ''ElanTech Fingerprint Sensor'',
     usb 0x04f3 0x0c33 ''ElanTech Fingerprint Sensor'', usb_end]"

definition elan_ops_configure ::
    "host \<Rightarrow> ('pr, 'sc) fp_lib \<Rightarrow> key_env \<Rightarrow> ('pr, 'sc) driver_info configure" where
  "elan_ops_configure h lib files =
     community_configure files ''elan'' ''ElanTech Fingerprint Sensor'' elan_id_table
       (community_ops h lib)"

definition etes603_id_table :: "usb_id list" where
  "etes603_id_table =
    [usb 0x1c7a 0x0603 ''EgisTec (aka Lightuning) ES603'', usb_end]"

definition etes603_ops_configure ::
    "host \<Rightarrow> ('pr, 'sc) fp_lib \<Rightarrow> key_env \<Rightarrow> ('pr, 'sc) driver_info configure" where
  "etes603_ops_configure h lib files =
     community_configure files ''etes603'' ''EgisTec (aka Lightuning) ES603'' etes603_id_table
       (community_ops h lib)"

definition fdu2000_id_table :: "usb_id list" where
  "fdu2000_id_table =
    [usb 0x1162 0x0300 ''Secugen FDU 2000'', usb_end]"

definition fdu2000_ops_configure ::
    "host \<Rightarrow> ('pr, 'sc) fp_lib \<Rightarrow> key_env \<Rightarrow> ('pr, 'sc) driver_info configure" where
  "fdu2000_ops_configure h lib files =
     community_configure files ''fdu2000'' ''Secugen FDU 2000'' fdu2000_id_table
       (community_ops h lib)"

definition upeksonly_id_table :: "usb_id list" where
  "upeksonly_id_table =
    [usb 0x147e 0x1000 ''UPEKSONLY_1000'', usb 0x147e 0x1001 ''UPEKSONLY_1001'', usb_end]"

definition upeksonly_ops_configure ::
    "host \<Rightarrow> ('pr, 'sc) fp_lib \<Rightarrow> key_env \<Rightarrow> ('pr, 'sc) driver_info configure" where
  "upeksonly_ops_configure h lib files =
     community_configure files ''upeksonly'' ''UPEK TouchStrip Sensor-Only'' upeksonly_id_table
       (community_ops h lib)"

definition upektc_id_table :: "usb_id list" where
  "upektc_id_table =
    [usb 0x0483 0x2015 ''UPEKTC_2015'', usb 0x147e 0x3001 ''UPEKTC_3001'', usb_end]"

definition upektc_ops_configure ::
    "host \<Rightarrow> ('pr, 'sc) fp_lib \<Rightarrow> key_env \<Rightarrow> ('pr, 'sc) driver_info configure" where
  "upektc_ops_configure h lib files =
     community_configure files ''upektc'' ''UPEK TouchChip/Eikon Touch 300'' upektc_id_table
       (community_ops h lib)"

definition upektc_img_id_table :: "usb_id list" where
  "upektc_img_id_table =
    [usb 0x147e 0x2020 '''', usb_end]"

definition upektc_img_ops_configure ::
    "host \<Rightarrow> ('pr, 'sc) fp_lib \<Rightarrow> key_env \<Rightarrow> ('pr, 'sc) driver_info configure" where
  "upektc_img_ops_configure h lib files =
     community_configure files ''upektc_img'' ''Upek TouchChip Fingerprint Coprocessor'' upektc_img_id_table
       (community_ops h lib)"

definition upekts_id_table :: "usb_id list" where
  "upekts_id_table =
    [usb 0x0483 0x2016 '''', usb_end]"

definition upekts_ops_configure ::
    "host \<Rightarrow> ('pr, 'sc) fp_lib \<Rightarrow> key_env \<Rightarrow> ('pr, 'sc) driver_info configure" where
  "upekts_ops_configure h lib files =
     community_configure files ''upekts'' ''UPEK TouchStrip'' upekts_id_table
       (community_ops h lib)"

definition uru4000_id_table :: "usb_id list" where
  "uru4000_id_table =
    [usb 0x045e 0x00bb ''ms kbd with fp rdr'',
     usb 0x045e 0x00bc ''ms intellimouse with fp rdr'',
     usb 0x045e 0x00bd ''ms fp rdr (standalone)'',
     usb 0x045e 0x00ca ''ms fp rdr (standalone) v2'',
     usb 0x05ba 0x0007 ''dp uru4000 (standalone)'', usb 0x05ba 0x0008 ''dp uru4000 (keyboard)'',
     usb 0x05ba 0x000a ''dp uru4000b (standalone)'', usb_end]"

definition uru4000_ops_configure ::
    "host \<Rightarrow> ('pr, 'sc) fp_lib \<Rightarrow> key_env \<Rightarrow> ('pr, 'sc) driver_info configure" where
  "uru4000_ops_configure h lib files =
     community_configure files ''uru4000'' ''Digital Persona U.are.U 4000/4000B/4500'' uru4000_id_table
       ((community_ops h lib)\<lparr>ops_capture := Some community_ops_capture\<rparr>)"

definition vcom5s_id_table :: "usb_id list" where
  "vcom5s_id_table =
    [usb 0x061a 0x0110 ''Veridicom 5thSense'', usb_end]"

definition vcom5s_ops_configure ::
    "host \<Rightarrow> ('pr, 'sc) fp_lib \<Rightarrow> key_env \<Rightarrow> ('pr, 'sc) driver_info configure" where
  "vcom5s_ops_configure h lib files =
     community_configure files ''vcom5s'' ''Veridicom 5thSense'' vcom5s_id_table
       (community_ops h lib)"

definition vfs0050_id_table :: "usb_id list" where
  "vfs0050_id_table =
    [usb 0x138a 0x0050 '''', usb_end]"

definition vfs0050_ops_configure ::
    "host \<Rightarrow> ('pr, 'sc) fp_lib \<Rightarrow> key_env \<Rightarrow> ('pr, 'sc) driver_info configure" where
  "vfs0050_ops_configure h lib files =
     community_configure files ''vfs0050'' ''Validity VFS0050'' vfs0050_id_table
       (community_ops h lib)"

definition vfs101_id_table :: "usb_id list" where
  "vfs101_id_table =
    [usb 0x138a 0x0001 '''', usb_end]"

definition vfs101_ops_configure ::
    "host \<Rightarrow> ('pr, 'sc) fp_lib \<Rightarrow> key_env \<Rightarrow> ('pr, 'sc) driver_info configure" where
  "vfs101_ops_configure h lib files =
     community_configure files ''vfs101'' ''Validity VFS101'' vfs101_id_table
       (community_ops h lib)"

definition vfs301_id_table :: "usb_id list" where
  "vfs301_id_table =
    [usb 0x138a 0x0005 ''vfs301'', usb 0x138a 0x0008 ''vfs300'', usb_end]"

definition vfs301_ops_configure ::
    "host \<Rightarrow> ('pr, 'sc) fp_lib \<Rightarrow> key_env \<Rightarrow> ('pr, 'sc) driver_info configure" where
  "vfs301_ops_configure h lib files =
     community_configure files ''vfs301'' ''Validity VFS301'' vfs301_id_table
       (community_ops h lib)"

definition vfs5011_id_table :: "usb_id list" where
  "vfs5011_id_table =
    [usb 0x138a 0x0010 ''Validity device from some Toshiba laptops'',
     usb 0x138a 0x0011 ''vfs5011'',
     usb 0x138a 0x0017 ''Validity device from Lenovo T440 laptops'',
     usb 0x138a 0x0018 ''one more Validity device'', usb_end]"

definition vfs5011_ops_configure ::
    "host \<Rightarrow> ('pr, 'sc) fp_lib \<Rightarrow> key_env \<Rightarrow> ('pr, 'sc) driver_info configure" where
  "vfs5011_ops_configure h lib files =
     community_configure files ''vfs5011'' ''Validity VFS5011'' vfs5011_id_table
       (community_ops h lib)"

text \<open>All of them: names and tables, and their configuration functions.\<close>

definition community_tables :: "(string \<times> usb_id list) list" where
  "community_tables =
    [(''aes1610'', aes1610_id_table), (''aes1660'', aes1660_id_table),
     (''aes2501'', aes2501_id_table), (''aes2550'', aes2550_id_table),
     (''aes2660'', aes2660_id_table), (''aes3500'', aes3500_id_table),
     (''aes4000'', aes4000_id_table), (''elan'', elan_id_table),
     (''etes603'', etes603_id_table), (''fdu2000'', fdu2000_id_table),
     (''upeksonly'', upeksonly_id_table), (''upektc'', upektc_id_table),
     (''upektc_img'', upektc_img_id_table), (''upekts'', upekts_id_table),
     (''uru4000'', uru4000_id_table), (''vcom5s'', vcom5s_id_table),
     (''vfs0050'', vfs0050_id_table), (''vfs101'', vfs101_id_table),
     (''vfs301'', vfs301_id_table), (''vfs5011'', vfs5011_id_table)]"

definition community_drivers ::
    "host \<Rightarrow> ('pr, 'sc) fp_lib \<Rightarrow> key_env \<Rightarrow> ('pr, 'sc) driver_info configure list" where
  "community_drivers h lib files =
    [aes1610_ops_configure h lib files, aes1660_ops_configure h lib files,
     aes2501_ops_configure h lib files, aes2550_ops_configure h lib files,
     aes2660_ops_configure h lib files, aes3500_ops_configure h lib files,
     aes4000_ops_configure h lib files, elan_ops_configure h lib files,
     etes603_ops_configure h lib files, fdu2000_ops_configure h lib files,
     upeksonly_ops_configure h lib files, upektc_ops_configure h lib files,
     upektc_img_ops_configure h lib files, upekts_ops_configure h lib files,
     uru4000_ops_configure h lib files, vcom5s_ops_configure h lib files,
     vfs0050_ops_configure h lib files, vfs101_ops_configure h lib files,
     vfs301_ops_configure h lib files, vfs5011_ops_configure h lib files]"

section \<open>The tables\<close>

definition table_ids :: "usb_id list \<Rightarrow> (16 word \<times> 16 word) list" where
  "table_ids t = map (\<lambda>e. (idVendor e, idProduct e)) (table_entries t)"

text \<open>
  Every driver has a name and a table of its own: each table ends at its terminating entry and
  lists at least one device, and no USB device is listed by two drivers, or twice by one.
\<close>

theorem tables_disjoint:
  "distinct (map fst community_tables)
    \<and> distinct (concat (map (table_ids \<circ> snd) community_tables))
    \<and> list_all (\<lambda>(_, t). t = table_entries t @ [usb_end] \<and> table_entries t \<noteq> []) community_tables"
  by code_simp

section \<open>The configuration functions\<close>

definition community_dlopen ::
    "host \<Rightarrow> ('pr, 'sc) fp_lib \<Rightarrow> key_env \<Rightarrow> string \<Rightarrow> ('pr, 'sc) driver_info plugin option" where
  "community_dlopen h lib files path =
     map_option (\<lambda>cfg. \<lparr>ops_configure = Some cfg\<rparr>)
       (map_of (zip (map fst community_tables) (community_drivers h lib files)) path)"

lemmas configure_defs =
  aes1610_ops_configure_def aes1660_ops_configure_def aes2501_ops_configure_def aes2550_ops_configure_def
  aes2660_ops_configure_def aes3500_ops_configure_def aes4000_ops_configure_def elan_ops_configure_def
  etes603_ops_configure_def fdu2000_ops_configure_def upeksonly_ops_configure_def upektc_ops_configure_def
  upektc_img_ops_configure_def upekts_ops_configure_def uru4000_ops_configure_def vcom5s_ops_configure_def
  vfs0050_ops_configure_def vfs101_ops_configure_def vfs301_ops_configure_def vfs5011_ops_configure_def

text \<open>All configure alike; only \<open>uru4000\<close> offers capturing.\<close>

definition community_hooks :: "host \<Rightarrow> ('pr, 'sc) fp_lib \<Rightarrow> ('pr, 'sc) driver_info driver_ops \<Rightarrow> bool" where
  "community_hooks h lib ops \<longleftrightarrow>
     (\<exists>cap. ops = (community_ops h lib)\<lparr>ops_capture := cap\<rparr> \<and> (cap = None \<or> cap = Some community_ops_capture))"

lemma community_hooks_init: "community_hooks h lib ops \<Longrightarrow> ops_driver_init ops = Some community_ops_driver_init"
  by (auto simp: community_hooks_def community_ops_def)

lemma community_hooks_ops [simp]:
  "community_hooks h lib (community_ops h lib)"
  "community_hooks h lib ((community_ops h lib)\<lparr>ops_capture := Some community_ops_capture\<rparr>)"
  by (auto simp: community_hooks_def community_ops_def)

definition configures ::
    "host \<Rightarrow> ('pr, 'sc) fp_lib \<Rightarrow> key_env \<Rightarrow> ('pr, 'sc) driver_info configure \<Rightarrow> string \<Rightarrow> usb_id list \<Rightarrow> bool" where
  "configures h lib files cfg name t \<longleftrightarrow>
     (\<exists>full ops. cfg = community_configure files name full t ops \<and> community_hooks h lib ops)"

lemma configuresI:
  "community_hooks h lib ops \<Longrightarrow> configures h lib files (community_configure files name full t ops) name t"
  by (auto simp: configures_def)

lemma driver_configures:
  "list_all2 (\<lambda>cfg (name, t). configures h lib files cfg name t) (community_drivers h lib files) community_tables"
  unfolding community_drivers_def community_tables_def by (simp add: configure_defs configuresI)

lemma dlopen_configures:
  assumes "community_dlopen h lib files path = Some p" "ops_configure p = Some cfg"
  obtains t where "(path, t) \<in> set community_tables" "configures h lib files cfg path t"
proof -
  have "(path, cfg) \<in> set (zip (map fst community_tables) (community_drivers h lib files))"
    using assms by (auto simp: community_dlopen_def dest: map_of_SomeD)
  then obtain i where i: "i < length community_tables" "i < length (community_drivers h lib files)"
    "path = fst (community_tables ! i)" "cfg = community_drivers h lib files ! i"
    by (auto simp: in_set_zip)
  then have "configures h lib files cfg path (snd (community_tables ! i))"
    using list_all2_nthD [OF driver_configures i(2)] by (simp add: case_prod_beta)
  moreover have "(path, snd (community_tables ! i)) \<in> set community_tables"
    using i(1,3) nth_mem by force
  ultimately show ?thesis using that by blast
qed

lemma shared_dev [simp]: "w_dev (set_segment sh w) = w_dev w" "w_dev (upd_shm f w) = w_dev w"
  by (simp_all add: set_segment_def upd_shm_def)

lemma keeps_dev_discover: "on_return (device_discover w) (\<lambda>(_, w'). w_dev w' = w_dev w)"
proof (cases "attached w")
  case (Inr share)
  then show ?thesis
    by (cases "sh_devices share"; cases "discover_loop (the (sh_devices share)) 0 (community_driver_id (w_priv w)) 0
          (sh_device share)") (simp_all add: device_discover_def)
qed (simp add: device_discover_def)

lemma keeps_dev_context: "on_return (set_fp_common_context w) (\<lambda>(_, w'). w_dev w' = w_dev w)"
  unfolding set_fp_common_context_def Let_def on_return_bind
  using keeps_dev_discover
  by (auto simp: on_return_bind case_prod_beta) (fastforce simp: on_return_def bindR_eq_Inr)+

lemma keeps_dev_init: "on_return (community_ops_driver_init w) (\<lambda>(_, w'). w_dev w' = w_dev w)"
  unfolding community_ops_driver_init_def Let_def on_return_bind
  by (rule on_return_mono [OF keeps_dev_context]) auto

interpretation community_ids: fresh_driver_ids "community_dlopen h lib files"
proof
  fix path p cfg drvs conf w ops w'
  assume p: "community_dlopen h lib files path = Some p" "ops_configure p = Some cfg"
    and run: "cfg drvs conf w = Inr (0, ops, w')"
  from dlopen_configures [OF p] obtain t where "configures h lib files cfg path t" by blast
  then obtain full ops' where cfg: "cfg = community_configure files path full t ops'" "community_hooks h lib ops'"
    by (auto simp: configures_def)
  show "bio_get_empty_driver_id drvs = Inr (driver_id (w_dev w'))"
    using run unfolding cfg
    by (auto simp: community_configure_def bindR_eq_Inr Let_def bio_set_drv_api_version_def)
  fix f r w''
  assume f: "ops_driver_init ops = Some f" "f w' = Inr (r, w'')"
  have "ops = ops'" using run unfolding cfg by (auto simp: community_configure_def bindR_eq_Inr Let_def)
  then have "f = community_ops_driver_init" using community_hooks_init [OF cfg(2)] f(1) by simp
  then show "driver_id (w_dev w'') = driver_id (w_dev w')"
    using keeps_dev_init [of w'] f(2) by (simp add: on_return_def)
qed

text \<open>
  C31. Loading the community drivers gives every loaded driver an id of its own between 100 and
  1023, whatever the configuration file lists and whichever of the drivers fail.
\<close>

theorem loaded_driver_ids:
  assumes "bio_drv_list fw = []"
  shows "on_return (bio_driver_list_init conf (community_dlopen h lib files) fw) (\<lambda>(_, fw').
    distinct (driver_ids fw') \<and> (\<forall>i\<in>set (driver_ids fw'). 100 \<le> i \<and> i \<le> 1023))"
  by (rule community_ids.loaded_ids [OF assms])

text \<open>A library whose prints and scans are byte strings, and a machine with one reader.\<close>

definition demo_lib :: "(byte list, byte list) fp_lib" where
  "demo_lib = \<lparr>fp_serialize = Some, fp_deserialize = Some, fp_equal = (=), fp_compare = (=),
     fp_identify = (\<lambda>prints scan. if Some scan \<in> set prints then Some scan else None), fp_stages = 5\<rparr>"

definition demo_priv :: "(byte list, byte list) driver_info" where
  "demo_priv = \<lparr>timeoutMS = 30000, timeused = 0, ctrlFlag = 0, extra_info = '''', fp_device = Some 0, asyn_flag = 0,
     cancellable = Some False, aes_key = Some default_key_buf, community_driver_id = ''aes2501'', fd_locked = False,
     shared = \<lparr>shm_locked = False, shm_segment = None, fp_devices = Some [''aes2501''],
       environ = [(''BIO_PRINT_LEVEL'', ''3'')]\<rparr>, events = [], ctrl_writes = []\<rparr>"

definition demo_cworld :: "(byte list, byte list) cworld" where
  "demo_cworld = \<lparr>w_dev = idle_dev, bio_status_changed_callback = None, w_calls = [],
     w_store = ready_store [], bio_ops_timeout_ms = 30000, w_priv = demo_priv\<rparr>"

definition demo_conf :: key_file where
  "demo_conf = \<lparr>kf_groups = [''aes2501'', ''elan''], kf_string = (\<lambda>g k. if k = ''Driver'' then Some g else None),
     kf_boolean = (\<lambda>g k. Some True)\<rparr>"

definition demo_files :: key_env where
  "demo_files = \<lparr>aes_key_file = None, key_readable = (\<lambda>_. False), key_content = (\<lambda>_. None)\<rparr>"

definition no_drivers :: "(byte list, byte list) driver_info framework" where
  "no_drivers = \<lparr>bio_drv_list = [], bio_dev_list = [], fw_world = demo_cworld,
     bio_usb_device_hot_plug_callback = None, hotplug_calls = [], hotplug_watched = []\<rparr>"

theorem loaded_driver_ids_witness:
  "on_return (bio_driver_list_init (Some demo_conf) (community_dlopen demo_host demo_lib demo_files) no_drivers)
     (\<lambda>(_, fw'). distinct (driver_ids fw') \<and> list_all (\<lambda>i. 100 \<le> i \<and> i \<le> 1023) (driver_ids fw'))"
proof -
  have "bio_drv_list no_drivers = []" by (simp add: no_drivers_def)
  then show ?thesis
    using loaded_driver_ids [of no_drivers "Some demo_conf" demo_host demo_lib demo_files]
    by (simp add: list_all_iff)
qed

end
