(* ===== verification/Community_Laws.thy ===== *)
theory Community_Laws
  imports Driver_Tables Store_Frame
begin

text \<open>
  What the hooks of the community driver promise the framework: whatever the library reports and
  whichever calls of the database fail, an operation for a user changes of the device
  only its three status words, and in the database only rows of that user and that device.
\<close>

declare poll.simps [simp del] wait_stopped.simps [simp del] search_rounds.simps [simp del] digits.simps [simp del]

section \<open>Relations a waiting hook keeps\<close>

text \<open>
  A relation between worlds that is reflexive and transitive and that the status functions and
  the private data of the driver do not disturb. When the callback of a hook keeps it,
  so do the loops that wait for the library.
\<close>

definition keeps ::
    "(('pr, 'sc) cworld \<Rightarrow> ('pr, 'sc) cworld \<Rightarrow> bool) \<Rightarrow> ('pr, 'sc, 's) callback \<Rightarrow> bool" where
  "keeps rel cb \<longleftrightarrow> (\<forall>e s w. on_return (cb e s w) (\<lambda>(_, w'). rel w w'))"

lemma keepsI: "(\<And>e s w. on_return (cb e s w) (\<lambda>(_, w'). rel w w')) \<Longrightarrow> keeps rel cb"
  by (simp add: keeps_def)

locale world_relation =
  fixes rel :: "('pr, 'sc) cworld \<Rightarrow> ('pr, 'sc) cworld \<Rightarrow> bool"
  assumes rel_refl: "rel w w"
    and rel_trans: "rel w w' \<Longrightarrow> rel w' w'' \<Longrightarrow> rel w w''"
    and rel_priv: "rel w (upd_priv f w)"
    and rel_status: "rel w (bio_set_dev_status s w)" "rel w (bio_set_ops_result s w)"
      "rel w (bio_set_ops_abs_result s w)" "rel w (bio_set_notify_mid s w)" "rel w (bio_set_notify_abs_mid s w)"
begin

lemma rel_steps:
  "rel w (set_asyn v w)" "rel w (set_ctrl v w)" "rel w (cancel w)" "rel w (set_extra_info t w)"
  "rel w (start_request w)" "rel w (extended_message t w)" "rel w (request_stop w)"
  "rel w (stopped_by_user w)" "rel w (set_final r m w)" "rel w (hook_disabled w)"
  "rel w (report_match t r m w)"
proof -
  show 1: "rel w (set_asyn v w)" "rel w (set_ctrl v w)" "rel w (cancel w)" "rel w (set_extra_info t w)"
    "rel w (start_request w)" for w v t
    by (simp_all add: set_asyn_def set_ctrl_def cancel_def set_extra_info_def start_request_def rel_priv)
  show 2: "rel w (extended_message t w)" for w t
    unfolding extended_message_def by (rule rel_trans [OF 1(4) rel_status(5)])
  show "rel w (request_stop w)"
    unfolding request_stop_def by (rule rel_trans [OF 1(1) rel_trans [OF 1(2) 2]])
  show "rel w (stopped_by_user w)"
    unfolding stopped_by_user_def
    by (rule rel_trans [OF rel_status(2) rel_trans [OF rel_status(4) rel_trans [OF rel_status(1) rel_trans [OF 1(2) 1(3)]]]])
  show "rel w (set_final r m w)"
    unfolding set_final_def by (rule rel_trans [OF rel_status(3) rel_trans [OF rel_status(5) rel_status(1)]])
  show "rel w (hook_disabled w)"
    unfolding hook_disabled_def by (rule rel_trans [OF rel_status(1) rel_trans [OF rel_status(2) rel_status(5)]])
  show "rel w (report_match t r m w)"
    unfolding report_match_def
    by (rule rel_trans [OF 1(4) rel_trans [OF rel_status(3) rel_trans [OF rel_status(5) rel_status(5)]]])
qed

lemma handle_events_rel:
  "keeps rel cb \<Longrightarrow> handle_events cb es s w = Inr (s', w') \<Longrightarrow> rel w w'"
proof (induction es arbitrary: s w)
  case (Cons e es)
  obtain s1 w1 where h: "(case e of User_stop \<Rightarrow> Inr (s, if bio_get_dev_status w = DEVS_COMM_IDLE then w else request_stop w)
      | _ \<Rightarrow> cb e s w) = Inr (s1, w1)" "handle_events cb es s1 w1 = Inr (s', w')"
    using Cons.prems(2) by (auto simp: bindR_eq_Inr)
  have "rel w w1"
    using h(1) Cons.prems(1) rel_refl rel_steps(7)
    by (auto simp: keeps_def on_return_def split: fp_event.splits if_splits)
  then show ?case using rel_trans Cons.IH [OF Cons.prems(1) h(2)] by blast
qed (simp add: rel_refl)

lemma usleep_rel: "keeps rel cb \<Longrightarrow> usleep cb evs s w = Inr (evs', s', w') \<Longrightarrow> rel w w'"
  by (auto simp: usleep_def bindR_eq_Inr rel_refl handle_events_rel split: list.splits)

lemma wait_done_rel: "keeps rel cb \<Longrightarrow> wait_done cb evs s w = Inr (evs', s', w') \<Longrightarrow> rel w w'"
proof (induction cb evs s w rule: wait_done.induct)
  case (2 cb es evs s w)
  then obtain s1 w1 where h: "handle_events cb es s w = Inr (s1, w1)" by (auto simp: bindR_eq_Inr)
  have "rel w w1" using handle_events_rel [OF 2(2) h] .
  then show ?case using 2 h rel_trans by (auto split: if_splits)
qed (auto simp: rel_refl split: if_splits)

lemma poll_rel: "keeps rel cb \<Longrightarrow> poll cb stoppable evs s w = Inr (r, evs', s', w') \<Longrightarrow> rel w w'"
proof (induction cb stoppable evs s w rule: poll.induct)
  case (1 cb stoppable evs s w)
  obtain evs1 s1 w1 where u: "usleep cb evs s w = Inr (evs1, s1, w1)"
    using 1(4) by (subst (asm) poll.simps) (auto simp: bindR_eq_Inr)
  have r1: "rel w w1" using usleep_rel [OF 1(3) u] .
  show ?case
  proof (cases "asyn_flag (w_priv w1) = ASYN_FLAG_DONE")
    case True
    then show ?thesis using 1(4) u r1 by (subst (asm) poll.simps) simp
  next
    case run: False
    let ?late = "timeoutMS (w_priv w1) < timeused (w_priv w1)"
    let ?w2 = "if ?late then cancel w1 else w1"
    have r2: "rel w ?w2" using r1 rel_trans rel_steps(3) by auto
    show ?thesis
    proof (cases "?late \<and> is_cancelled ?w2")
      case True
      then have "wait_done cb evs1 s1 ?w2 = Inr (evs', s', w')"
        using 1(4) u run by (subst (asm) poll.simps) (auto simp: bindR_eq_Inr)
      then show ?thesis using wait_done_rel [OF 1(3)] r2 rel_trans by blast
    next
      case False
      then obtain t evs3 s3 w3 where c: "c_int (timeused (w_priv ?w2) + FINGER_CHECK_INTERVAL_MS) = Inr t"
        and v: "usleep cb evs1 s1 (upd_priv (\<lambda>p. p\<lparr>timeused := t\<rparr>) ?w2) = Inr (evs3, s3, w3)"
        using 1(4) u run by (subst (asm) poll.simps) (auto simp: bindR_eq_Inr Let_def split: if_splits)
      have r3: "rel w w3" using rel_trans [OF r2 rel_trans [OF rel_priv usleep_rel [OF 1(3) v]]] .
      note IH1 = 1(1) [OF u refl refl run refl False c v refl refl]
      note IH2 = 1(2) [OF u refl refl run refl False c v refl refl]
      have tail: "(if stoppable \<and> ctrlFlag (w_priv w3) = CONTROL_FLAG_STOPING
          then if is_cancelled (stopped_by_user w3)
               then bindR (wait_done cb evs3 s3 (stopped_by_user w3)) (\<lambda>(evs, s, w). Inr (Stopped, evs, s, w))
               else poll cb stoppable evs3 s3 (stopped_by_user w3)
          else poll cb stoppable evs3 s3 w3) = Inr (r, evs', s', w')"
        using 1(4) u run False c v
        by (subst (asm) poll.simps) (simp only: bindR.simps prod.case Let_def if_False if_True)
      show ?thesis
      proof (cases "stoppable \<and> ctrlFlag (w_priv w3) = CONTROL_FLAG_STOPING")
        case stop: True
        have r4: "rel w (stopped_by_user w3)" using rel_trans [OF r3 rel_steps(8)] .
        show ?thesis
        proof (cases "is_cancelled (stopped_by_user w3)")
          case True
          then have "wait_done cb evs3 s3 (stopped_by_user w3) = Inr (evs', s', w')"
            using tail stop by (auto simp: bindR_eq_Inr)
          then show ?thesis using rel_trans [OF r4 wait_done_rel [OF 1(3)]] by blast
        next
          case False
          then show ?thesis using tail stop IH1 1(3) rel_trans [OF r4] by simp
        qed
      next
        case False
        then have "poll cb stoppable evs3 s3 w3 = Inr (r, evs', s', w')" using tail by (simp only: if_False)
        then show ?thesis by (rule rel_trans [OF r3 IH2 [OF False 1(3)]])
      qed
    qed
  qed
qed

lemma await_rel: "keeps rel cb \<Longrightarrow> await cb stoppable s w = Inr (r, s', w') \<Longrightarrow> rel w w'"
  unfolding await_def by (auto simp: bindR_eq_Inr intro: rel_trans [OF poll_rel rel_priv])

lemmas rel_into =
  rel_refl rel_trans [OF _ rel_priv]
  rel_trans [OF _ rel_status(1)] rel_trans [OF _ rel_status(2)] rel_trans [OF _ rel_status(3)]
  rel_trans [OF _ rel_status(4)] rel_trans [OF _ rel_status(5)]
  rel_trans [OF _ rel_steps(1)] rel_trans [OF _ rel_steps(2)] rel_trans [OF _ rel_steps(3)]
  rel_trans [OF _ rel_steps(4)] rel_trans [OF _ rel_steps(5)] rel_trans [OF _ rel_steps(6)]
  rel_trans [OF _ rel_steps(7)] rel_trans [OF _ rel_steps(8)] rel_trans [OF _ rel_steps(9)]
  rel_trans [OF _ rel_steps(10)] rel_trans [OF _ rel_steps(11)]

text \<open>The rules for a call after a step, for calls in sequence, and for a call after a wait.\<close>

lemma rel_call: "on_return m (\<lambda>(_, w'). rel w1 w') \<Longrightarrow> rel w w1 \<Longrightarrow> on_return m (\<lambda>(_, w'). rel w w')"
  by (auto simp: on_return_def intro: rel_trans)

lemma rel_seq:
  assumes "on_return m (\<lambda>(_, w'). rel w w')" "\<And>x w'. rel w w' \<Longrightarrow> on_return (k x w') (\<lambda>(_, w''). rel w w'')"
  shows "on_return (bindR m (\<lambda>(x, w'). k x w')) (\<lambda>(_, w''). rel w w'')"
  using assms by (cases m) (auto split: prod.splits)

lemma rel_pure: "(\<And>x. rel w (v x)) \<Longrightarrow> on_return (bindR m (\<lambda>x. Inr (g x, v x))) (\<lambda>(_, w'). rel w w')"
  by (auto simp: on_return_def bindR_eq_Inr)

lemma await_seq:
  assumes "keeps rel cb" "rel w w1" "\<And>r s w'. rel w w' \<Longrightarrow> on_return (k r s w') (\<lambda>(_, w''). rel w w'')"
  shows "on_return (bindR (await cb stoppable s w1) (\<lambda>(r, s, w'). k r s w')) (\<lambda>(_, w''). rel w w'')"
proof (cases "await cb stoppable s w1")
  case (Inr p)
  obtain r s' w' where p: "p = (r, s', w')" by (metis prod.exhaust)
  have "rel w w'" using rel_trans [OF assms(2)] await_rel [OF assms(1)] Inr p by blast
  then show ?thesis using assms(3) Inr p by simp
qed simp

end

section \<open>The guarantee of the driver\<close>

text \<open>A device without its status words; the guarantee for a user.\<close>

definition identity :: "bio_dev \<Rightarrow> bio_dev" where
  "identity d = d\<lparr>dev_status := 0, ops_result := 0, notify_mid := 0\<rparr>"

definition guarantee :: "int \<Rightarrow> 'p bio_world \<Rightarrow> 'p bio_world \<Rightarrow> bool" where
  "guarantee u w w' \<longleftrightarrow> identity (w_dev w') = identity (w_dev w)
     \<and> (\<forall>d. device_name (w_dev w) = Some d \<longrightarrow> d \<noteq> '''' \<longrightarrow>
          frame u (biotype_code (biotype (bioinfo (w_dev w)))) d (w_store w) (w_store w'))"

lemma identity_fields:
  assumes "identity d = identity d'"
  shows "device_name d = device_name d'" "bioinfo d = bioinfo d'" "driver_id d = driver_id d'" "enable d = enable d'"
  using assms by (cases d; cases d'; simp add: identity_def)+

lemma identity_upd [simp]:
  "identity (d\<lparr>dev_status := s\<rparr>) = identity d" "identity (d\<lparr>ops_result := s\<rparr>) = identity d"
  "identity (d\<lparr>notify_mid := s\<rparr>) = identity d"
  by (simp_all add: identity_def)

lemma guarantee_refl: "guarantee u w w"
  by (simp add: guarantee_def frame_refl)

lemma guarantee_trans: "guarantee u w w' \<Longrightarrow> guarantee u w' w'' \<Longrightarrow> guarantee u w w''"
  using identity_fields(1,2) [of "w_dev w'" "w_dev w"] by (auto simp: guarantee_def intro: frame_trans)

text \<open>What leaves the device and the database alone keeps to the guarantee.\<close>

lemma guarantee_same: "identity (w_dev w') = identity (w_dev w) \<Longrightarrow> w_store w' = w_store w \<Longrightarrow> guarantee u w w'"
  by (simp add: guarantee_def frame_refl)

lemma guarantee_setters:
  "guarantee u w (bio_set_dev_status s w)" "guarantee u w (bio_set_ops_result s w)"
  "guarantee u w (bio_set_ops_abs_result s w)" "guarantee u w (bio_set_notify_mid s w)"
  "guarantee u w (bio_set_notify_abs_mid s w)" "guarantee u w (bio_set_all_abs_status s r m w)"
  by (rule guarantee_same; simp)+

lemma guarantee_priv: "guarantee u w (upd_priv f w)"
  by (rule guarantee_same; simp)

interpretation promise: world_relation "guarantee u :: ('pr, 'sc) cworld \<Rightarrow> ('pr, 'sc) cworld \<Rightarrow> bool" for u
  by unfold_locales (blast intro: guarantee_refl guarantee_trans guarantee_setters guarantee_priv)+

lemma query_guar: "on_return (query_db h uid i j w) (\<lambda>(_, w'). guarantee u w w')"
  using query_db_run by (fastforce simp: on_return_def guarantee_def)

lemma query_printed_guar: "on_return (query_printed h uid i j (w :: ('pr, 'sc) cworld)) (\<lambda>(_, w'). guarantee u w w')"
  unfolding query_printed_def by (rule promise.rel_seq [OF query_guar]) (auto simp: on_return_def bindR_eq_Inr)

lemma prints_guar: "on_return (create_prints h lib uid i j w) (\<lambda>(_, w'). guarantee u w w')"
  unfolding create_prints_def
  by (rule promise.rel_seq [OF query_printed_guar]) (auto simp: on_return_def bindR_eq_Inr)

lemma empty_index_guar: "on_return (bio_common_get_empty_index h uid i j (w :: ('pr, 'sc) cworld)) (\<lambda>(_, w'). guarantee u w w')"
  unfolding bio_common_get_empty_index_def Let_def
  by (rule promise.rel_seq [OF query_guar]) (auto simp: on_return_def bindR_eq_Inr)


section \<open>The callbacks\<close>

lemma open_keeps: "keeps (guarantee u) open_callback"
proof -
  have "on_return (open_callback e s w) (\<lambda>(_, w'). guarantee u w w')" for e s and w
    by (cases e) (auto simp: on_device_opened_def guarantee_refl promise.rel_steps)
  then show ?thesis by (rule keepsI)
qed

lemma close_keeps: "keeps (guarantee u) close_callback"
proof -
  have "on_return (close_callback e s w) (\<lambda>(_, w'). guarantee u w w')" for e s and w
    by (cases e) (auto simp: on_device_closed_def guarantee_refl promise.rel_steps)
  then show ?thesis by (rule keepsI)
qed

lemma capture_keeps: "keeps (guarantee u) capture_callback"
proof -
  have "on_return (capture_callback e s w) (\<lambda>(_, w'). guarantee u w w')" for e s and w
    by (cases "(e, s, w)" rule: capture_callback.cases) (auto simp: guarantee_refl promise.rel_steps)
  then show ?thesis by (rule keepsI)
qed

lemma verify_keeps: "keeps (guarantee u) (verify_callback lib print)"
proof -
  have "on_return (verify_callback lib print e s w) (\<lambda>(_, w'). guarantee u w w')" for e s and w
    by (cases e) (auto simp: on_match_cb_verify_def guarantee_refl promise.rel_steps split: option.split)
  then show ?thesis by (rule keepsI)
qed

lemma identify_keeps: "keeps (guarantee u) (identify_callback h lib i j prints)"
proof -
  have "on_return (on_match_cb_identify h lib i j prints scan uid w) (\<lambda>(_, w'). guarantee u w w')"
    for scan uid and w
    unfolding on_match_cb_identify_def
    by (cases scan; cases "fp_identify lib prints (the scan)")
       (auto simp: guarantee_refl promise.rel_steps intro!: promise.rel_seq [OF query_printed_guar] promise.rel_pure promise.rel_into)
  then have "on_return (identify_callback h lib i j prints e s w) (\<lambda>(_, w'). guarantee u w w')"
    for e s and w
    by (cases e) (auto simp: guarantee_refl promise.rel_steps)
  then show ?thesis by (rule keepsI)
qed

lemma search_keeps: "keeps (guarantee u) (search_callback h lib uid j prints)"
proof -
  have "on_return (on_match_cb_search h lib uid j prints scan d w) (\<lambda>(_, w'). guarantee u w w')"
    for scan d and w
    unfolding on_match_cb_search_def
    by (cases scan; cases "fp_identify lib prints (the scan)")
       (auto simp: guarantee_refl promise.rel_steps intro!: promise.rel_seq [OF query_printed_guar] promise.rel_pure promise.rel_into)
  then have "on_return (search_callback h lib uid j prints e s w) (\<lambda>(_, w'). guarantee u w w')"
    for e s and w
    by (cases e) (auto simp: guarantee_refl promise.rel_steps)
  then show ?thesis by (rule keepsI)
qed

text \<open>The template an enrollment stores is one of the user and the device.\<close>

lemma store_template_guar:
  "on_return (store_template h uid idx name data w) (guarantee uid w)"
proof -
  have "guarantee uid w w'" if run: "store_template h uid idx name data w = Inr w'" for w'
  proof -
    obtain code where "encode_template (aes_key (w_priv w)) data = Inr code"
      using run by (auto simp: store_template_def bindR_eq_Inr)
    moreover obtain info where i: "bio_sto_new_feature_info uid (biotype_code (biotype (bioinfo (w_dev w))))
        (device_name (w_dev w)) idx name = Some info"
      using run by (auto simp: store_template_def bindR_eq_Inr split: option.splits)
    ultimately obtain x db s1 ok s2 where c: "bio_sto_connect_db (w_store w) = Inr (db, s1)"
      and t: "bio_sto_set_feature_info h db [info\<lparr>fi_sample := [x]\<rparr>] s1 = Inr (ok, s2)"
      and w': "w' = set_store (bio_sto_disconnect_db s2) w"
      using run by (auto simp: store_template_def bindR_eq_Inr Let_def)
    have "frame uid (biotype_code (biotype (bioinfo (w_dev w)))) d (w_store w) (w_store w')"
      if d: "device_name (w_dev w) = Some d" for d
    proof -
      let ?b = "biotype_code (biotype (bioinfo (w_dev w)))"
      have "my_info uid ?b d (info\<lparr>fi_sample := [x]\<rparr>)"
        using i d by (auto simp: bio_sto_new_feature_info_def my_info_def internal_newstr_def split: if_splits)
      then have "frame uid ?b d s1 s2"
        using set_feature_info_frame [of "[info\<lparr>fi_sample := [x]\<rparr>]" uid ?b d h db s1] t by (simp add: on_return_def)
      moreover have "frame uid ?b d (w_store w) s1"
        using connect_frame [of "w_store w" uid ?b d] c by (simp add: on_return_def)
      ultimately show ?thesis
        using w' by (auto simp: set_store_def intro: frame_trans disconnect_frame)
    qed
    then show ?thesis using w' by (simp add: guarantee_def set_store_def)
  qed
  then show ?thesis by (simp add: on_return_def)
qed

lemma enroll_keeps: "keeps (guarantee uid) (enroll_callback h lib uid idx name)"
proof -
  have finish: "on_return (on_enroll_completed h lib uid idx name r w) (guarantee uid w)" for r and w
  proof (cases r)
    case (Some print)
    have step: "guarantee uid v (set_asyn ASYN_FLAG_DONE (set_final OPS_ENROLL_SUCCESS NOTIFY_ENROLL_SUCCESS v))"
      for v :: "('a, 'b) cworld"
      by (rule guarantee_trans [OF promise.rel_steps(9) promise.rel_steps(1)])
    show ?thesis
    proof (cases "fp_serialize lib print")
      case ser: (Some data)
      have "on_return (store_template h uid idx name data w)
          (\<lambda>v. guarantee uid w (set_asyn ASYN_FLAG_DONE (set_final OPS_ENROLL_SUCCESS NOTIFY_ENROLL_SUCCESS v)))"
        by (rule on_return_mono [OF store_template_guar]) (erule guarantee_trans [OF _ step])
      then show ?thesis by (simp add: on_enroll_completed_def Some ser on_return_bind)
    qed (simp add: on_enroll_completed_def Some guarantee_refl)
  qed (simp add: on_enroll_completed_def promise.rel_steps)
  have "on_return (enroll_callback h lib uid idx name e s w) (\<lambda>(_, w'). guarantee uid w w')"
    for e s and w
    using finish by (cases e) (auto simp: guarantee_refl on_return_bind on_enroll_progress_def
        intro: guarantee_trans [OF promise.rel_steps(6) guarantee_priv])
  then show ?thesis by (rule keepsI)
qed

section \<open>The hooks\<close>

text \<open>A hook that only reads keeps to the guarantee for any user \<open>u\<close>, not just for the one it is called for.\<close>

lemma final_guar:
  "guarantee u w w' \<Longrightarrow> guarantee u w (f w') \<Longrightarrow>
   on_return (case r of Finished \<Rightarrow> Inr (x, f w') | Timed_out \<Rightarrow> Inr (y, set_final a b w') | Stopped \<Rightarrow> Inr (z, w'))
     (\<lambda>(_, v). guarantee u w v)"
  by (auto intro!: promise.rel_into split: outcome.split)

lemma open_guar: "on_return (community_ops_open w) (\<lambda>(_, w'). guarantee u w w')"
  unfolding community_ops_open_def Let_def
  by (auto intro!: promise.await_seq [OF open_keeps] promise.rel_into)

lemma close_guar: "on_return (community_ops_close w) (\<lambda>(_, w'). guarantee u w w')"
  unfolding community_ops_close_def Let_def
  by (auto intro!: promise.await_seq [OF close_keeps] promise.rel_into)

lemma finger_guar: "on_return (finger_capture w) (\<lambda>(_, w'). guarantee u w w')"
  unfolding finger_capture_def Let_def
  by (auto intro!: promise.await_seq [OF capture_keeps] promise.rel_into split: outcome.split)

lemma capture_guar: "on_return (community_ops_capture a w) (\<lambda>(_, w'). guarantee u w w')"
proof -
  have last: "on_return (case data of None \<Rightarrow> Inr (None, w')
     | Some data \<Rightarrow> if eigtype (bioinfo (w_dev w')) = EigT_Data
         then bindR (c_string data) (\<lambda>s. Inr (Some s, capture_done w'))
         else bindR (bio_base64_encode data 8) (\<lambda>s.
              bindR (fits (length s + 1) (length data * 2 + 1)) (\<lambda>_. Inr (Some s, capture_done w'))))
     (\<lambda>(_, w'). guarantee u w w')" if w': "guarantee u w w'" for data and w' :: "('a, 'b) cworld"
    using w' by (cases data) (auto simp: on_return_def bindR_eq_Inr capture_done_def intro!: promise.rel_into)
  have "on_return (finger_capture (bio_set_dev_status DEVS_CAPTURE_DOING w)) (\<lambda>(_, w'). guarantee u w w')"
    by (rule promise.rel_call [OF finger_guar]) (intro promise.rel_into)
  then show ?thesis
    unfolding community_ops_capture_def Let_def
    by (auto intro!: promise.rel_seq last promise.rel_into)
qed

lemma enroll_guar: "on_return (community_ops_enroll h lib a u i n w) (\<lambda>(_, w'). guarantee u w w')"
  unfolding community_ops_enroll_def Let_def
  by (rule promise.rel_seq)
     (auto simp: guarantee_refl empty_index_guar intro!: promise.await_seq [OF enroll_keeps] final_guar promise.rel_into)

lemma verify_guar: "on_return (community_ops_verify h lib a uid i w) (\<lambda>(_, w'). guarantee u w w')"
proof -
  have last: "on_return (bindR (decode_sample lib (aes_key (w_priv w')) x) (\<lambda>print.
      case print of
        None \<Rightarrow> Inr (-1, w')
      | Some verify_print \<Rightarrow>
          bindR (await (verify_callback lib verify_print) True ()
              (extended_message t w')) (\<lambda>(r, _, w).
            case r of
              Finished \<Rightarrow> Inr (0, bio_set_dev_status DEVS_COMM_IDLE w)
            | Timed_out \<Rightarrow> Inr (-1, set_final OPS_VERIFY_TIMEOUT NOTIFY_VERIFY_TIMEOUT w)
            | Stopped \<Rightarrow> Inr (-1, w)))) (\<lambda>(_, w'). guarantee u w w')"
    if w': "guarantee u w w'" for x t w'
    using w'
    by (cases "decode_sample lib (aes_key (w_priv w')) x")
       (auto split: option.split intro!: promise.await_seq [OF verify_keeps] final_guar promise.rel_into)
  have "on_return (query_printed h uid i i (start_request (bio_set_dev_status DEVS_VERIFY_DOING w))) (\<lambda>(_, w'). guarantee u w w')"
    by (rule promise.rel_call [OF query_printed_guar]) (intro promise.rel_into)
  then show ?thesis
    unfolding community_ops_verify_def Let_def
    by (auto split: list.split intro!: promise.rel_seq last promise.rel_into)
qed

lemma identify_guar: "on_return (community_ops_identify h lib a uid i j w) (\<lambda>(_, w'). guarantee u w w')"
proof -
  have "on_return (create_prints h lib uid i j (start_request (bio_set_dev_status OPS_TYPE_IDENTIFY w)))
      (\<lambda>(_, w'). guarantee u w w')"
    by (rule promise.rel_call [OF prints_guar]) (intro promise.rel_into)
  then show ?thesis
    unfolding community_ops_identify_def Let_def
    by (auto intro!: promise.rel_seq promise.await_seq [OF identify_keeps] final_guar promise.rel_into)
qed

lemma search_rounds_guar:
  "guarantee u w w' \<Longrightarrow> on_return (search_rounds h lib uid j n d w') (\<lambda>(_, _, v). guarantee u w v)"
proof (induction n arbitrary: d w')
  case 0
  then show ?case by (simp add: search_rounds.simps)
next
  case (Suc n)
  have prints: "on_return (create_prints h lib uid (sd_index d) j (start_request w')) (\<lambda>(_, v). guarantee u w v)"
    by (rule promise.rel_call [OF prints_guar]) (intro promise.rel_into Suc.prems)
  have round: "on_return (bindR (await (search_callback h lib uid j prints) True d v) (\<lambda>(r, d, w).
      case r of Finished \<Rightarrow> bindR (c_int (sd_index d + 1)) (\<lambda>i.
                 search_rounds h lib uid j n (d\<lparr>sd_index := i\<rparr>) w)
              | _ \<Rightarrow> Inr (r, d, w))) (\<lambda>(_, _, v). guarantee u w v)" if "guarantee u w v" for prints v
  proof (cases "await (search_callback h lib uid j prints) True d v")
    case (Inr p)
    obtain r d' v' where p: "p = (r, d', v')" by (metis prod.exhaust)
    have v': "guarantee u w v'"
      using promise.await_rel [OF search_keeps] Inr p guarantee_trans that by blast
    show ?thesis
      using Inr p v' Suc.IH [OF v'] by (cases r; cases "c_int (sd_index d' + 1)") auto
  qed simp
  then show ?case
    using prints Suc.prems
    by (subst search_rounds.simps) (cases "create_prints h lib uid (sd_index d) j (start_request w')"; auto)
qed

lemma search_guar: "on_return (community_ops_search h lib a uid i j w) (\<lambda>(_, w'). guarantee u w w')"
proof (cases "enable (w_dev w) = 0")
  case False
  let ?w = "extended_message (''search start ! Please press your finger.'' @ [CHR 0x0A])
      (bio_set_dev_status OPS_TYPE_SEARCH w)"
  have start: "guarantee u w ?w" by (intro promise.rel_into)
  show ?thesis
  proof (cases "search_rounds h lib uid j (length (events (w_priv ?w)) + 1)
      \<lparr>sd_index = 0, sd_list = [], sd_found = Some 0\<rparr> ?w")
    case (Inr p)
    obtain r d v where p: "p = (r, d, v)" by (metis prod.exhaust)
    have v: "guarantee u w v" using search_rounds_guar [OF start] Inr p by (fastforce simp: on_return_def)
    then show ?thesis
      unfolding community_ops_search_def
      using False Inr p
      by (cases r) (auto simp: Let_def intro!: promise.rel_pure promise.rel_into)
  qed (use False in \<open>simp add: community_ops_search_def Let_def\<close>)
qed (auto simp: community_ops_search_def intro: promise.rel_into)

lemma clean_guar: "on_return (community_ops_clean a u i j w) (\<lambda>(_, w'). guarantee u w w')"
proof (cases "enable (w_dev w) = 0")
  case False
  show ?thesis
  proof (cases "bio_sto_connect_db (w_store w)")
    case (Inr p)
    obtain db s where p: "p = (db, s)" by fastforce
    let ?b = "biotype_code (biotype (bioinfo (w_dev w)))"
    obtain r s' where c: "bio_sto_clean_feature_info db u ?b (device_name (w_dev w)) i j s = (r, s')" by fastforce
    have fr: "frame u ?b d (w_store w) (bio_sto_disconnect_db s')" if "device_name (w_dev w) = Some d" "d \<noteq> ''''" for d
    proof -
      have "frame u ?b d (w_store w) s" using connect_frame [of "w_store w" u ?b d] Inr p by (simp add: on_return_def)
      moreover have "frame u ?b d s s'"
        using clean_frame c that biotype_code_nonneg by metis
      ultimately show ?thesis by (blast intro: frame_trans disconnect_frame)
    qed
    have start: "guarantee u w (set_store (bio_sto_disconnect_db s') (bio_set_dev_status DEVS_CLEAN_DOING w))"
      using fr by (simp add: guarantee_def set_store_def)
    show ?thesis
      using False Inr p c start
      by (auto simp: community_ops_clean_def Let_def intro!: promise.rel_into)
  qed (use False in \<open>simp add: community_ops_clean_def Let_def\<close>)
qed (auto simp: community_ops_clean_def intro: promise.rel_into)

lemma list_hook_guar: "on_return (community_ops_get_feature_list h a uid i j w) (\<lambda>(_, w'). guarantee u w w')"
proof -
  have "on_return (query_printed h uid i j (bio_set_dev_status OPS_TYPE_GET_FLIST w)) (\<lambda>(_, w'). guarantee u w w')"
    by (rule promise.rel_call [OF query_printed_guar]) (intro promise.rel_into)
  then show ?thesis
    unfolding community_ops_get_feature_list_def Let_def
    by (auto intro!: promise.rel_seq promise.rel_into)
qed

lemma stop_hook_guar: "on_return (community_ops_stop_by_user ms w) (\<lambda>(_, w'). guarantee u w w')"
  by (auto simp: community_ops_stop_by_user_def Let_def intro!: promise.rel_into)

lemma rename_by_db_guar:
  "on_return (bio_comm_feature_rename_by_db h u i n w) (\<lambda>(_, w'). guarantee u w (w' :: ('pr, 'sc) cworld))"
proof -
  have "guarantee u w w'" if run: "bio_comm_feature_rename_by_db h u i n w = Inr (r, w')" for r w'
  proof -
    obtain db s1 where c: "bio_sto_connect_db (w_store w) = Inr (db, s1)"
      using run by (cases "bio_sto_connect_db (w_store w)") (auto simp: bio_comm_feature_rename_by_db_def)
    let ?b = "biotype_code (biotype (bioinfo (w_dev w)))"
    obtain l s2 where g: "bio_sto_get_feature_info h db u ?b (device_name (w_dev w)) i i s1 = Inr (l, s2)"
      using run c by (cases "bio_sto_get_feature_info h db u ?b (device_name (w_dev w)) i i s1")
        (auto simp: bio_comm_feature_rename_by_db_def)
    obtain c3 n3 s3 where "rename_samples db u ?b (device_name (w_dev w)) i n
        (concat (map fi_sample (filter (\<lambda>f. fi_uid f = u \<and> fi_index f = i) l))) s2 = ((c3, n3), s3)"
      by (metis prod.exhaust)
    then have "w_dev w' = w_dev w"
      using run c g by (auto simp: bio_comm_feature_rename_by_db_def Let_def set_store_def)
    then show ?thesis using rename_by_db_frame(3) [OF _ refl run] by (simp add: guarantee_def)
  qed
  then show ?thesis unfolding on_return_def by fast
qed

section \<open>The contract\<close>

lemma default_list_guar:
  "on_return (bio_common_get_feature_list h a uid i j w) (\<lambda>(_, w'). guarantee u w (w' :: ('pr, 'sc) cworld))"
proof -
  have "on_return (query_printed h uid i j (bio_set_dev_status DEVS_GET_FLIST_DOING w)) (\<lambda>(_, w'). guarantee u w w')"
    by (rule promise.rel_call [OF query_printed_guar]) (intro promise.rel_into)
  then show ?thesis
    unfolding bio_common_get_feature_list_def
    by (auto intro!: promise.rel_seq promise.rel_into)
qed

text \<open>With or without capturing, which only one driver offers.\<close>

interpretation community: driver_contract h
    "(community_ops h lib)\<lparr>ops_capture := if cap then Some community_ops_capture else None\<rparr>" guarantee
  for h lib cap
proof
  fix a :: OpsActions and u i j :: int and n :: "string option" and s d r m :: int and w w' w'' :: "('a, 'b) cworld"
  let ?ops = "(community_ops h lib)\<lparr>ops_capture := if cap then Some community_ops_capture else None\<rparr>"
  show "guarantee u w w" "guarantee u w (bio_set_dev_status s w)" "guarantee u w (bio_set_ops_result s w)"
    "guarantee u w (bio_set_notify_mid s w)" "guarantee u w (bio_set_notify_abs_mid s w)"
    "guarantee u w (bio_set_all_abs_status d r m w)"
    by (auto intro: guarantee_refl guarantee_setters)
  show "guarantee u w w' \<Longrightarrow> guarantee u w' w'' \<Longrightarrow> guarantee u w w''" by (rule guarantee_trans)
  show "on_return (f w) (\<lambda>(_, w'). guarantee u w w')" if "ops_open ?ops = Some f" for f
    using that by (auto simp: community_ops_def open_guar)
  show "on_return (f w) (\<lambda>(_, w'). guarantee u w w')" if "ops_close ?ops = Some f" for f
    using that by (auto simp: community_ops_def close_guar)
  show "on_return (f a w) (\<lambda>(_, w'). guarantee u w w')" if "ops_capture ?ops = Some f" for f
    using that capture_guar by (simp split: if_splits)
  show "on_return (f a u i n w) (\<lambda>(_, w'). guarantee u w w')" if "ops_enroll ?ops = Some f" for f
    using that by (auto simp: community_ops_def enroll_guar)
  show "on_return (f a u i w) (\<lambda>(_, w'). guarantee u w w')" if "ops_verify ?ops = Some f" for f
    using that by (auto simp: community_ops_def verify_guar)
  show "on_return (f a u i j w) (\<lambda>(_, w'). guarantee u w w')" if "ops_identify ?ops = Some f" for f
    using that by (auto simp: community_ops_def identify_guar)
  show "on_return (f a u i j w) (\<lambda>(_, w'). guarantee u w w')" if "ops_search ?ops = Some f" for f
    using that by (auto simp: community_ops_def search_guar)
  show "on_return (f a u i j w) (\<lambda>(_, w'). guarantee u w w')" if "ops_clean ?ops = Some f" for f
    using that by (auto simp: community_ops_def clean_guar)
  show "on_return (f a u i j w) (\<lambda>(_, w'). guarantee u w w')" if "ops_get_feature_list ?ops = Some f" for f
    using that by (auto simp: community_ops_def list_hook_guar)
  show "on_return (f u i n w) (\<lambda>(_, w'). guarantee u w w')" if "ops_feature_rename ?ops = Some f" for f
    using that by (simp add: community_ops_def)
  show "on_return (f i w) (\<lambda>(_, w'). guarantee u w w')" if "ops_stop_by_user ?ops = Some f" for f
    using that by (auto simp: community_ops_def stop_hook_guar)
  show "on_return (bio_common_get_feature_list h a u i j w) (\<lambda>(_, w'). guarantee u w w')"
    by (rule default_list_guar)
  show "on_return (bio_comm_feature_rename_by_db h u i n w) (\<lambda>(_, w'). guarantee u w w')"
    by (rule rename_by_db_guar)
qed

text \<open>
  The operations that only read keep the rows of everybody: of a driver without the hooks that
  write, all operations do.
\<close>

definition reading_hooks :: "'p driver_ops \<Rightarrow> 'p driver_ops" where
  "reading_hooks ops = ops\<lparr>ops_enroll := None, ops_clean := None, ops_feature_rename := Some (\<lambda>_ _ _ w. Inr (0, w))\<rparr>"

lemma reading_steps:
  "open_dev (reading_hooks ops) = open_dev ops" "close_dev (reading_hooks ops) = close_dev ops"
  "print_result (reading_hooks ops) = print_result ops" "unsupported_ops (reading_hooks ops) = unsupported_ops ops"
  by (simp_all add: fun_eq_iff reading_hooks_def open_dev_def close_dev_def print_result_def unsupported_ops_def)

lemma reading_session: "device_session (reading_hooks ops) = device_session ops"
  by (intro ext) (unfold device_session_def reading_steps, rule refl)

lemma reading_fields:
  "ops_capture (reading_hooks ops) = ops_capture ops" "ops_verify (reading_hooks ops) = ops_verify ops"
  "ops_identify (reading_hooks ops) = ops_identify ops" "ops_search (reading_hooks ops) = ops_search ops"
  "ops_get_feature_list (reading_hooks ops) = ops_get_feature_list ops"
  "ops_stop_by_user (reading_hooks ops) = ops_stop_by_user ops"
  by (simp_all add: reading_hooks_def)

lemma reading_ops [simp]:
  "bio_ops_capture (reading_hooks ops) = bio_ops_capture ops" "bio_ops_verify (reading_hooks ops) = bio_ops_verify ops"
  "bio_ops_identify (reading_hooks ops) = bio_ops_identify ops" "bio_ops_search (reading_hooks ops) = bio_ops_search ops"
  "bio_ops_get_feature_list h (reading_hooks ops) = bio_ops_get_feature_list h ops"
  "bio_ops_stop_ops (reading_hooks ops) = bio_ops_stop_ops ops"
  unfolding bio_ops_capture_def bio_ops_verify_def bio_ops_identify_def bio_ops_search_def
    bio_ops_get_feature_list_def bio_ops_stop_ops_def reading_session reading_steps reading_fields
  by (rule refl)+

interpretation reading: driver_contract h
    "reading_hooks ((community_ops h lib)\<lparr>ops_capture := if cap then Some community_ops_capture else None\<rparr>)"
    "\<lambda>_. guarantee v"
  for h lib cap v
  by unfold_locales
    (auto simp: reading_hooks_def community_ops_def guarantee_refl open_guar close_guar capture_guar verify_guar
       identify_guar search_guar list_hook_guar stop_hook_guar default_list_guar
       intro: guarantee_setters guarantee_trans split: if_splits)

text \<open>
  C5. Whatever the fingerprint library reports, however the user interrupts and whichever calls of
  the database fail: when an operation for a user on a community driver returns, the device is
  still the same but for its status words, the keys of the table are unique, and the rows that
  are not of this user on this device are exactly those there were.
\<close>

theorem other_rows_untouched:
  assumes "settled_db (s_db (w_store w))" "device_name (w_dev w) = Some d" "d \<noteq> ''''"
    "b = biotype_code (biotype (bioinfo (w_dev w)))"
    "ops = (community_ops h lib)\<lparr>ops_capture := if cap then Some community_ops_capture else None\<rparr>"
    "kept = (\<lambda>w'. identity (w_dev w') = identity (w_dev w) \<and> settled_db (s_db (w_store w'))
       \<and> others u b d (tables_of (s_db (w_store w'))) = others u b d (tables_of (s_db (w_store w))))"
  shows "on_return (bio_ops_enroll ops u i n w) (\<lambda>(_, w'). kept w')
    \<and> on_return (bio_ops_verify ops u i w) (\<lambda>(_, w'). kept w')
    \<and> on_return (bio_ops_identify ops u i j w) (\<lambda>(_, w'). kept w')
    \<and> on_return (bio_ops_search ops u i j w) (\<lambda>(_, w'). kept w')
    \<and> on_return (bio_ops_clean ops u i j w) (\<lambda>(_, w'). kept w')
    \<and> on_return (bio_ops_get_feature_list h ops u i j w) (\<lambda>(_, w'). kept w')
    \<and> on_return (bio_ops_feature_rename h ops u i n w) (\<lambda>(_, w'). kept w')
    \<and> on_return (bio_ops_capture ops w) (\<lambda>(_, w'). kept w')"
proof -
  have kept: "on_return m (\<lambda>(_, w'). kept w')" if "on_return m (\<lambda>(_, w'). guarantee u w w')" for m :: "('x \<times> ('a, 'b) cworld) res"
    by (rule on_return_mono [OF that]) (use assms in \<open>auto simp: guarantee_def frame_def\<close>)
  show ?thesis
    unfolding assms(5)
    by (intro conjI kept community.session_ops_guar community.list_guar community.rename_guar)
qed

theorem other_rows_untouched_witness:
  "settled_db (s_db (w_store demo_cworld)) \<and>
   on_return (bio_ops_clean (community_ops demo_host demo_lib) 7 0 (-1) demo_cworld)
     (\<lambda>(_, w'). settled_db (s_db (w_store w')))"
proof -
  have s: "settled_db (s_db (w_store demo_cworld))"
    by (simp add: settled_db_def keyed_def demo_cworld_def ready_store_def demo_store_def tables_of_def)
  have dev: "device_name (w_dev demo_cworld) = Some ''aes2501''" by (simp add: demo_cworld_def idle_dev_def)
  have ops: "community_ops demo_host demo_lib = (community_ops demo_host demo_lib)\<lparr>ops_capture := if False then Some community_ops_capture else None\<rparr>"
    by (simp add: community_ops_def)
  show ?thesis
    using s other_rows_untouched [OF s dev _ refl ops refl, of 7 0 None 0]
      other_rows_untouched [OF s dev _ refl ops refl, of 7 0 None "-1"]
    by (auto elim: on_return_mono)
qed

end
