(* ===== verification/Community_Live.thy ===== *)
theory Community_Live
  imports Community_Laws
begin

text \<open>
  When the hooks of the community driver return: what the library has to report, what a missing
  report or an unlucky stop request does, and how many rounds a search takes.
\<close>

section \<open>Reports that never come\<close>

text \<open>
  A step that leaves the timers alone and does not complete the request; a callback none of whose
  calls for the events of a schedule does.
\<close>

definition still :: "('pr, 'sc) cworld \<Rightarrow> ('pr, 'sc) cworld \<Rightarrow> bool" where
  "still w w' \<longleftrightarrow> timeused (w_priv w') = timeused (w_priv w) \<and> timeoutMS (w_priv w') = timeoutMS (w_priv w)
     \<and> (cancellable (w_priv w') = None \<longleftrightarrow> cancellable (w_priv w) = None)
     \<and> (asyn_flag (w_priv w) \<noteq> ASYN_FLAG_DONE \<longrightarrow> asyn_flag (w_priv w') \<noteq> ASYN_FLAG_DONE)"

definition quiet :: "('pr, 'sc, 's) callback \<Rightarrow> ('pr, 'sc) fp_event set \<Rightarrow> bool" where
  "quiet cb E \<longleftrightarrow> (\<forall>e\<in>E. \<forall>s w. returns (cb e s w) (\<lambda>(_, w'). still w w'))"

lemma still_trans: "still w w' \<Longrightarrow> still w' w'' \<Longrightarrow> still w w''"
  by (auto simp: still_def)

lemma still_stop: "still w (request_stop w)" "still w w"
  by (simp_all add: still_def request_stop_def extended_message_def set_extra_info_def set_ctrl_def set_asyn_def)

lemma returnsE:
  assumes "returns m (\<lambda>(x, y). Q x y)"
  obtains x y where "m = Inr (x, y)" "Q x y"
  using assms by (auto simp: returns_def)

lemma handle_quiet:
  assumes "quiet cb (set es)"
  obtains s' w' where "handle_events cb es s w = Inr (s', w')" "still w w'"
proof -
  have "\<exists>s' w'. handle_events cb es s w = Inr (s', w') \<and> still w w'"
    using assms
  proof (induction es arbitrary: s w)
    case (Cons e es)
    obtain s1 w1 where e: "(case e of User_stop \<Rightarrow> Inr (s, if bio_get_dev_status w = DEVS_COMM_IDLE then w else request_stop w)
        | _ \<Rightarrow> cb e s w) = Inr (s1, w1)" "still w w1"
    proof (cases "e = User_stop")
      case True
      then show ?thesis using that still_stop(1) [of w] still_stop(2) [of w] by simp
    next
      case False
      have "returns (cb e s w) (\<lambda>(_, w'). still w w')" using Cons.prems by (simp add: quiet_def)
      then obtain s1 w1 where "cb e s w = Inr (s1, w1)" "still w w1" by (rule returnsE)
      then show ?thesis using that False by (cases e) simp_all
    qed
    obtain s2 w2 where "handle_events cb es s1 w1 = Inr (s2, w2)" "still w1 w2"
      using Cons.IH [of s1 w1] Cons.prems by (auto simp: quiet_def)
    then show ?case using e still_trans by fastforce
  qed (simp add: still_stop)
  then show ?thesis using that by blast
qed

lemma quiet_tl: "quiet cb (set (concat (es # evs))) \<Longrightarrow> quiet cb (set es) \<and> quiet cb (set (concat evs))"
  by (simp add: quiet_def)

lemma usleep_quiet:
  assumes "quiet cb (set (concat evs))"
  obtains s' w' where "usleep cb evs s w = Inr (tl evs, s', w')" "still w w'" "quiet cb (set (concat (tl evs)))"
proof (cases evs)
  case (Cons es evs')
  note q = quiet_tl [OF assms [unfolded Cons]]
  obtain s' w' where "handle_events cb es s w = Inr (s', w')" "still w w'"
    using handle_quiet [OF conjunct1 [OF q]] .
  then show ?thesis using that [of s' w'] q Cons by (simp add: usleep_def)
qed (use that [of s w] still_stop(2) [of w] in \<open>simp add: usleep_def quiet_def\<close>)

lemma wait_done_quiet:
  "quiet cb (set (concat evs)) \<Longrightarrow> asyn_flag (w_priv w) \<noteq> ASYN_FLAG_DONE \<Longrightarrow> wait_done cb evs s w = Inl Hang"
proof (induction evs arbitrary: s w)
  case (Cons es evs)
  note q = quiet_tl [OF Cons.prems(1)]
  obtain s' w' where h: "handle_events cb es s w = Inr (s', w')" "still w w'"
    using handle_quiet [OF conjunct1 [OF q]] .
  then show ?case using Cons.IH [of w' s'] q Cons.prems(2) by (auto simp: still_def)
qed simp

lemma cancel_still: "cancellable (w_priv w) \<noteq> None \<Longrightarrow> is_cancelled (cancel w)"
  by (auto simp: is_cancelled_def cancel_def)

text \<open>A request the library never completes is waited for for ever.\<close>

lemma poll_quiet:
  assumes "timeoutMS (w_priv w) \<le> INT_MAX - 100" "cancellable (w_priv w) \<noteq> None"
    "0 \<le> timeused (w_priv w)" "asyn_flag (w_priv w) \<noteq> ASYN_FLAG_DONE" "quiet cb (set (concat evs))"
  shows "poll cb stoppable evs s w = Inl Hang"
  using assms
proof (induction cb stoppable evs s w rule: poll.induct)
  case (1 cb stoppable evs s w)
  obtain s1 w1 where u: "usleep cb evs s w = Inr (tl evs, s1, w1)" "still w w1" "quiet cb (set (concat (tl evs)))"
    using usleep_quiet [OF 1(7)] .
  have run: "asyn_flag (w_priv w1) \<noteq> ASYN_FLAG_DONE" "cancellable (w_priv w1) \<noteq> None"
    "timeoutMS (w_priv w1) = timeoutMS (w_priv w)" "timeused (w_priv w1) = timeused (w_priv w)"
    using u(2) 1(4,6) by (auto simp: still_def)
  show ?case
  proof (cases "timeoutMS (w_priv w1) < timeused (w_priv w1)")
    case True
    then show ?thesis
      using u run cancel_still [OF run(2)] wait_done_quiet [OF u(3), of "cancel w1"]
      by (subst poll.simps) simp
  next
    case False
    let ?t = "timeused (w_priv w1) + FINGER_CHECK_INTERVAL_MS"
    let ?w2 = "upd_priv (\<lambda>p. p\<lparr>timeused := ?t\<rparr>) w1"
    have c: "c_int ?t = Inr ?t" using False 1(3,5) run by (intro c_int_in) (auto simp: INT_MIN_def INT_MAX_def)
    obtain s3 w3 where v: "usleep cb (tl evs) s1 ?w2 = Inr (tl (tl evs), s3, w3)" "still ?w2 w3"
      "quiet cb (set (concat (tl (tl evs))))"
      using usleep_quiet [OF u(3)] .
    have run3: "asyn_flag (w_priv w3) \<noteq> ASYN_FLAG_DONE" "cancellable (w_priv w3) \<noteq> None"
      "timeoutMS (w_priv w3) \<le> INT_MAX - 100" "0 \<le> timeused (w_priv w3)"
      using v(2) run 1(3,5) by (auto simp: still_def)
    have nc: "\<not> (timeoutMS (w_priv w1) < timeused (w_priv w1) \<and>
        is_cancelled (if timeoutMS (w_priv w1) < timeused (w_priv w1) then cancel w1 else w1))"
      using False by simp
    have c': "c_int (timeused (w_priv (if timeoutMS (w_priv w1) < timeused (w_priv w1) then cancel w1 else w1))
        + FINGER_CHECK_INTERVAL_MS) = Inr ?t" using False c by simp
    have v': "usleep cb (tl evs) s1 (upd_priv (\<lambda>p. p\<lparr>timeused := ?t\<rparr>)
        (if timeoutMS (w_priv w1) < timeused (w_priv w1) then cancel w1 else w1)) = Inr (tl (tl evs), s3, w3)"
      using False v(1) by simp
    have stop: "asyn_flag (w_priv (stopped_by_user w3)) \<noteq> ASYN_FLAG_DONE" "is_cancelled (stopped_by_user w3)"
      using run3 by (auto simp: stopped_by_user_def set_ctrl_def intro: cancel_still)
    note IH = 1(2) [OF u(1) refl refl run(1) refl nc c' v' refl refl]
    show ?thesis
    proof (cases "stoppable \<and> ctrlFlag (w_priv w3) = CONTROL_FLAG_STOPING")
      case True
      then show ?thesis
        using False u(1) run(1) c v(1) stop wait_done_quiet [OF v(3) stop(1)]
        by (subst poll.simps) (simp add: Let_def)
    next
      case nostop: False
      show ?thesis
        using IH [OF nostop run3(3,2,4,1) v(3)] nostop False u(1) run(1) c v(1)
        by (subst poll.simps) (auto simp: Let_def)
    qed
  qed
qed

lemma open_callback_quiet: "Opened True \<notin> E \<Longrightarrow> quiet open_callback E"
proof -
  have "returns (open_callback e s w) (\<lambda>(_, w'). still w w')" if "e \<noteq> Opened True" for e s w
    using that still_stop(2) [of w] by (cases e) (auto simp: on_device_opened_def)
  then show "Opened True \<notin> E \<Longrightarrow> quiet open_callback E" unfolding quiet_def by metis
qed

text \<open>
  C35. A device the library cannot open blocks its operation for ever: unless the library reports a
  successful opening, the open hook does not return, however long its timeout and whatever
  the user stops; the timeout only cancels a request that has already ended.
\<close>

theorem open_failure_hangs:
  assumes "enable (w_dev w) \<noteq> 0" "Opened True \<notin> set (concat (events (w_priv w)))"
    "0 \<le> timeused (w_priv w)" "timeoutMS (w_priv w) \<le> INT_MAX - 100"
  shows "community_ops_open w = Inl Hang"
proof -
  let ?w = "upd_priv (\<lambda>p. p\<lparr>cancellable := Some False\<rparr>) (bio_set_dev_status DEVS_OPEN_DOING
      (upd_priv (\<lambda>p. p\<lparr>asyn_flag := ASYN_FALG_RUNNING, ctrlFlag := CONTROL_FLAG_RUNNING\<rparr>) w))"
  have "poll open_callback False (events (w_priv ?w)) () ?w = Inl Hang"
    by (rule poll_quiet) (use assms open_callback_quiet in \<open>simp_all del: set_concat\<close>)
  then show ?thesis
    using assms(1) by (simp add: community_ops_open_def Let_def await_def)
qed

theorem open_failure_hangs_witness:
  "community_ops_open (demo_cworld\<lparr>w_priv := demo_priv\<lparr>events := [[Opened False], [User_stop]]\<rparr>\<rparr>) = Inl Hang"
  using open_failure_hangs [of "demo_cworld\<lparr>w_priv := demo_priv\<lparr>events := [[Opened False], [User_stop]]\<rparr>\<rparr>"]
  by (simp add: demo_cworld_def demo_priv_def idle_dev_def INT_MAX_def)

lemma poll_first:
  assumes "handle_events cb es s w = Inr (s1, w1)"
  shows "poll cb stoppable (es # evs) s w = poll cb stoppable ([] # evs) s1 w1"
  using assms by (simp add: poll.simps [of cb stoppable "es # evs"] poll.simps [of cb stoppable "[] # evs"] usleep_def)

text \<open>
  A stop request can undo a report: when it comes in the same sleep after the successful
  opening, the request counts as running again, and the hook waits for ever.
\<close>

theorem stop_undoes_report:
  assumes "enable (w_dev w) \<noteq> 0" "events (w_priv w) = [Opened True, User_stop] # evs"
    "Opened True \<notin> set (concat evs)" "0 \<le> timeused (w_priv w)" "timeoutMS (w_priv w) \<le> INT_MAX - 100"
  shows "community_ops_open w = Inl Hang"
proof -
  let ?w = "upd_priv (\<lambda>p. p\<lparr>cancellable := Some False\<rparr>) (bio_set_dev_status DEVS_OPEN_DOING
      (upd_priv (\<lambda>p. p\<lparr>asyn_flag := ASYN_FALG_RUNNING, ctrlFlag := CONTROL_FLAG_RUNNING\<rparr>) w))"
  let ?v = "request_stop (set_asyn ASYN_FLAG_DONE ?w)"
  have "handle_events open_callback [Opened True, User_stop] () ?w = Inr ((), ?v)"
    by (simp add: on_device_opened_def set_asyn_def bio_get_dev_status_def)
  from poll_first [OF this]
  have "poll open_callback False (events (w_priv ?w)) () ?w = poll open_callback False ([] # evs) () ?v"
    using assms(2) by simp
  also have "\<dots> = Inl Hang"
    by (rule poll_quiet)
       (use assms(3-5) open_callback_quiet in \<open>simp_all del: set_concat add: request_stop_def set_asyn_def
          set_ctrl_def extended_message_def set_extra_info_def\<close>)
  finally show ?thesis
    using assms(1) by (simp add: community_ops_open_def Let_def await_def)
qed

theorem stop_undoes_report_witness:
  "community_ops_open (demo_cworld\<lparr>w_priv := demo_priv\<lparr>events := [[Opened True, User_stop]]\<rparr>\<rparr>) = Inl Hang"
  using stop_undoes_report [of "demo_cworld\<lparr>w_priv := demo_priv\<lparr>events := [[Opened True, User_stop]]\<rparr>\<rparr>" "[]"]
  by (simp add: demo_cworld_def demo_priv_def idle_dev_def INT_MAX_def)

section \<open>Reports in time\<close>

text \<open>A callback that completes the request at an event of a kind, and leaves the timers alone.\<close>

definition steps_to :: "bool \<Rightarrow> ('pr, 'sc) cworld \<Rightarrow> ('pr, 'sc) cworld \<Rightarrow> bool" where
  "steps_to b w w' \<longleftrightarrow> timeused (w_priv w') = timeused (w_priv w) \<and> timeoutMS (w_priv w') = timeoutMS (w_priv w)
     \<and> (ctrlFlag (w_priv w') = CONTROL_FLAG_STOPING \<longrightarrow> ctrlFlag (w_priv w) = CONTROL_FLAG_STOPING)
     \<and> (asyn_flag (w_priv w') = ASYN_FLAG_DONE \<longleftrightarrow> asyn_flag (w_priv w) = ASYN_FLAG_DONE \<or> b)"

definition completes :: "('pr, 'sc, 's) callback \<Rightarrow> (('pr, 'sc) fp_event \<Rightarrow> bool) \<Rightarrow> bool" where
  "completes cb good \<longleftrightarrow> (\<forall>e s w. e \<noteq> User_stop \<longrightarrow> returns (cb e s w) (\<lambda>(_, w'). steps_to (good e) w w'))"

lemma steps_to_refl: "steps_to False w w"
  by (simp add: steps_to_def)

lemma steps_to_trans: "steps_to a w w' \<Longrightarrow> steps_to b w' w'' \<Longrightarrow> steps_to (a \<or> b) w w''"
  by (auto simp: steps_to_def)

lemma handle_completes:
  assumes "completes cb good" "User_stop \<notin> set es"
  obtains s' w' where "handle_events cb es s w = Inr (s', w')" "steps_to (list_ex good es) w w'"
proof -
  have "\<exists>s' w'. handle_events cb es s w = Inr (s', w') \<and> steps_to (list_ex good es) w w'"
    using assms(2)
  proof (induction es arbitrary: s w)
    case (Cons e es)
    have "returns (cb e s w) (\<lambda>(_, w'). steps_to (good e) w w')" using assms(1) Cons.prems by (auto simp: completes_def)
    then obtain s1 w1 where e: "cb e s w = Inr (s1, w1)" "steps_to (good e) w w1" by (rule returnsE)
    obtain s2 w2 where "handle_events cb es s1 w1 = Inr (s2, w2)" "steps_to (list_ex good es) w1 w2"
      using Cons.IH [of s1 w1] Cons.prems by auto
    then show ?case using e steps_to_trans [OF e(2)] Cons.prems by (cases e) auto
  qed (simp add: steps_to_refl)
  then show ?thesis using that by blast
qed

abbreviation (input) next_batch :: "('pr, 'sc) schedule \<Rightarrow> ('pr, 'sc) fp_event list" where
  "next_batch evs \<equiv> (case evs of [] \<Rightarrow> [] | es # _ \<Rightarrow> es)"

lemma usleep_completes:
  assumes "completes cb good" "User_stop \<notin> set (concat evs)"
  obtains s' w' where "usleep cb evs s w = Inr (tl evs, s', w')" "steps_to (list_ex good (next_batch evs)) w w'"
proof (cases evs)
  case Nil
  then show ?thesis using that [of s w] by (simp add: usleep_def steps_to_refl)
next
  case (Cons es evs')
  have "User_stop \<notin> set es" using assms(2) Cons by simp
  from handle_completes [OF assms(1) this]
  obtain s' w' where "handle_events cb es s w = Inr (s', w')" "steps_to (list_ex good es) w w'" .
  then show ?thesis using that [of s' w'] Cons by (simp add: usleep_def)
qed

text \<open>
  When the report comes in one of the next \<open>k\<close> sleeps, and \<open>k\<close> rounds of the loop are within the
  timeout, the wait finishes.
\<close>

lemma poll_finishes:
  assumes "completes cb good" "User_stop \<notin> set (concat evs)"
    "asyn_flag (w_priv w) = ASYN_FLAG_DONE \<or> list_ex good (concat (take k evs))"
    "timeused (w_priv w) + 100 * int k \<le> timeoutMS (w_priv w)" "timeoutMS (w_priv w) \<le> INT_MAX - 100"
    "0 \<le> timeused (w_priv w)" "ctrlFlag (w_priv w) \<noteq> CONTROL_FLAG_STOPING"
  shows "\<exists>evs' s' w'. poll cb stoppable evs s w = Inr (Finished, evs', s', w')"
  using assms(2-)
proof (induction k arbitrary: evs s w rule: less_induct)
  case (less k)
  obtain s1 w1 where u: "usleep cb evs s w = Inr (tl evs, s1, w1)" "steps_to (list_ex good (next_batch evs)) w w1"
    using usleep_completes [OF assms(1) less.prems(1)] .
  show ?case
  proof (cases "asyn_flag (w_priv w1) = ASYN_FLAG_DONE")
    case True
    then show ?thesis using u by (subst poll.simps) simp
  next
    case run: False
    have nostop: "User_stop \<notin> set (concat (tl evs))" "User_stop \<notin> set (concat (tl (tl evs)))"
      using less.prems(1) by (cases evs; cases "tl evs"; auto)+
    let ?t = "timeused (w_priv w1) + FINGER_CHECK_INTERVAL_MS"
    let ?w2 = "upd_priv (\<lambda>p. p\<lparr>timeused := ?t\<rparr>) w1"
    obtain s3 w3 where v: "usleep cb (tl evs) s1 ?w2 = Inr (tl (tl evs), s3, w3)"
      "steps_to (list_ex good (next_batch (tl evs))) ?w2 w3"
      using usleep_completes [OF assms(1) nostop(1)] .
    have w1: "asyn_flag (w_priv w) \<noteq> ASYN_FLAG_DONE" "\<not> list_ex good (next_batch evs)"
      "timeused (w_priv w1) = timeused (w_priv w)" "timeoutMS (w_priv w1) = timeoutMS (w_priv w)"
      "ctrlFlag (w_priv w1) \<noteq> CONTROL_FLAG_STOPING"
      using u(2) run less.prems(6) by (auto simp: steps_to_def)
    obtain k' where k: "k = Suc k'" using w1 less.prems(2) by (cases k) auto
    have w3: "timeused (w_priv w3) = ?t" "timeoutMS (w_priv w3) = timeoutMS (w_priv w)"
      "ctrlFlag (w_priv w3) \<noteq> CONTROL_FLAG_STOPING"
      "asyn_flag (w_priv w3) = ASYN_FLAG_DONE \<longleftrightarrow> list_ex good (next_batch (tl evs))"
      using v(2) w1 run by (auto simp: steps_to_def)
    have left: "asyn_flag (w_priv w3) = ASYN_FLAG_DONE \<or> list_ex good (concat (take (k' - 1) (tl (tl evs))))"
      using w1(1,2) w3(4) less.prems(2) k
      by (cases evs; cases "tl evs"; cases k') auto
    have late: "\<not> timeoutMS (w_priv w1) < timeused (w_priv w1)" using less.prems(3) w1 by simp
    have c: "c_int ?t = Inr ?t"
      using less.prems(3-5) w1 by (intro c_int_in) (auto simp: INT_MIN_def INT_MAX_def)
    have "\<exists>evs' s' w'. poll cb stoppable (tl (tl evs)) s3 w3 = Inr (Finished, evs', s', w')"
    proof (rule less.IH [of "k' - 1"])
      show "timeused (w_priv w3) + 100 * int (k' - 1) \<le> timeoutMS (w_priv w3)"
        using less.prems(3) w1 w3 k by (cases k') auto
    qed (use k left nostop(2) less.prems(4,5) w1 w3 in simp_all)
    then show ?thesis using u(1) run late c v(1) w3(3) by (subst poll.simps) (auto simp: Let_def)
  qed
qed

lemma open_completes: "completes open_callback (\<lambda>e. e = Opened True)"
proof -
  have "returns (open_callback e s w) (\<lambda>(_, w'). steps_to (e = Opened True) w w')" for e s and w :: "('a, 'b) cworld"
    using steps_to_refl [of w] by (cases e) (auto simp: on_device_opened_def steps_to_def set_asyn_def)
  then show ?thesis by (simp add: completes_def)
qed

text \<open>
  C17. Opening succeeds when the library reports it in time: when nobody interrupts, the hook
  returns 0, the device is idle, and result and notification say that it is open. In time means
  against the time the driver has already counted, which neither opening nor closing resets.
\<close>

theorem open_succeeds_in_time:
  assumes "enable (w_dev w) \<noteq> 0" "User_stop \<notin> set (concat (events (w_priv w)))"
    "Opened True \<in> set (concat (take k (events (w_priv w))))" "0 \<le> timeused (w_priv w)"
    "timeused (w_priv w) + 100 * int k \<le> timeoutMS (w_priv w)" "timeoutMS (w_priv w) \<le> INT_MAX - 100"
  shows "\<exists>w'. community_ops_open w = Inr (0, w') \<and> dev_status (w_dev w') = DEVS_COMM_IDLE
    \<and> ops_result (w_dev w') = OPS_OPEN_SUCCESS \<and> notify_mid (w_dev w') = NOTIFY_OPEN_SUCCESS"
proof -
  let ?w = "upd_priv (\<lambda>p. p\<lparr>cancellable := Some False\<rparr>) (bio_set_dev_status DEVS_OPEN_DOING
      (upd_priv (\<lambda>p. p\<lparr>asyn_flag := ASYN_FALG_RUNNING, ctrlFlag := CONTROL_FLAG_RUNNING\<rparr>) w))"
  have "list_ex (\<lambda>e. e = Opened True) (concat (take k (events (w_priv w))))"
    using assms(3) unfolding list_ex_iff by blast
  then obtain evs' s' w' where "poll open_callback False (events (w_priv ?w)) () ?w = Inr (Finished, evs', s', w')"
    using poll_finishes [OF open_completes, of "events (w_priv ?w)" ?w k False "()"] assms(2,4,5,6)
    by (auto simp del: set_concat)
  then show ?thesis
    using assms(1) by (simp add: community_ops_open_def Let_def await_def)
qed

theorem open_succeeds_in_time_witness:
  "\<exists>w'. community_ops_open (demo_cworld\<lparr>w_priv := demo_priv\<lparr>events := [[], [Opened True]]\<rparr>\<rparr>) = Inr (0, w')
    \<and> ops_result (w_dev w') = OPS_OPEN_SUCCESS"
  using open_succeeds_in_time [of "demo_cworld\<lparr>w_priv := demo_priv\<lparr>events := [[], [Opened True]]\<rparr>\<rparr>" 2]
  by (auto simp: demo_cworld_def demo_priv_def idle_dev_def INT_MAX_def)

section \<open>The rounds of a search\<close>

lemma usleep_length: "usleep cb evs s w = Inr (evs', s', w') \<Longrightarrow> length evs' \<le> length evs"
  by (auto dest: usleep_shorter)

lemma wait_done_length: "wait_done cb evs s w = Inr (evs', s', w') \<Longrightarrow> length evs' \<le> length evs"
proof (induction cb evs s w rule: wait_done.induct)
  case (2 cb es evs s w)
  then obtain s1 w1 where "handle_events cb es s w = Inr (s1, w1)" by (auto simp: bindR_eq_Inr)
  then show ?case using 2 by (auto simp: le_SucI split: if_splits)
qed (auto split: if_splits)

text \<open>A finished wait has taken a report from the schedule.\<close>

lemma poll_length:
  "poll cb stoppable evs s w = Inr (r, evs', s', w') \<Longrightarrow>
   length evs' + (if r = Finished \<and> asyn_flag (w_priv w) \<noteq> ASYN_FLAG_DONE then 1 else 0) \<le> length evs"
proof (induction cb stoppable evs s w rule: poll.induct)
  case (1 cb stoppable evs s w)
  obtain evs1 s1 w1 where u: "usleep cb evs s w = Inr (evs1, s1, w1)"
    using 1(3) by (subst (asm) poll.simps) (auto simp: bindR_eq_Inr)
  show ?case
  proof (cases "asyn_flag (w_priv w1) = ASYN_FLAG_DONE")
    case True
    have "evs = [] \<Longrightarrow> asyn_flag (w_priv w) = ASYN_FLAG_DONE" using u True by (auto simp: usleep_empty)
    then show ?thesis using 1(3) u True usleep_shorter [OF u] by (subst (asm) poll.simps) (cases evs; auto)
  next
    case run: False
    let ?late = "timeoutMS (w_priv w1) < timeused (w_priv w1)"
    let ?w2 = "if ?late then cancel w1 else w1"
    have le1: "length evs1 \<le> length evs" using usleep_length [OF u] .
    show ?thesis
    proof (cases "?late \<and> is_cancelled ?w2")
      case True
      then have "wait_done cb evs1 s1 ?w2 = Inr (evs', s', w')" "r = Timed_out"
        using 1(3) u run by (subst (asm) poll.simps; auto simp: bindR_eq_Inr)+
      then show ?thesis using wait_done_length le1 by fastforce
    next
      case nc: False
      then obtain t evs3 s3 w3 where c: "c_int (timeused (w_priv ?w2) + FINGER_CHECK_INTERVAL_MS) = Inr t"
        and v: "usleep cb evs1 s1 (upd_priv (\<lambda>p. p\<lparr>timeused := t\<rparr>) ?w2) = Inr (evs3, s3, w3)"
        using 1(3) u run by (subst (asm) poll.simps) (auto simp: bindR_eq_Inr Let_def split: if_splits)
      have le: "length evs3 \<le> length evs1" using usleep_length [OF v] .
      have taken: "length evs3 < length evs1 \<or> asyn_flag (w_priv w3) = asyn_flag (w_priv w1)"
        using v usleep_shorter [OF v] by (cases evs1) (auto simp: usleep_empty)
      have tail: "(if stoppable \<and> ctrlFlag (w_priv w3) = CONTROL_FLAG_STOPING
          then if is_cancelled (stopped_by_user w3)
               then bindR (wait_done cb evs3 s3 (stopped_by_user w3)) (\<lambda>(evs, s, w). Inr (Stopped, evs, s, w))
               else poll cb stoppable evs3 s3 (stopped_by_user w3)
          else poll cb stoppable evs3 s3 w3) = Inr (r, evs', s', w')"
        using 1(3) u run nc c v
        by (subst (asm) poll.simps) (simp only: bindR.simps prod.case Let_def if_False if_True)
      show ?thesis
      proof (cases "stoppable \<and> ctrlFlag (w_priv w3) = CONTROL_FLAG_STOPING \<and> is_cancelled (stopped_by_user w3)")
        case True
        then have "wait_done cb evs3 s3 (stopped_by_user w3) = Inr (evs', s', w')" "r = Stopped"
          using tail by (auto simp: bindR_eq_Inr)
        then show ?thesis using wait_done_length le le1 by fastforce
      next
        case False
        have "length evs' + (if r = Finished \<and> asyn_flag (w_priv w3) \<noteq> ASYN_FLAG_DONE then 1 else 0) \<le> length evs3"
        proof (cases "stoppable \<and> ctrlFlag (w_priv w3) = CONTROL_FLAG_STOPING")
          case stop: True
          then have can: "\<not> is_cancelled (stopped_by_user w3)" using False by blast
          have "poll cb stoppable evs3 s3 (stopped_by_user w3) = Inr (r, evs', s', w')"
            using tail stop can by simp
          from 1(1) [OF u refl refl run refl nc c v refl refl stop refl can this] show ?thesis
            by (simp add: stopped_by_user_def set_ctrl_def)
        next
          case go: False
          have "poll cb stoppable evs3 s3 w3 = Inr (r, evs', s', w')" using tail by (simp only: go if_False)
          from 1(2) [OF u refl refl run refl nc c v refl refl go this] show ?thesis .
        qed
        then show ?thesis using taken le le1 run by (auto split: if_splits)
      qed
    qed
  qed
qed

text \<open>
  C18. A search ends by itself or not at all: a round that finishes has taken a report of the
  library, so one round more than reports are to come is enough, and with more the search does
  the same.
\<close>

theorem search_rounds_enough:
  "search_rounds h lib uid j (length (events (w_priv w)) + 1 + n) d w =
   search_rounds h lib uid j (length (events (w_priv w)) + 1) d w"
proof (induction "length (events (w_priv w))" arbitrary: d w n rule: less_induct)
  case less
  show ?case
  proof (cases "ctrlFlag (w_priv w) = CONTROL_FLAG_DONE")
    case False
    have same: "search_rounds h lib uid j (length (events (w_priv w)) + n) d' v = search_rounds h lib uid j (length (events (w_priv w))) d' v"
      if aw: "await (search_callback h lib uid j prints) True d0 v0 = Inr (Finished, d1, v)"
        and cp: "create_prints h lib uid i j (start_request w) = Inr (prints, v0)" for d0 v0 d1 v prints i d'
    proof -
      have "w_priv v0 = w_priv (start_request w)"
        using cp query_db_run(2) by (fastforce simp: create_prints_def query_printed_def bindR_eq_Inr)
      then have v0: "events (w_priv v0) = events (w_priv w)" "asyn_flag (w_priv v0) \<noteq> ASYN_FLAG_DONE"
        by (simp_all add: start_request_def)
      obtain evs v1 where p: "poll (search_callback h lib uid j prints) True (events (w_priv v0)) d0 v0
          = Inr (Finished, evs, d1, v1)" "v = upd_priv (\<lambda>p. p\<lparr>events := evs\<rparr>) v1"
        using aw by (auto simp: await_def bindR_eq_Inr)
      have lt: "length (events (w_priv v)) < length (events (w_priv w))"
        using poll_length [OF p(1)] p(2) v0 by simp
      then obtain m where m: "length (events (w_priv w)) = length (events (w_priv v)) + 1 + m"
        using less_iff_Suc_add by auto
      show ?thesis
        using less [OF lt, of "m + n" d'] less [OF lt, of m d'] m by (simp add: ac_simps)
    qed
    show ?thesis
      by (subst search_rounds.simps, subst (2) search_rounds.simps)
         (auto simp: False same intro!: bindR_cong split: outcome.split)
  qed (simp add: search_rounds.simps)
qed

end
