(* ===== verification/Enroll_Verify.thy ===== *)
theory Enroll_Verify
  imports Community_Live
begin

text \<open>
  Enrollment and verification through all layers: the operations of the framework, the hooks of the
  community driver, the template codec and the feature database.
\<close>

section \<open>Reports that come at once\<close>

lemma await_one:
  assumes "events (w_priv w) = es # evs" "handle_events cb es s w = Inr (s', w')"
    "asyn_flag (w_priv w') = ASYN_FLAG_DONE"
  shows "await cb stoppable s w = Inr (Finished, s', upd_priv (\<lambda>p. p\<lparr>events := evs\<rparr>) w')"
  using assms by (simp add: await_def poll.simps [of _ _ "es # evs"] usleep_def)

definition opened :: "('pr, 'sc) schedule \<Rightarrow> ('pr, 'sc) cworld \<Rightarrow> ('pr, 'sc) cworld \<Rightarrow> bool" where
  "opened evs w w' \<longleftrightarrow> w_store w' = w_store w \<and> identity (w_dev w') = identity (w_dev w)
     \<and> ops_result (w_dev w') = OPS_OPEN_SUCCESS \<and> events (w_priv w') = evs \<and> aes_key (w_priv w') = aes_key (w_priv w)"

lemma open_at_once:
  assumes "enable (w_dev w) \<noteq> 0" "events (w_priv w) = [Opened True] # evs"
  obtains w' where "community_ops_open w = Inr (0, w')" "opened evs w w'"
proof -
  let ?w = "upd_priv (\<lambda>p. p\<lparr>cancellable := Some False\<rparr>) (bio_set_dev_status DEVS_OPEN_DOING
      (upd_priv (\<lambda>p. p\<lparr>asyn_flag := ASYN_FALG_RUNNING, ctrlFlag := CONTROL_FLAG_RUNNING\<rparr>) w))"
  have "await open_callback False () ?w = Inr (Finished, (), upd_priv (\<lambda>p. p\<lparr>events := evs\<rparr>) (set_asyn ASYN_FLAG_DONE ?w))"
    by (rule await_one [where es = "[Opened True]"]) (use assms(2) in \<open>simp_all add: on_device_opened_def set_asyn_def\<close>)
  then show ?thesis
    using that assms(1) by (simp add: community_ops_open_def Let_def opened_def set_asyn_def)
qed

lemma close_at_once:
  assumes "enable (w_dev w) \<noteq> 0" "events (w_priv w) = [Closed] # evs"
  obtains w' where "community_ops_close w = Inr ((), w')" "w_store w' = w_store w" "w_dev w' = w_dev w"
    "events (w_priv w') = evs" "aes_key (w_priv w') = aes_key (w_priv w)"
proof -
  have "await close_callback False () (set_asyn ASYN_FALG_RUNNING w) = Inr (Finished, (),
      upd_priv (\<lambda>p. p\<lparr>events := evs\<rparr>) (set_asyn ASYN_FLAG_DONE (set_asyn ASYN_FALG_RUNNING w)))"
    by (rule await_one [where es = "[Closed]"]) (use assms(2) in \<open>simp_all add: on_device_closed_def set_asyn_def\<close>)
  then show ?thesis
    using that assms(1) by (simp add: community_ops_close_def Let_def set_asyn_def set_ctrl_def)
qed

text \<open>A session whose device opens and closes at once.\<close>

lemma session_at_once:
  assumes "ops = community_ops h lib" "enable (w_dev w) \<noteq> 0" "events (w_priv w) = [Opened True] # evs"
    "\<And>v. opened evs w v \<Longrightarrow> \<exists>v'. f v = Inr (x, v') \<and> enable (w_dev v') \<noteq> 0 \<and> events (w_priv v') = [Closed] # evs'
       \<and> aes_key (w_priv v') = aes_key (w_priv w) \<and> Q (w_dev v') (w_store v')"
  shows "\<exists>w'. device_session ops failed unsup (Some f) w = Inr (x, w') \<and> Q (w_dev w') (w_store w')
    \<and> events (w_priv w') = evs' \<and> aes_key (w_priv w') = aes_key (w_priv w)"
proof -
  obtain v where v: "community_ops_open w = Inr (0, v)" "opened evs w v" using open_at_once [OF assms(2,3)] .
  obtain v' where f: "f v = Inr (x, v')" "enable (w_dev v') \<noteq> 0" "events (w_priv v') = [Closed] # evs'"
    "aes_key (w_priv v') = aes_key (w_priv w)" "Q (w_dev v') (w_store v')"
    using assms(4) [OF v(2)] by blast
  obtain w' where c: "community_ops_close v' = Inr ((), w')" "w_store w' = w_store v'" "w_dev w' = w_dev v'"
    "events (w_priv w') = evs'" "aes_key (w_priv w') = aes_key (w_priv v')"
    using close_at_once [OF f(2,3)] .
  have "print_result ops w' = Inr w'"
    using assms(1) by (simp add: print_result_def bio_get_ops_result_mesg_def hooked_mesg_def community_ops_def)
  then show ?thesis
    using v f c assms(1) by (simp add: device_session_def open_dev_def close_dev_def community_ops_def)
qed

section \<open>The template in the database\<close>

lemma store_one:
  assumes "store_ready h dev s" "settled h (s_users s) (fi_uid i)" "0 \<le> fi_uid i" "fi_sample i = [x]" "insertable i x"
  shows "bio_sto_set_feature_info h True [i] s =
    Inr (0, s\<lparr>s_db := upd_tables (insert_row i (uuid_of h (s_users s) (fi_uid i)) x) (s_db s)\<rparr>)"
proof -
  have ok: "sqlite3_prepare True (has_uuid_column (tables_of (s_db s))) (s_db s) = (True, s_db s)"
    "sqlite3_step True f (s_db s) = (True, upd_tables f (s_db s))" for f
    using assms(1) by (auto simp: store_ready_def sound_def prepare_sound step_ok)
  show ?thesis
    using assms(4,5) ok item_uuid_settled [of h s i "-1" "''''"] assms(2,3)
    by (simp add: bio_sto_set_feature_info_def)
qed

lemma query_one:
  assumes "store_ready h dev s" "device_name dev = Some d" "settled h (s_users s) uid" "0 \<le> uid" "0 \<le> idx" "idx < INT_MAX"
    "\<forall>r\<in>set (eigen_rows (tables_of (s_db s))). \<not> row_selected uid (biotype_code (biotype (bioinfo dev))) (Some d) idx idx r"
    "i = \<lparr>fi_uid = uid, fi_biotype = biotype_code (biotype (bioinfo dev)), fi_driver = Some d, fi_index = idx,
          fi_index_name = Some name, fi_sample = [x]\<rparr>" "sa_data x = Some code"
    "s' = s\<lparr>s_db := upd_tables (insert_row i (uuid_of h (s_users s) uid) x) (s_db s)\<rparr>"
  shows "store_ready h dev s'" "one_more h (biotype (bioinfo dev)) d uid idx s s'"
    "\<exists>q. group_rows (query_rows h uid (biotype_code (biotype (bioinfo dev))) (Some d) idx idx s') =
       [i\<lparr>fi_sample := [x\<lparr>sa_dbid := q\<rparr>]\<rparr>]"
proof -
  obtain e where e: "eigen_info (tables_of (s_db s)) = Some e" "t_uuid_col e"
    using assms(1) by (auto simp: store_ready_def sound_def has_uuid_column_def split: option.splits)
  define r where "r = \<lparr>r_id = t_seq e + 1, r_uid = uid, r_uuid = Some (uuid_of h (s_users s) uid),
      r_biotype = biotype_code (biotype (bioinfo dev)), r_driver = d, r_index = idx, r_index_name = name,
      r_sample_no = sa_no x, r_data = code\<rparr>"
  have rows: "eigen_rows (tables_of (s_db s')) = eigen_rows (tables_of (s_db s)) @ [r]"
    using e assms(8,9,10) by (simp add: insert_row_def eigen_rows_def r_def)
  have "has_uuid_column (tables_of (s_db s'))"
    using assms(10) e by (simp add: insert_row_def has_uuid_column_def)
  then have "sound True s'" using assms(1,10) by (simp add: store_ready_def sound_def)
  moreover have "good_row h (s_users s') r \<and> 0 \<le> r_index r \<and> r_index r < INT_MAX"
    using assms(3-6,10) biotype_code_nonneg by (simp add: r_def good_row_def)
  ultimately show "store_ready h dev s'"
    using assms(1,10) unfolding store_ready_def rows by (simp add: upd_tables_def)
  have "has_eigen_info (tables_of (s_db s'))" using assms(10) e by (simp add: insert_row_def has_eigen_info_def)
  then show "one_more h (biotype (bioinfo dev)) d uid idx s s'"
    unfolding one_more_def rows using assms(10) by (simp add: r_def one_owner_def)
  have "row_selected uid (biotype_code (biotype (bioinfo dev))) (Some d) idx idx r"
    using assms(5) by (simp add: row_selected_def r_def)
  then have "query_rows h uid (biotype_code (biotype (bioinfo dev))) (Some d) idx idx s' = [r]"
    using assms(7,10) rows by (simp add: query_rows_def current_def r_def)
  then show "\<exists>q. group_rows (query_rows h uid (biotype_code (biotype (bioinfo dev))) (Some d) idx idx s') =
       [i\<lparr>fi_sample := [x\<lparr>sa_dbid := q\<rparr>]\<rparr>]"
    using assms(8,9) by (auto simp: info_of_def r_def sample_of_def intro!: exI [of _ "t_seq e + 1"])
qed

text \<open>What an enrollment needs: a working database, a settled user, and no feature at the index.\<close>

definition can_enroll :: "host \<Rightarrow> bio_dev \<Rightarrow> string \<Rightarrow> store \<Rightarrow> int \<Rightarrow> int \<Rightarrow> bool" where
  "can_enroll h dev d s uid idx \<longleftrightarrow> store_ready h dev s \<and> device_name dev = Some d
     \<and> settled h (s_users s) uid \<and> 0 \<le> uid \<and> 0 \<le> idx \<and> idx < INT_MAX
     \<and> list_all (\<lambda>r. \<not> row_selected uid (biotype_code (biotype (bioinfo dev))) (Some d) idx idx r)
         (eigen_rows (tables_of (s_db s)))"

lemma store_ready_dev: "device_name dev = device_name dev' \<Longrightarrow> store_ready h dev s = store_ready h dev' s"
  by (simp add: store_ready_def)

lemma can_enroll_dev: "identity dev = identity dev' \<Longrightarrow> can_enroll h dev d s uid idx = can_enroll h dev' d s uid idx"
  using identity_fields(1,2) [of dev dev'] by (simp add: can_enroll_def store_ready_def)

text \<open>The columns of the feature in the table that is printed before storing and after every query fit their buffers.\<close>

definition prints_well :: "bio_dev \<Rightarrow> string \<Rightarrow> int \<Rightarrow> int \<Rightarrow> string \<Rightarrow> bool" where
  "prints_well dev d uid idx name \<longleftrightarrow> printable \<lparr>fi_uid = uid, fi_biotype = biotype_code (biotype (bioinfo dev)),
     fi_driver = Some d, fi_index = idx, fi_index_name = Some name, fi_sample = []\<rparr>"

lemma prints_well_feature:
  "printable \<lparr>fi_uid = uid, fi_biotype = biotype_code (biotype (bioinfo dev)), fi_driver = Some d, fi_index = idx,
     fi_index_name = Some name, fi_sample = xs\<rparr> = prints_well dev d uid idx name"
  by (simp add: prints_well_def printable_def)

lemma prints_well_dev: "identity dev = identity dev' \<Longrightarrow> prints_well dev d uid idx name = prints_well dev' d uid idx name"
  using identity_fields(2) [of dev dev'] by (simp add: prints_well_def)

lemma prints_one: "printable i \<Longrightarrow> fi_sample i \<noteq> [] \<Longrightarrow> \<exists>lines. print_feature_info [i] = Inr lines"
  using print_feature_info_lines [of "[i]"] by auto

text \<open>The template is stored, and the query for it finds exactly it.\<close>

lemma store_template_ready:
  assumes "can_enroll h (w_dev w) d (w_store w) uid idx" "encode_template (aes_key (w_priv w)) data = Inr code"
    "prints_well (w_dev w) d uid idx name"
  obtains s' q where "store_template h uid idx (Some name) data w = Inr (set_store s' w)"
    "store_ready h (w_dev w) s'" "one_more h (biotype (bioinfo (w_dev w))) d uid idx (w_store w) s'"
    "group_rows (query_rows h uid (biotype_code (biotype (bioinfo (w_dev w)))) (Some d) idx idx s') =
      [\<lparr>fi_uid = uid, fi_biotype = biotype_code (biotype (bioinfo (w_dev w))), fi_driver = Some d, fi_index = idx,
        fi_index_name = Some name, fi_sample = [\<lparr>sa_dbid = q, sa_no = int (length data), sa_data = Some code\<rparr>]\<rparr>]"
proof -
  let ?dev = "w_dev w" and ?s = "w_store w"
  let ?x = "\<lparr>sa_dbid = 0, sa_no = int (length data), sa_data = Some code\<rparr>"
  let ?i = "\<lparr>fi_uid = uid, fi_biotype = biotype_code (biotype (bioinfo ?dev)), fi_driver = Some d, fi_index = idx,
          fi_index_name = Some name, fi_sample = [?x]\<rparr>"
  let ?s' = "?s\<lparr>s_db := upd_tables (insert_row ?i (uuid_of h (s_users ?s) uid) ?x) (s_db ?s)\<rparr>"
  have r: "store_ready h ?dev ?s" "device_name ?dev = Some d" "settled h (s_users ?s) uid" "0 \<le> uid" "0 \<le> idx" "idx < INT_MAX"
    "\<forall>r\<in>set (eigen_rows (tables_of (s_db ?s))). \<not> row_selected uid (biotype_code (biotype (bioinfo ?dev))) (Some d) idx idx r"
    using assms(1) by (auto simp: can_enroll_def list_all_iff)
  have x: "sa_data ?x = Some code" by simp
  note q = query_one [OF r refl x refl, of name]
  have set: "bio_sto_set_feature_info h True [?i] ?s = Inr (0, ?s')"
    using store_one [OF r(1), of ?i ?x] r by (simp add: insertable_def)
  have new: "bio_sto_new_feature_info uid (biotype_code (biotype (bioinfo ?dev))) (device_name ?dev) idx (Some name)
      = Some (?i\<lparr>fi_sample := []\<rparr>)"
    using r(2) by (simp add: bio_sto_new_feature_info_def internal_newstr_def)
  obtain lines where "print_feature_info [?i] = Inr lines"
    using prints_one [of ?i] assms(3) prints_well_feature by fastforce
  then have "store_template h uid idx (Some name) data w = Inr (set_store ?s' w)"
    using assms(2) new set connect_ready [OF r(1)] connect_ready(2) [OF q(1)]
    by (simp add: store_template_def Let_def bio_sto_new_feature_sample_def)
  with q that show ?thesis by (auto simp: bio_sto_new_feature_sample_def)
qed

lemma set_store_simps [simp]:
  "w_dev (set_store s w) = w_dev w" "w_store (set_store s w) = s" "w_priv (set_store s w) = w_priv w"
  by (simp_all add: set_store_def)

lemma enroll_hook_at_once:
  assumes "can_enroll h (w_dev w) d (w_store w) uid idx" "aes_key (w_priv w) = Some k" "16 \<le> length k"
    "enable (w_dev w) \<noteq> 0" "events (w_priv w) = [Enroll_completed (Some p)] # evs"
    "fp_serialize lib p = Some data" "length data \<noteq> 1" "prints_well (w_dev w) d uid idx name"
  obtains w' q code where "community_ops_enroll h lib a uid idx (Some name) w = Inr (0, w')"
    "identity (w_dev w') = identity (w_dev w)" "ops_result (w_dev w') = OPS_ENROLL_SUCCESS"
    "events (w_priv w') = evs" "aes_key (w_priv w') = aes_key (w_priv w)" "store_ready h (w_dev w') (w_store w')"
    "one_more h (biotype (bioinfo (w_dev w))) d uid idx (w_store w) (w_store w')"
    "decode_template (Some k) code (length data) = Inr data"
    "group_rows (query_rows h uid (biotype_code (biotype (bioinfo (w_dev w)))) (Some d) idx idx (w_store w')) =
      [\<lparr>fi_uid = uid, fi_biotype = biotype_code (biotype (bioinfo (w_dev w))), fi_driver = Some d, fi_index = idx,
        fi_index_name = Some name, fi_sample = [\<lparr>sa_dbid = q, sa_no = int (length data), sa_data = Some code\<rparr>]\<rparr>]"
proof -
  let ?w = "extended_message (''enroll start ! Please press your finger.'' @ [CHR 0x0A])
      (start_request (bio_set_dev_status DEVS_ENROLL_DOING w))"
  obtain code where code: "encode_template (Some k) data = Inr code" "decode_template (Some k) code (length data) = Inr data"
    using decode_encoded [OF assms(3,7)] by blast
  have w: "identity (w_dev ?w) = identity (w_dev w)" "w_store ?w = w_store w" "aes_key (w_priv ?w) = Some k"
    "events (w_priv ?w) = [Enroll_completed (Some p)] # evs" "bioinfo (w_dev ?w) = bioinfo (w_dev w)"
    using assms(2,5) by (simp_all add: extended_message_def set_extra_info_def start_request_def)
  have "can_enroll h (w_dev ?w) d (w_store ?w) uid idx" using assms(1) can_enroll_dev [OF w(1)] w(2) by simp
  from store_template_ready [OF this, of data code name] obtain s' q where
    st: "store_template h uid idx (Some name) data ?w = Inr (set_store s' ?w)" "store_ready h (w_dev ?w) s'"
      "one_more h (biotype (bioinfo (w_dev w))) d uid idx (w_store w) s'"
      "group_rows (query_rows h uid (biotype_code (biotype (bioinfo (w_dev ?w)))) (Some d) idx idx s') =
      [\<lparr>fi_uid = uid, fi_biotype = biotype_code (biotype (bioinfo (w_dev ?w))), fi_driver = Some d, fi_index = idx,
        fi_index_name = Some name, fi_sample = [\<lparr>sa_dbid = q, sa_no = int (length data), sa_data = Some code\<rparr>]\<rparr>]"
    using w code prints_well_dev [OF w(1)] assms(8) by auto
  let ?v = "set_asyn ASYN_FLAG_DONE (set_final OPS_ENROLL_SUCCESS NOTIFY_ENROLL_SUCCESS (set_store s' ?w))"
  have "handle_events (enroll_callback h lib uid idx (Some name)) [Enroll_completed (Some p)] () ?w = Inr ((), ?v)"
    using st(1) assms(6) by (simp add: on_enroll_completed_def)
  moreover have "asyn_flag (w_priv ?v) = ASYN_FLAG_DONE" by (simp add: set_asyn_def)
  ultimately have "await (enroll_callback h lib uid idx (Some name)) True () ?w
      = Inr (Finished, (), upd_priv (\<lambda>p. p\<lparr>events := evs\<rparr>) ?v)"
    by (rule await_one [OF w(4)])
  then have run: "community_ops_enroll h lib a uid idx (Some name) w = Inr (0, upd_priv (\<lambda>p. p\<lparr>events := evs\<rparr>) ?v)"
    using assms(1,4) by (simp add: community_ops_enroll_def can_enroll_def Let_def)
  have "device_name (w_dev ?v) = device_name (w_dev ?w)" "w_store ?v = s'" "identity (w_dev ?v) = identity (w_dev ?w)"
    "ops_result (w_dev ?v) = OPS_ENROLL_SUCCESS" "aes_key (w_priv ?v) = aes_key (w_priv ?w)"
    by (simp_all add: set_asyn_def set_final_def)
  with run st code w assms(2) store_ready_dev [of "w_dev ?v" "w_dev ?w" h s'] show ?thesis
    by (intro that [of "upd_priv (\<lambda>p. p\<lparr>events := evs\<rparr>) ?v"]) simp_all
qed

lemma verify_hook_at_once:
  assumes "store_ready h (w_dev w) (w_store w)" "device_name (w_dev w) = Some d" "0 \<le> uid"
    "group_rows (query_rows h uid (biotype_code (biotype (bioinfo (w_dev w)))) (Some d) idx idx (w_store w)) = [info]"
    "fi_sample info = [\<lparr>sa_dbid = q, sa_no = int (length data), sa_data = Some code\<rparr>]" "printable info"
    "aes_key (w_priv w) = Some k" "decode_template (Some k) code (length data) = Inr data"
    "fp_deserialize lib data = Some p" "enable (w_dev w) \<noteq> 0"
    "events (w_priv w) = [Match_report (Some scan), Match_completed] # evs"
  obtains w' where "community_ops_verify h lib a uid idx w = Inr (0, w')"
    "identity (w_dev w') = identity (w_dev w)" "w_store w' = w_store w"
    "ops_result (w_dev w') = (if fp_compare lib p scan then OPS_VERIFY_MATCH else OPS_VERIFY_NO_MATCH)"
    "events (w_priv w') = evs" "aes_key (w_priv w') = aes_key (w_priv w)"
proof -
  let ?u = "start_request (bio_set_dev_status DEVS_VERIFY_DOING w)"
  let ?w = "extended_message (''verify start ! Please press your finger.'' @ [CHR 0x0A]) ?u"
  have w0: "device_name (w_dev ?u) = device_name (w_dev w)" "bioinfo (w_dev ?u) = bioinfo (w_dev w)"
    "w_store ?u = w_store w" "aes_key (w_priv ?u) = aes_key (w_priv w)"
    by (simp_all add: start_request_def)
  have "query_db h uid idx idx ?u = Inr ([info], ?u)"
    using query_db_ready [of h ?u uid idx idx] assms(1-4) w0 store_ready_dev [OF w0(1)] told_apart_one_user [of uid]
    by simp
  then have q: "query_printed h uid idx idx ?u = Inr ([info], ?u)"
    by (rule query_printed_ready) (simp add: assms(5,6))
  have dec: "decode_sample lib (aes_key (w_priv ?u)) \<lparr>sa_dbid = q, sa_no = int (length data), sa_data = Some code\<rparr>
      = Inr (Some p)"
    using assms(7-9) w0 by (simp add: decode_sample_def)
  have w: "events (w_priv ?w) = [Match_report (Some scan), Match_completed] # evs" "identity (w_dev ?w) = identity (w_dev w)"
    "w_store ?w = w_store w" "aes_key (w_priv ?w) = aes_key (w_priv w)"
    using assms(11) by (simp_all add: extended_message_def set_extra_info_def start_request_def)
  let ?v = "set_asyn ASYN_FLAG_DONE (on_match_cb_verify lib p (Some scan) ?w)"
  have "handle_events (verify_callback lib p) [Match_report (Some scan), Match_completed] () ?w = Inr ((), ?v)"
    by simp
  moreover have "asyn_flag (w_priv ?v) = ASYN_FLAG_DONE" by (simp add: set_asyn_def)
  ultimately have "await (verify_callback lib p) True () ?w = Inr (Finished, (), upd_priv (\<lambda>p. p\<lparr>events := evs\<rparr>) ?v)"
    by (rule await_one [OF w(1)])
  then have run: "community_ops_verify h lib a uid idx w =
      Inr (0, bio_set_dev_status DEVS_COMM_IDLE (upd_priv (\<lambda>p. p\<lparr>events := evs\<rparr>) ?v))"
    using assms(5,10) q dec by (simp add: community_ops_verify_def Let_def)
  have "w_store ?v = w_store w" "identity (w_dev ?v) = identity (w_dev w)" "aes_key (w_priv ?v) = aes_key (w_priv w)"
    "ops_result (w_dev ?v) = (if fp_compare lib p scan then OPS_VERIFY_MATCH else OPS_VERIFY_NO_MATCH)"
    using w by (simp_all add: set_asyn_def on_match_cb_verify_def report_match_def set_extra_info_def)
  with run show ?thesis
    by (intro that [of "bio_set_dev_status DEVS_COMM_IDLE (upd_priv (\<lambda>p. p\<lparr>events := evs\<rparr>) ?v)"]) simp_all
qed

section \<open>Through the framework\<close>

definition with_events :: "('pr, 'sc) schedule \<Rightarrow> ('pr, 'sc) cworld \<Rightarrow> ('pr, 'sc) cworld" where
  "with_events evs = upd_priv (\<lambda>p. p\<lparr>events := evs\<rparr>)"

lemma with_events_simps [simp]:
  "w_dev (with_events evs w) = w_dev w" "w_store (with_events evs w) = w_store w"
  "events (w_priv (with_events evs w)) = evs" "aes_key (w_priv (with_events evs w)) = aes_key (w_priv w)"
  by (simp_all add: with_events_def)

text \<open>The feature as the query finds it, and a database that has it.\<close>

definition enrolled ::
    "host \<Rightarrow> byte list \<Rightarrow> bio_dev \<Rightarrow> string \<Rightarrow> int \<Rightarrow> int \<Rightarrow> byte list \<Rightarrow> store \<Rightarrow> bool" where
  "enrolled h k dev d uid idx data s \<longleftrightarrow> store_ready h dev s \<and> (\<exists>info q code. decode_template (Some k) code (length data) = Inr data
     \<and> group_rows (query_rows h uid (biotype_code (biotype (bioinfo dev))) (Some d) idx idx s) = [info]
     \<and> fi_sample info = [\<lparr>sa_dbid = q, sa_no = int (length data), sa_data = Some code\<rparr>] \<and> printable info)"

lemma enrolled_dev: "identity dev = identity dev' \<Longrightarrow> enrolled h k dev d uid idx data s = enrolled h k dev' d uid idx data s"
  using identity_fields(1,2) [of dev dev'] by (simp add: enrolled_def store_ready_def)

lemma framework_enrolls:
  assumes "can_enroll h (w_dev w) d (w_store w) uid idx" "aes_key (w_priv w) = Some k" "16 \<le> length k"
    "enable (w_dev w) \<noteq> 0" "fp_serialize lib p = Some data" "length data \<noteq> 1"
    "events (w_priv w) = [[Opened True], [Enroll_completed (Some p)], [Closed]]" "prints_well (w_dev w) d uid idx name"
  obtains w' where "bio_ops_enroll (community_ops h lib) uid idx (Some name) w = Inr (0, w')"
    "identity (w_dev w') = identity (w_dev w)" "ops_result (w_dev w') = OPS_ENROLL_SUCCESS"
    "enrolled h k (w_dev w') d uid idx data (w_store w')" "aes_key (w_priv w') = Some k"
    "one_more h (biotype (bioinfo (w_dev w))) d uid idx (w_store w) (w_store w')"
proof -
  define Q where "Q dev s \<longleftrightarrow> identity dev = identity (w_dev w) \<and> ops_result dev = OPS_ENROLL_SUCCESS
    \<and> enrolled h k dev d uid idx data s \<and> one_more h (biotype (bioinfo (w_dev w))) d uid idx (w_store w) s" for dev s
  have "\<exists>w'. device_session (community_ops h lib) (\<lambda>ret. ret) (-1)
      (Some (community_ops_enroll h lib ACTION_START uid idx (Some name))) w = Inr (0, w')
    \<and> Q (w_dev w') (w_store w') \<and> events (w_priv w') = [] \<and> aes_key (w_priv w') = aes_key (w_priv w)"
  proof (rule session_at_once [OF refl assms(4,7), where Q = Q])
    fix v assume v: "opened [[Enroll_completed (Some p)], [Closed]] w v"
    have dev: "identity (w_dev v) = identity (w_dev w)" "w_store v = w_store w" "aes_key (w_priv v) = Some k"
      "events (w_priv v) = [Enroll_completed (Some p)] # [[Closed]]"
      using v assms(2) by (auto simp: opened_def)
    have en: "enable (w_dev v) \<noteq> 0" using identity_fields(4) [OF dev(1)] assms(4) by simp
    have can: "can_enroll h (w_dev v) d (w_store v) uid idx" using assms(1) can_enroll_dev [OF dev(1)] dev(2) by simp
    have pw: "prints_well (w_dev v) d uid idx name" using assms(8) prints_well_dev [OF dev(1)] by simp
    obtain v' q code where
      e: "community_ops_enroll h lib ACTION_START uid idx (Some name) v = Inr (0, v')"
      "identity (w_dev v') = identity (w_dev v)" "ops_result (w_dev v') = OPS_ENROLL_SUCCESS"
      "events (w_priv v') = [[Closed]]" "aes_key (w_priv v') = aes_key (w_priv v)" "store_ready h (w_dev v') (w_store v')"
      "one_more h (biotype (bioinfo (w_dev v))) d uid idx (w_store v) (w_store v')"
      "decode_template (Some k) code (length data) = Inr data"
      "group_rows (query_rows h uid (biotype_code (biotype (bioinfo (w_dev v)))) (Some d) idx idx (w_store v')) =
      [\<lparr>fi_uid = uid, fi_biotype = biotype_code (biotype (bioinfo (w_dev v))), fi_driver = Some d, fi_index = idx,
        fi_index_name = Some name, fi_sample = [\<lparr>sa_dbid = q, sa_no = int (length data), sa_data = Some code\<rparr>]\<rparr>]"
      using enroll_hook_at_once [OF can dev(3) assms(3) en dev(4) assms(5,6) pw, where a = ACTION_START] .
    have "enrolled h k (w_dev v') d uid idx data (w_store v')"
      unfolding enrolled_def identity_fields(2) [OF e(2)]
      by (rule conjI [OF e(6)], intro exI conjI, rule e(8), rule e(9)) (use pw in \<open>simp_all add: prints_well_feature\<close>)
    then have "Q (w_dev v') (w_store v')" using e(2,3,7) dev(1,2) identity_fields(2) [OF dev(1)] by (simp add: Q_def)
    moreover have "enable (w_dev v') \<noteq> 0" using identity_fields(4) [OF e(2)] en by simp
    ultimately show "\<exists>v'. community_ops_enroll h lib ACTION_START uid idx (Some name) v = Inr (0, v') \<and> enable (w_dev v') \<noteq> 0
        \<and> events (w_priv v') = [Closed] # [] \<and> aes_key (w_priv v') = aes_key (w_priv w) \<and> Q (w_dev v') (w_store v')"
      using e(1,4,5) dev(3) assms(2) by auto
  qed
  then obtain w' where "device_session (community_ops h lib) (\<lambda>ret. ret) (-1)
      (Some (community_ops_enroll h lib ACTION_START uid idx (Some name))) w = Inr (0, w')"
    "Q (w_dev w') (w_store w')" "aes_key (w_priv w') = aes_key (w_priv w)"
    by blast
  then show ?thesis
    using that [of w'] assms(2,4) by (simp add: Q_def bio_ops_enroll_def community_ops_def)
qed

lemma framework_verifies:
  assumes "enrolled h k (w_dev w) d uid idx data (w_store w)" "device_name (w_dev w) = Some d" "0 \<le> uid"
    "aes_key (w_priv w) = Some k" "enable (w_dev w) \<noteq> 0" "fp_deserialize lib data = Some p"
    "events (w_priv w) = [[Opened True], [Match_report (Some scan), Match_completed], [Closed]]"
  obtains w' where "bio_ops_verify (community_ops h lib) uid idx w = Inr (0, w')"
    "ops_result (w_dev w') = (if fp_compare lib p scan then OPS_VERIFY_MATCH else OPS_VERIFY_NO_MATCH)"
proof -
  define Q where "Q (dev :: bio_dev) (s :: store) \<longleftrightarrow>
    ops_result dev = (if fp_compare lib p scan then OPS_VERIFY_MATCH else OPS_VERIFY_NO_MATCH)" for dev s
  have "\<exists>w'. device_session (community_ops h lib) (\<lambda>ret. ret) (-1)
      (Some (community_ops_verify h lib ACTION_START uid idx)) w = Inr (0, w')
    \<and> Q (w_dev w') (w_store w') \<and> events (w_priv w') = [] \<and> aes_key (w_priv w') = aes_key (w_priv w)"
  proof (rule session_at_once [OF refl assms(5,7), where Q = Q])
    fix v assume v: "opened [[Match_report (Some scan), Match_completed], [Closed]] w v"
    have dev: "identity (w_dev v) = identity (w_dev w)" "w_store v = w_store w" "aes_key (w_priv v) = Some k"
      "events (w_priv v) = [Match_report (Some scan), Match_completed] # [[Closed]]"
      using v assms(4) by (auto simp: opened_def)
    have v2: "enable (w_dev v) \<noteq> 0" "device_name (w_dev v) = Some d" using identity_fields [OF dev(1)] assms(2,5) by simp_all
    have "enrolled h k (w_dev v) d uid idx data (w_store v)" using assms(1) enrolled_dev [OF dev(1)] dev(2) by simp
    then obtain info q code where e: "store_ready h (w_dev v) (w_store v)" "decode_template (Some k) code (length data) = Inr data"
      "group_rows (query_rows h uid (biotype_code (biotype (bioinfo (w_dev v)))) (Some d) idx idx (w_store v)) = [info]"
      "fi_sample info = [\<lparr>sa_dbid = q, sa_no = int (length data), sa_data = Some code\<rparr>]" "printable info"
      unfolding enrolled_def by blast
    obtain v' where r: "community_ops_verify h lib ACTION_START uid idx v = Inr (0, v')"
        "identity (w_dev v') = identity (w_dev v)" "w_store v' = w_store v"
        "ops_result (w_dev v') = (if fp_compare lib p scan then OPS_VERIFY_MATCH else OPS_VERIFY_NO_MATCH)"
        "events (w_priv v') = [[Closed]]" "aes_key (w_priv v') = aes_key (w_priv v)"
      using verify_hook_at_once [OF e(1) v2(2) assms(3) e(3,4,5) dev(3) e(2) assms(6) v2(1) dev(4), where a = ACTION_START] .
    have "enable (w_dev v') \<noteq> 0" using identity_fields(4) [OF r(2)] v2 by simp
    then show "\<exists>v'. community_ops_verify h lib ACTION_START uid idx v = Inr (0, v') \<and> enable (w_dev v') \<noteq> 0
        \<and> events (w_priv v') = [Closed] # [] \<and> aes_key (w_priv v') = aes_key (w_priv w) \<and> Q (w_dev v') (w_store v')"
      using r dev(3) assms(4) by (auto simp: Q_def)
  qed
  then obtain w' where "device_session (community_ops h lib) (\<lambda>ret. ret) (-1)
      (Some (community_ops_verify h lib ACTION_START uid idx)) w = Inr (0, w')" "Q (w_dev w') (w_store w')"
    by blast
  then show ?thesis
    using that [of w'] assms(5) by (simp add: Q_def bio_ops_verify_def community_ops_def)
qed

text \<open>
  C1. Who enrolled is recognised: when the feature fits the buffers of the table that is printed, the library
  delivers a print during an enrollment, and
  later reports a scan during a verification of the same user and index, the operations of the
  framework answer 0, and the result of the verification is a match exactly when the library
  compares the enrolled print, which went through serialising, encryption, Base64 and the
  database, as equal to the scan.
\<close>

theorem enrolled_user_verifies:
  assumes "can_enroll h (w_dev w) d (w_store w) uid idx" "aes_key (w_priv w) = Some k" "16 \<le> length k"
    "enable (w_dev w) \<noteq> 0" "fp_serialize lib p = Some data" "fp_deserialize lib data = Some p" "length data \<noteq> 1"
    "prints_well (w_dev w) d uid idx name"
  shows "\<exists>w1. bio_ops_enroll (community_ops h lib) uid idx (Some name)
        (with_events [[Opened True], [Enroll_completed (Some p)], [Closed]] w) = Inr (0, w1)
    \<and> ops_result (w_dev w1) = OPS_ENROLL_SUCCESS
    \<and> (\<forall>scan. \<exists>w2. bio_ops_verify (community_ops h lib) uid idx
        (with_events [[Opened True], [Match_report (Some scan), Match_completed], [Closed]] w1) = Inr (0, w2)
      \<and> ops_result (w_dev w2) = (if fp_compare lib p scan then OPS_VERIFY_MATCH else OPS_VERIFY_NO_MATCH))"
proof -
  let ?w = "with_events [[Opened True], [Enroll_completed (Some p)], [Closed]] w"
  obtain w1 where w1: "bio_ops_enroll (community_ops h lib) uid idx (Some name) ?w = Inr (0, w1)"
    "identity (w_dev w1) = identity (w_dev ?w)" "ops_result (w_dev w1) = OPS_ENROLL_SUCCESS"
    "enrolled h k (w_dev w1) d uid idx data (w_store w1)" "aes_key (w_priv w1) = Some k"
    by (rule framework_enrolls [of h ?w d uid idx k lib p data name]) (use assms in simp_all)
  have dev: "device_name (w_dev w1) = Some d" "0 \<le> uid" "enable (w_dev w1) \<noteq> 0"
    using identity_fields [OF w1(2)] assms(1,4) by (simp_all add: can_enroll_def)
  have "\<exists>w2. bio_ops_verify (community_ops h lib) uid idx
        (with_events [[Opened True], [Match_report (Some scan), Match_completed], [Closed]] w1) = Inr (0, w2)
      \<and> ops_result (w_dev w2) = (if fp_compare lib p scan then OPS_VERIFY_MATCH else OPS_VERIFY_NO_MATCH)" for scan
    by (rule framework_verifies [of h k "with_events [[Opened True], [Match_report (Some scan), Match_completed], [Closed]] w1"
          d uid idx data lib p scan]) (use w1(4,5) dev assms(6) in \<open>auto simp del: split_paired_Ex\<close>)
  with w1(1,3) show ?thesis by blast
qed

lemma demo_can_enroll: "can_enroll demo_host (w_dev demo_cworld) ''aes2501'' (w_store demo_cworld) 7 0"
  using ready_demo [of "[]"] demo_settled_absent [of 7]
  by (simp add: can_enroll_def demo_cworld_def idle_dev_def INT_MAX_def ready_store_def demo_store_def tables_of_def eigen_rows_def)

lemma demo_prints: "prints_well (w_dev demo_cworld) ''aes2501'' 7 0 ''thumb''"
proof -
  have "ascii ''aes2501''" "ascii ''thumb''" by code_simp+
  then show ?thesis
    unfolding prints_well_def by (intro plain_printable [where d = "''aes2501''" and name = "''thumb''"])
      (simp_all add: demo_cworld_def idle_dev_def)
qed

theorem enrolled_user_verifies_witness:
  "\<exists>w1. bio_ops_enroll (community_ops demo_host demo_lib) 7 0 (Some ''thumb'')
        (with_events [[Opened True], [Enroll_completed (Some [1, 2, 3])], [Closed]] demo_cworld) = Inr (0, w1)
    \<and> (\<exists>w2. bio_ops_verify (community_ops demo_host demo_lib) 7 0
        (with_events [[Opened True], [Match_report (Some [1, 2, 4]), Match_completed], [Closed]] w1) = Inr (0, w2)
      \<and> ops_result (w_dev w2) = OPS_VERIFY_NO_MATCH)"
proof -
  have "aes_key (w_priv demo_cworld) = Some default_key_buf" "16 \<le> length default_key_buf"
    "enable (w_dev demo_cworld) \<noteq> 0" "fp_serialize demo_lib [1, 2, 3] = Some [1, 2, 3]"
    "fp_deserialize demo_lib [1, 2, 3] = Some [1, 2, 3]" "length [1 :: byte, 2, 3] \<noteq> 1"
    "\<not> fp_compare demo_lib [1, 2, 3] [1, 2, 4]"
    by (simp_all add: demo_cworld_def demo_priv_def length_default_key_buf idle_dev_def demo_lib_def)
  note hyps = this
  from enrolled_user_verifies [OF demo_can_enroll hyps(1-6) demo_prints] hyps(7)
  show ?thesis by metis
qed

section \<open>What is taken for a success, and what brings the service down\<close>

text \<open>
  C36. An enrollment the library reports as failed is answered like one that succeeded: the hook
  answers 0 and the result of the operation stays that of the successful opening, whose last
  two digits mean success.
\<close>

theorem failed_enroll_looks_successful:
  assumes "enable (w_dev w) \<noteq> 0" "0 \<le> idx"
  shows "\<exists>w'. bio_ops_enroll (community_ops h lib) uid idx name
        (with_events [[Opened True], [Enroll_completed None], [Closed]] w) = Inr (0, w')
    \<and> w_store w' = w_store w \<and> ops_result (w_dev w') = OPS_OPEN_SUCCESS
    \<and> ops_result (w_dev w') smod 100 = OPS_COMM_SUCCESS"
proof -
  let ?w = "with_events [[Opened True], [Enroll_completed None], [Closed]] w"
  define Q where "Q (dev :: bio_dev) s \<longleftrightarrow> ops_result dev = OPS_OPEN_SUCCESS \<and> s = w_store w" for dev s
  have "\<exists>w'. device_session (community_ops h lib) (\<lambda>ret. ret) (-1)
      (Some (community_ops_enroll h lib ACTION_START uid idx name)) ?w = Inr (0, w')
    \<and> Q (w_dev w') (w_store w') \<and> events (w_priv w') = [] \<and> aes_key (w_priv w') = aes_key (w_priv ?w)"
  proof (rule session_at_once [OF refl, where Q = Q])
    fix v assume v: "opened [[Enroll_completed None], [Closed]] ?w v"
    have en: "enable (w_dev v) \<noteq> 0" using v assms(1) identity_fields(4) [of "w_dev v" "w_dev w"] by (simp add: opened_def)
    let ?v = "extended_message (''enroll start ! Please press your finger.'' @ [CHR 0x0A])
      (start_request (bio_set_dev_status DEVS_ENROLL_DOING v))"
    have ev: "events (w_priv ?v) = [Enroll_completed None] # [[Closed]]"
      using v by (simp add: opened_def extended_message_def set_extra_info_def start_request_def)
    have h: "handle_events (enroll_callback h lib uid idx name) [Enroll_completed None] () ?v = Inr ((), set_asyn ASYN_FLAG_DONE ?v)"
      by (simp add: on_enroll_completed_def)
    have "asyn_flag (w_priv (set_asyn ASYN_FLAG_DONE ?v)) = ASYN_FLAG_DONE" by (simp add: set_asyn_def)
    note aw = await_one [OF ev h this, of True]
    then have run: "community_ops_enroll h lib ACTION_START uid idx name v
        = Inr (0, upd_priv (\<lambda>p. p\<lparr>events := [[Closed]]\<rparr>) (set_asyn ASYN_FLAG_DONE ?v))"
      using assms(2) en by (simp add: community_ops_enroll_def Let_def)
    have "ops_result (w_dev ?v) = OPS_OPEN_SUCCESS" "w_store ?v = w_store w" "aes_key (w_priv ?v) = aes_key (w_priv w)"
      "enable (w_dev ?v) = enable (w_dev v)"
      using v by (simp_all add: opened_def extended_message_def set_extra_info_def start_request_def)
    then show "\<exists>v'. community_ops_enroll h lib ACTION_START uid idx name v = Inr (0, v') \<and> enable (w_dev v') \<noteq> 0
        \<and> events (w_priv v') = [Closed] # [] \<and> aes_key (w_priv v') = aes_key (w_priv ?w) \<and> Q (w_dev v') (w_store v')"
      using run en by (simp add: Q_def set_asyn_def)
  qed (use assms in simp_all)
  then obtain w' where "device_session (community_ops h lib) (\<lambda>ret. ret) (-1)
      (Some (community_ops_enroll h lib ACTION_START uid idx name)) ?w = Inr (0, w')" "Q (w_dev w') (w_store w')"
    by blast
  then show ?thesis
    using assms(1) by (auto simp: Q_def bio_ops_enroll_def community_ops_def smod_nonneg)
qed

theorem failed_enroll_looks_successful_witness:
  "\<exists>w'. bio_ops_enroll (community_ops demo_host demo_lib) 7 0 (Some ''thumb'')
        (with_events [[Opened True], [Enroll_completed None], [Closed]] demo_cworld) = Inr (0, w')
    \<and> ops_result (w_dev w') smod 100 = OPS_COMM_SUCCESS"
proof -
  have "enable (w_dev demo_cworld) \<noteq> 0" by (simp add: demo_cworld_def idle_dev_def)
  from failed_enroll_looks_successful [OF this, of 0 demo_host demo_lib 7 "Some ''thumb''"]
  show ?thesis by auto
qed

text \<open>
  Verifying a user who has no feature at the index follows a null pointer: the hook looks into
  the first feature of the list the database returns without asking whether there is one.
\<close>

theorem verify_without_feature_faults:
  assumes "store_ready h (w_dev w) (w_store w)" "device_name (w_dev w) = Some d" "0 \<le> uid" "enable (w_dev w) \<noteq> 0"
    "query_rows h uid (biotype_code (biotype (bioinfo (w_dev w)))) (Some d) idx idx (w_store w) = []"
  shows "bio_ops_verify (community_ops h lib) uid idx (with_events ([Opened True] # evs) w) = Inl Null_deref"
proof -
  let ?w = "with_events ([Opened True] # evs) w"
  obtain v where v: "community_ops_open ?w = Inr (0, v)" "opened evs ?w v"
    using open_at_once [of ?w evs] assms(4) by auto
  have dev: "identity (w_dev v) = identity (w_dev w)" "w_store v = w_store w" using v(2) by (simp_all add: opened_def)
  let ?u = "start_request (bio_set_dev_status DEVS_VERIFY_DOING v)"
  have u: "device_name (w_dev ?u) = Some d" "bioinfo (w_dev ?u) = bioinfo (w_dev w)" "w_store ?u = w_store w"
    using identity_fields [OF dev(1)] assms(2) dev(2) by (simp_all add: start_request_def)
  have "store_ready h (w_dev ?u) (w_store ?u)" using assms(1,2) u store_ready_dev [of "w_dev ?u" "w_dev w"] by simp
  then have "query_db h uid idx idx ?u = Inr ([], ?u)"
    using query_db_ready [of h ?u uid idx idx] u assms(3,5) by (simp add: told_apart_def)
  then have "query_printed h uid idx idx ?u = Inr ([], ?u)" by (rule query_printed_ready) simp
  then have "community_ops_verify h lib ACTION_START uid idx v = Inl Null_deref"
    using identity_fields(4) [OF dev(1)] assms(4) by (simp add: community_ops_verify_def Let_def)
  then show ?thesis
    using v(1) assms(4) by (simp add: bio_ops_verify_def device_session_def open_dev_def community_ops_def)
qed

theorem verify_without_feature_faults_witness:
  "bio_ops_verify (community_ops demo_host demo_lib) 7 0 (with_events ([Opened True] # []) demo_cworld) = Inl Null_deref"
proof -
  have "store_ready demo_host (w_dev demo_cworld) (w_store demo_cworld)" "device_name (w_dev demo_cworld) = Some ''aes2501''"
    "enable (w_dev demo_cworld) \<noteq> 0"
    "query_rows demo_host 7 (biotype_code (biotype (bioinfo (w_dev demo_cworld)))) (Some ''aes2501'') 0 0 (w_store demo_cworld) = []"
    using demo_can_enroll by (simp_all add: can_enroll_def demo_cworld_def idle_dev_def query_rows_def ready_store_def demo_store_def tables_of_def eigen_rows_def)
  from verify_without_feature_faults [OF this(1,2) _ this(3,4), of demo_lib "[]"] show ?thesis by simp
qed

text \<open>
  C19. A name of 1015 bytes or more brings the service down: enrolling with it, when the library delivers the
  print, writes past the end of a buffer before anything is stored, whatever the level of messages.
\<close>

theorem long_name_enroll_faults:
  assumes "1015 \<le> length name" "0 \<le> idx" "aes_key (w_priv w) = Some k" "16 \<le> length k" "enable (w_dev w) \<noteq> 0"
    "fp_serialize lib p = Some data" "length data \<noteq> 1" "device_name (w_dev w) = Some d"
  shows "bio_ops_enroll (community_ops h lib) uid idx (Some name)
      (with_events ([Opened True] # [Enroll_completed (Some p)] # evs) w) = Inl Out_of_bounds"
proof -
  let ?w = "with_events ([Opened True] # [Enroll_completed (Some p)] # evs) w"
  obtain v where v: "community_ops_open ?w = Inr (0, v)" "opened ([Enroll_completed (Some p)] # evs) ?w v"
    using open_at_once [of ?w "[Enroll_completed (Some p)] # evs"] assms(5) by auto
  have dev: "identity (w_dev v) = identity (w_dev w)" "aes_key (w_priv v) = Some k"
    "events (w_priv v) = [Enroll_completed (Some p)] # evs"
    using v(2) assms(3) by (simp_all add: opened_def)
  let ?v = "extended_message (''enroll start ! Please press your finger.'' @ [CHR 0x0A])
      (start_request (bio_set_dev_status DEVS_ENROLL_DOING v))"
  have v': "aes_key (w_priv ?v) = Some k" "events (w_priv ?v) = [Enroll_completed (Some p)] # evs"
    "asyn_flag (w_priv ?v) \<noteq> ASYN_FLAG_DONE" "device_name (w_dev ?v) = Some d"
    using dev(2,3) assms(8) identity_fields(1) [OF dev(1)] by (simp_all add: extended_message_def set_extra_info_def start_request_def)
  obtain code where "encode_template (Some k) data = Inr code" using decode_encoded [OF assms(4,7)] by blast
  then have st: "store_template h uid idx (Some name) data ?v = Inl Out_of_bounds"
    using v'(1,4) assms(1,2) long_name_faults [of _ name "[]"]
    by (simp add: store_template_def Let_def bio_sto_new_feature_info_def internal_newstr_def)
  then have "handle_events (enroll_callback h lib uid idx (Some name)) [Enroll_completed (Some p)] () ?v = Inl Out_of_bounds"
    using assms(6) by (simp add: on_enroll_completed_def)
  then have "await (enroll_callback h lib uid idx (Some name)) True () ?v = Inl Out_of_bounds"
    using v'(2) by (simp add: await_def poll.simps [of _ _ "[Enroll_completed (Some p)] # evs"] usleep_def)
  then have "community_ops_enroll h lib ACTION_START uid idx (Some name) v = Inl Out_of_bounds"
    using assms(2,5) identity_fields(4) [OF dev(1)] by (simp add: community_ops_enroll_def Let_def)
  then show ?thesis
    using v(1) assms(5) by (simp add: bio_ops_enroll_def device_session_def open_dev_def community_ops_def)
qed

theorem long_name_enroll_faults_witness:
  "bio_ops_enroll (community_ops demo_host demo_lib) 7 0 (Some (replicate 1015 CHR ''a''))
      (with_events [[Opened True], [Enroll_completed (Some [1, 2, 3])]] demo_cworld) = Inl Out_of_bounds"
proof -
  have "aes_key (w_priv demo_cworld) = Some default_key_buf" "16 \<le> length default_key_buf"
    "enable (w_dev demo_cworld) \<noteq> 0" "fp_serialize demo_lib [1, 2, 3] = Some [1, 2, 3]" "length [1 :: byte, 2, 3] \<noteq> 1"
    "device_name (w_dev demo_cworld) = Some ''aes2501''"
    by (simp_all add: demo_cworld_def demo_priv_def length_default_key_buf idle_dev_def demo_lib_def)
  from long_name_enroll_faults [OF _ _ this, of "replicate 1015 CHR ''a''" 0 demo_host 7 "[]"] show ?thesis by simp
qed

end
