(* ===== verification/Bio_Daemon.thy ===== *)
theory Bio_Daemon
  imports Bio_Devlist
begin

text \<open>
  The service (\<open>src/src/biometric-authenticationd.c\<close>, \<open>biometric-dbus-common.c\<close>): its requests over
  D-Bus, whom it lets do what, the lock of each device, and the replies.
\<close>

section \<open>Requests and replies\<close>

datatype RetCode = RetOpsSuccess | RetOpsNoMatch | RetOpsError | RetDeviceBusy | RetNoSuchDevice | RetPermissionDenied

fun ret_code :: "RetCode \<Rightarrow> int" where
  "ret_code RetOpsSuccess = 0"
| "ret_code RetOpsNoMatch = 1"
| "ret_code RetOpsError = 2"
| "ret_code RetDeviceBusy = 3"
| "ret_code RetNoSuchDevice = 4"
| "ret_code RetPermissionDenied = 5"

text \<open>A moment: seconds and microseconds. What the lists of drivers and devices say of one.\<close>

type_synonym timeval = "int \<times> int"

record dev_item =
  di_driver_id :: int
  di_device_name :: "string option"
  di_full_name :: "string option"
  di_enable :: int
  di_dev_num :: int
  di_bioinfo :: BioInfo
  di_status :: "int \<times> int \<times> int"

text \<open>The replies, by the function of the D-Bus interface that sends them.\<close>

datatype reply =
    Complete_check_app_api_version int
  | Complete_get_drv_list int "dev_item list"
  | Complete_get_dev_list int "dev_item list"
  | Complete_get_feature_list int "(int \<times> int \<times> string \<times> int \<times> string) list"
  | Complete_update_status int int int int int int timeval timeval timeval
  | Complete_get_dev_mesg string timeval
  | Complete_get_ops_mesg string timeval
  | Complete_get_notify_mesg string timeval
  | Complete_enroll int
  | Complete_verify int
  | Complete_identify int int
  | Complete_capture int "string option"
  | Complete_search int "(int \<times> int \<times> string) list"
  | Complete_clean int
  | Complete_rename int
  | Complete_stop_ops int

section \<open>Who may do what\<close>

text \<open>
  What the bus and \<open>polkit\<close> answer about the sender of a request; \<open>None\<close> stands for an error. The
  numbers are unsigned, and read into an \<open>int\<close>.
\<close>

record caller =
  unix_user :: "32 word option"
  unix_process_id :: "32 word option"
  polkit_authorized :: "string \<Rightarrow> bool option"

definition get_dbus_caller_uid :: "caller \<Rightarrow> int \<Rightarrow> bool \<times> int" where
  "get_dbus_caller_uid c uid = (case unix_user c of None \<Rightarrow> (False, uid) | Some u \<Rightarrow> (True, sint u))"

definition get_dbus_caller_pid :: "caller \<Rightarrow> int \<Rightarrow> bool \<times> int" where
  "get_dbus_caller_pid c pid = (case unix_process_id c of None \<Rightarrow> (False, pid) | Some u \<Rightarrow> (True, sint u))"

definition authority_check_by_polkit :: "caller \<Rightarrow> string \<Rightarrow> bool" where
  "authority_check_by_polkit c action_id =
     (case polkit_authorized c action_id of None \<Rightarrow> False | Some b \<Rightarrow> b)"

definition POLKIT_ENROLL_OWN_ACTION_ID :: string where
  "POLKIT_ENROLL_OWN_ACTION_ID = ''org.ukui.biometric.enroll-own-data''"
definition POLKIT_ENROLL_ADMIN_ACTION_ID :: string where
  "POLKIT_ENROLL_ADMIN_ACTION_ID = ''org.ukui.biometric.enroll-admin-data''"
definition POLKIT_CLEAN_OWN_ACTION_ID :: string where
  "POLKIT_CLEAN_OWN_ACTION_ID = ''org.ukui.biometric.clean-own-data''"
definition POLKIT_CLEAN_ADMIN_ACTION_ID :: string where
  "POLKIT_CLEAN_ADMIN_ACTION_ID = ''org.ukui.biometric.clean-admin-data''"
definition POLKIT_RENAME_OWN_ACTION_ID :: string where
  "POLKIT_RENAME_OWN_ACTION_ID = ''org.ukui.biometric.rename-own-data''"
definition POLKIT_RENAME_ADMIN_ACTION_ID :: string where
  "POLKIT_RENAME_ADMIN_ACTION_ID = ''org.ukui.biometric.rename-admin-data''"

text \<open>
  The check before enrolling, cleaning and renaming: what the first function answers is ignored, and
  the caller counts as user 0 when it fails.
\<close>

definition authorized :: "caller \<Rightarrow> int \<Rightarrow> string \<Rightarrow> string \<Rightarrow> bool" where
  "authorized c uid own admin =
     (let (_, auth_uid) = get_dbus_caller_uid c 0
      in authority_check_by_polkit c (if auth_uid = uid then own else admin))"

section \<open>The state of the service\<close>

text \<open>
  The framework; the locks and the three arrays of times, of \<open>MAX_DEVICES\<close> entries; what the clock
  shows; the signals sent so far.
\<close>

definition MAX_DEVICES :: nat where
  "MAX_DEVICES = nat BIO_DRVID_DYNAMIC_MAX"

record 'p daemon =
  d_fw :: "'p framework"
  dev_dbus_mutex :: "bool list"
  timestamp_dev_status :: "timeval list"
  timestamp_ops_result :: "timeval list"
  timestamp_notify_mid :: "timeval list"
  gettimeofday :: timeval
  status_signals :: "(int \<times> int) list"
  hotplug_signals :: "(int \<times> int \<times> int) list"

text \<open>Indexing an array with an \<open>int\<close>.\<close>

definition at :: "'a list \<Rightarrow> int \<Rightarrow> 'a res" where
  "at xs i = (if i < 0 then Inl Out_of_bounds else rd xs (nat i))"

definition get_dev_by_drvid :: "int \<Rightarrow> 'p framework \<Rightarrow> nat option" where
  "get_dev_by_drvid drvid fw = List.find (\<lambda>i. driver_id (fw_dev fw i) = drvid) (bio_dev_list fw)"

text \<open>The answer of \<open>trylock\<close>: whether the lock was taken.\<close>

definition pthread_mutex_trylock :: "int \<Rightarrow> 'p daemon \<Rightarrow> (bool \<times> 'p daemon) res" where
  "pthread_mutex_trylock drvid d =
     bindR (at (dev_dbus_mutex d) drvid) (\<lambda>locked.
     Inr (\<not> locked, d\<lparr>dev_dbus_mutex := (dev_dbus_mutex d)[nat drvid := True]\<rparr>))"

definition pthread_mutex_unlock :: "int \<Rightarrow> 'p daemon \<Rightarrow> 'p daemon res" where
  "pthread_mutex_unlock drvid d =
     bindR (at (dev_dbus_mutex d) drvid) (\<lambda>_. Inr (d\<lparr>dev_dbus_mutex := (dev_dbus_mutex d)[nat drvid := False]\<rparr>))"

section \<open>Signals\<close>

definition gdbus_signal_status_changed :: "int \<Rightarrow> int \<Rightarrow> 'p daemon \<Rightarrow> 'p daemon res" where
  "gdbus_signal_status_changed drvid type d =
     bindR (if type = STATUS_TYPE_DEVICE
            then bindR (at (timestamp_dev_status d) drvid) (\<lambda>_.
                 Inr (d\<lparr>timestamp_dev_status := (timestamp_dev_status d)[nat drvid := gettimeofday d]\<rparr>))
            else if type = STATUS_TYPE_OPERATION
            then bindR (at (timestamp_ops_result d) drvid) (\<lambda>_.
                 Inr (d\<lparr>timestamp_ops_result := (timestamp_ops_result d)[nat drvid := gettimeofday d]\<rparr>))
            else if type = STATUS_TYPE_NOTIFY
            then bindR (at (timestamp_notify_mid d) drvid) (\<lambda>_.
                 Inr (d\<lparr>timestamp_notify_mid := (timestamp_notify_mid d)[nat drvid := gettimeofday d]\<rparr>))
            else Inr d) (\<lambda>d.
     Inr (d\<lparr>status_signals := status_signals d @ [(drvid, type)]\<rparr>))"

definition gdbus_usb_device_hot_plug_callback :: "int \<Rightarrow> int \<Rightarrow> int \<Rightarrow> 'p daemon \<Rightarrow> 'p daemon" where
  "gdbus_usb_device_hot_plug_callback drvid action dev_num_now d =
     d\<lparr>hotplug_signals := hotplug_signals d @ [(drvid, action, dev_num_now)]\<rparr>"

text \<open>
  The listeners the service installs (\<open>bus_acquired_cb\<close>), by number; the calls the framework made
  to them while an operation ran, delivered in order.
\<close>

abbreviation (input) SIGNAL_STATUS_CHANGED :: nat where "SIGNAL_STATUS_CHANGED \<equiv> 0"
abbreviation (input) SIGNAL_HOTPLUG :: nat where "SIGNAL_HOTPLUG \<equiv> 1"

fun deliver_status :: "(nat \<times> int \<times> int) list \<Rightarrow> 'p daemon \<Rightarrow> 'p daemon res" where
  "deliver_status [] d = Inr d"
| "deliver_status ((f, drvid, type) # cs) d =
     bindR (if f = SIGNAL_STATUS_CHANGED then gdbus_signal_status_changed drvid type d else Inr d) (deliver_status cs)"

fun deliver_hotplug :: "(nat \<times> int \<times> int \<times> int) list \<Rightarrow> 'p daemon \<Rightarrow> 'p daemon" where
  "deliver_hotplug [] d = d"
| "deliver_hotplug ((f, drvid, action, n) # cs) d =
     deliver_hotplug cs (if f = SIGNAL_HOTPLUG then gdbus_usb_device_hot_plug_callback drvid action n d else d)"

definition bus_acquired_cb :: "'p daemon \<Rightarrow> 'p daemon" where
  "bus_acquired_cb d = d\<lparr>d_fw := (d_fw d)\<lparr>
     fw_world := (fw_world (d_fw d))\<lparr>bio_status_changed_callback := Some SIGNAL_STATUS_CHANGED\<rparr>,
     bio_usb_device_hot_plug_callback := Some SIGNAL_HOTPLUG\<rparr>\<rparr>"

text \<open>Run something of the framework; the calls recorded before are not delivered again.\<close>

definition on_framework :: "('p framework \<Rightarrow> ('a \<times> 'p framework) res) \<Rightarrow> 'p daemon \<Rightarrow> ('a \<times> 'p daemon) res" where
  "on_framework f d =
     (let fw = d_fw d
      in bindR (f (fw\<lparr>fw_world := (fw_world fw)\<lparr>w_calls := []\<rparr>, hotplug_calls := []\<rparr>)) (\<lambda>(x, fw).
         bindR (deliver_status (w_calls (fw_world fw)) (d\<lparr>d_fw := fw\<rparr>)) (\<lambda>d.
         Inr (x, deliver_hotplug (hotplug_calls fw) d))))"

definition operate :: "nat \<Rightarrow> ('p driver_ops \<Rightarrow> ('p, 'a) call) \<Rightarrow> 'p daemon \<Rightarrow> ('a \<times> 'p daemon) res" where
  "operate i op d = on_framework (on_dev i (op (fw_ops (d_fw d) i))) d"

section \<open>Requests on one device\<close>

text \<open>
  The handlers in threads of their own (\<open>gdbus_*_pt\<close>) have a form: they may check the caller, find
  the device, lock it, run an operation of the framework, unlock, read the result of the operation
  from the device, and reply. A job has what differs: the operation answers with the replies
  as a function of the result read later.
\<close>

record 'p job =
  job_drvid :: int
  job_allowed :: bool
  job_denied :: "reply list"
  job_refused :: "RetCode \<Rightarrow> reply list"
  job_op :: "'p driver_ops \<Rightarrow> ('p, int \<Rightarrow> reply list res) call"

text \<open>
  What such a handler does, in three parts: up to its lock, with either the replies it ends with or the device
  it has locked; the operation and the unlocking; reading the result of the operation and replying.
\<close>

definition enter :: "'p job \<Rightarrow> 'p daemon \<Rightarrow> ((reply list + nat) \<times> 'p daemon) res" where
  "enter j d =
     (if \<not> job_allowed j then Inr (Inl (job_denied j), d)
      else case get_dev_by_drvid (job_drvid j) (d_fw d) of
             None \<Rightarrow> Inr (Inl (job_refused j RetNoSuchDevice), d)
           | Some i \<Rightarrow>
               bindR (pthread_mutex_trylock (job_drvid j) d) (\<lambda>(taken, d).
               Inr (if taken then Inr i else Inl (job_refused j RetDeviceBusy), d)))"

definition run_locked :: "'p job \<Rightarrow> nat \<Rightarrow> 'p daemon \<Rightarrow> ((int \<Rightarrow> reply list res) \<times> 'p daemon) res" where
  "run_locked j i d =
     bindR (operate i (job_op j) d) (\<lambda>(answer, d).
     bindR (pthread_mutex_unlock (job_drvid j) d) (\<lambda>d. Inr (answer, d)))"

definition reply_result :: "nat \<Rightarrow> (int \<Rightarrow> reply list res) \<Rightarrow> 'p daemon \<Rightarrow> (reply list \<times> 'p daemon) res" where
  "reply_result i answer d = bindR (answer (ops_result (fw_dev (d_fw d) i))) (\<lambda>rs. Inr (rs, d))"

text \<open>The handler of a thread that runs alone.\<close>

definition serve :: "'p job \<Rightarrow> 'p daemon \<Rightarrow> (reply list \<times> 'p daemon) res" where
  "serve j d =
     bindR (enter j d) (\<lambda>(entered, d).
     case entered of
       Inl rs \<Rightarrow> Inr (rs, d)
     | Inr i \<Rightarrow> bindR (run_locked j i d) (\<lambda>(answer, d). reply_result i answer d))"

definition bio_new_string :: "string option \<Rightarrow> string" where
  "bio_new_string s = (case s of None \<Rightarrow> '''' | Some s \<Rightarrow> s)"

definition gdbus_get_feature_list_pt :: "host \<Rightarrow> int \<Rightarrow> int \<Rightarrow> int \<Rightarrow> int \<Rightarrow> 'p job" where
  "gdbus_get_feature_list_pt h drvid uid idx_start idx_end =
     \<lparr>job_drvid = drvid, job_allowed = True, job_denied = [],
      job_refused = (\<lambda>_. [Complete_get_feature_list 0 []]),
      job_op = (\<lambda>ops w. bindR (bio_ops_get_feature_list h ops uid idx_start idx_end w) (\<lambda>(flist, w).
        Inr ((\<lambda>result. Inr
          [if result \<noteq> OPS_GET_FLIST_SUCCESS
           then Complete_get_feature_list (- ret_code RetOpsError) []
           else Complete_get_feature_list (int (length flist))
             (map (\<lambda>l. (fi_uid l, fi_biotype l, bio_new_string (fi_driver l), fi_index l,
                        bio_new_string (fi_index_name l))) flist)]), w)))\<rparr>"

definition success_or_error :: "int \<Rightarrow> int" where
  "success_or_error result =
     (if result smod 100 = OPS_COMM_SUCCESS then - ret_code RetOpsSuccess else - ret_code RetOpsError)"

definition gdbus_enroll_pt :: "host \<Rightarrow> caller \<Rightarrow> int \<Rightarrow> int \<Rightarrow> int \<Rightarrow> string \<Rightarrow> 'p job" where
  "gdbus_enroll_pt h c drvid uid idx idx_name =
     \<lparr>job_drvid = drvid,
      job_allowed = authorized c uid POLKIT_ENROLL_OWN_ACTION_ID POLKIT_ENROLL_ADMIN_ACTION_ID,
      job_denied = [Complete_enroll (- ret_code RetPermissionDenied)],
      job_refused = (\<lambda>r. [Complete_enroll (- ret_code r)]),
      job_op = (\<lambda>ops w.
        bindR (if idx = -1 then bio_common_get_empty_index h uid 0 (-1) w else Inr (idx, w)) (\<lambda>(idx, w).
        bindR (bio_ops_enroll ops uid idx (Some idx_name) w) (\<lambda>(_, w).
        Inr ((\<lambda>result. Inr [Complete_enroll (success_or_error result)]), w))))\<rparr>"

definition gdbus_verify_pt :: "int \<Rightarrow> int \<Rightarrow> int \<Rightarrow> 'p job" where
  "gdbus_verify_pt drvid uid idx =
     \<lparr>job_drvid = drvid, job_allowed = True, job_denied = [],
      job_refused = (\<lambda>r. [Complete_verify (- ret_code r)]),
      job_op = (\<lambda>ops w. bindR (bio_ops_verify ops uid idx w) (\<lambda>(_, w).
        Inr ((\<lambda>result. Inr [Complete_verify
          (if result = OPS_VERIFY_MATCH then - ret_code RetOpsSuccess
           else if result = OPS_VERIFY_NO_MATCH then - ret_code RetOpsNoMatch
           else - ret_code RetOpsError)]), w)))\<rparr>"

definition gdbus_identify_pt :: "int \<Rightarrow> int \<Rightarrow> int \<Rightarrow> int \<Rightarrow> 'p job" where
  "gdbus_identify_pt drvid uid idx_start idx_end =
     \<lparr>job_drvid = drvid, job_allowed = True, job_denied = [],
      job_refused = (\<lambda>r. [Complete_identify (- ret_code r) (-1)]),
      job_op = (\<lambda>ops w. bindR (bio_ops_identify ops uid idx_start idx_end w) (\<lambda>(uid_ret, w).
        Inr ((\<lambda>result. Inr [Complete_identify
          (if result = OPS_IDENTIFY_MATCH then - ret_code RetOpsSuccess
           else if result = OPS_IDENTIFY_NO_MATCH then - ret_code RetOpsNoMatch
           else - ret_code RetOpsError) uid_ret]), w)))\<rparr>"

text \<open>After an error the captured string is released, and then sent.\<close>

definition gdbus_capture_pt :: "int \<Rightarrow> 'p job" where
  "gdbus_capture_pt drvid =
     \<lparr>job_drvid = drvid, job_allowed = True, job_denied = [],
      job_refused = (\<lambda>r. [Complete_capture (- ret_code r) (Some (bio_new_string None))]),
      job_op = (\<lambda>ops w. bindR (bio_ops_capture ops w) (\<lambda>(caps, w).
        Inr ((\<lambda>result.
          if result smod 100 = OPS_COMM_SUCCESS
          then Inr [Complete_capture (- ret_code RetOpsSuccess) caps]
          else if caps \<noteq> None then Inl Bad_memory
          else Inr [Complete_capture (- ret_code RetOpsError) None]), w)))\<rparr>"

text \<open>Without a match there is a reply, and then another one.\<close>

definition gdbus_search_pt :: "int \<Rightarrow> int \<Rightarrow> int \<Rightarrow> int \<Rightarrow> 'p job" where
  "gdbus_search_pt drvid uid idx_start idx_end =
     \<lparr>job_drvid = drvid, job_allowed = True, job_denied = [],
      job_refused = (\<lambda>r. [Complete_search (- ret_code r) []]),
      job_op = (\<lambda>ops w. bindR (bio_ops_search ops uid idx_start idx_end w) (\<lambda>(flist, w).
        Inr ((\<lambda>result. Inr
          ((if result = OPS_SEARCH_MATCH then []
            else [Complete_search (if result = OPS_SEARCH_NO_MATCH then - ret_code RetOpsSuccess
                                   else - ret_code RetOpsError) []])
           @ [Complete_search (int (length flist))
                (map (\<lambda>l. (fi_uid l, fi_index l, bio_new_string (fi_index_name l))) flist)])), w)))\<rparr>"

definition gdbus_feature_rename_pt :: "host \<Rightarrow> caller \<Rightarrow> int \<Rightarrow> int \<Rightarrow> int \<Rightarrow> string \<Rightarrow> 'p job" where
  "gdbus_feature_rename_pt h c drvid uid idx new_name =
     \<lparr>job_drvid = drvid,
      job_allowed = authorized c uid POLKIT_RENAME_OWN_ACTION_ID POLKIT_RENAME_ADMIN_ACTION_ID,
      job_denied = [Complete_enroll (- ret_code RetPermissionDenied)],
      job_refused = (\<lambda>r. [Complete_stop_ops (- ret_code r)]),
      job_op = (\<lambda>ops w. bindR (bio_ops_feature_rename h ops uid idx (Some new_name) w) (\<lambda>(_, w).
        Inr ((\<lambda>result. Inr [Complete_rename
          (if result = OPS_RENAME_SUCCESS then - ret_code RetOpsSuccess else - ret_code RetOpsError)]), w)))\<rparr>"

section \<open>Cleaning\<close>

text \<open>The device is a structure of the list of drivers, or null.\<close>

definition gdbus_clean_by_single_dev ::
    "nat option \<Rightarrow> int \<Rightarrow> int \<Rightarrow> int \<Rightarrow> 'p daemon \<Rightarrow> (int \<times> 'p daemon) res" where
  "gdbus_clean_by_single_dev dev uid idx_start idx_end d =
     (case dev of
        None \<Rightarrow> Inr (- ret_code RetNoSuchDevice, d)
      | Some i \<Rightarrow>
          let drvid = driver_id (fw_dev (d_fw d) i)
          in if get_dev_by_drvid drvid (d_fw d) = None then Inr (- ret_code RetNoSuchDevice, d)
             else bindR (pthread_mutex_trylock drvid d) (\<lambda>(taken, d).
                  if \<not> taken then Inr (- ret_code RetDeviceBusy, d)
                  else bindR (operate i (\<lambda>ops. bio_ops_clean ops uid idx_start idx_end) d) (\<lambda>(_, d).
                       bindR (pthread_mutex_unlock (driver_id (fw_dev (d_fw d) i)) d) (\<lambda>d.
                       Inr (success_or_error (ops_result (fw_dev (d_fw d) i)), d)))))"

text \<open>One round of the loop over the drivers, and the loop.\<close>

definition clean_next :: "nat \<Rightarrow> int \<Rightarrow> int \<Rightarrow> int \<Rightarrow> int \<Rightarrow> 'p daemon \<Rightarrow> (int \<times> 'p daemon) res" where
  "clean_next i uid idx_start idx_end ret d =
     bindR (gdbus_clean_by_single_dev (Some i) uid idx_start idx_end d) (\<lambda>(single_ret, d).
     Inr (if ret = 0 then single_ret else ret, d))"

fun clean_drivers :: "nat list \<Rightarrow> int \<Rightarrow> int \<Rightarrow> int \<Rightarrow> int \<Rightarrow> 'p daemon \<Rightarrow> (int \<times> 'p daemon) res" where
  "clean_drivers [] uid idx_start idx_end ret d = Inr (ret, d)"
| "clean_drivers (i # is) uid idx_start idx_end ret d =
     bindR (clean_next i uid idx_start idx_end ret d) (\<lambda>(ret, d). clean_drivers is uid idx_start idx_end ret d)"

definition clean_system :: "int \<Rightarrow> int \<Rightarrow> int \<Rightarrow> 'p daemon \<Rightarrow> (int \<times> 'p daemon) res" where
  "clean_system uid idx_start idx_end d =
     bindR (bio_sto_connect_db (w_store (fw_world (d_fw d)))) (\<lambda>(db, s).
     let (ret, s) = bio_sto_clean_feature_info db uid (-1) None idx_start idx_end s
     in Inr (ret, d\<lparr>d_fw := (d_fw d)\<lparr>fw_world := set_store (bio_sto_disconnect_db s) (fw_world (d_fw d))\<rparr>\<rparr>))"

text \<open>
  The handler up to the loop over the drivers, with either its replies or the drivers to go through; what
  comes after the loop; and the whole.
\<close>

definition clean_start ::
    "caller \<Rightarrow> int \<Rightarrow> int \<Rightarrow> int \<Rightarrow> int \<Rightarrow> 'p daemon \<Rightarrow> ((reply list + nat list) \<times> 'p daemon) res" where
  "clean_start c drvid uid idx_start idx_end d =
     (if \<not> authorized c uid POLKIT_CLEAN_OWN_ACTION_ID POLKIT_CLEAN_ADMIN_ACTION_ID
      then Inr (Inl [Complete_enroll (- ret_code RetPermissionDenied)], d)
      else if drvid \<noteq> -1
      then bindR (gdbus_clean_by_single_dev (get_dev_by_drvid drvid (d_fw d)) uid idx_start idx_end d) (\<lambda>(ret, d).
           Inr (Inl [Complete_clean ret], d))
      else Inr (Inr [0..<length (bio_drv_list (d_fw d))], d))"

definition clean_finish :: "int \<Rightarrow> int \<Rightarrow> int \<Rightarrow> int \<Rightarrow> 'p daemon \<Rightarrow> (reply list \<times> 'p daemon) res" where
  "clean_finish uid idx_start idx_end ret d =
     (let ret = (if ret \<noteq> 0 then - ret_code RetOpsError else ret)
      in bindR (clean_system uid idx_start idx_end d) (\<lambda>(single_ret, d).
         Inr ([Complete_clean (if single_ret = 0 then ret else - ret_code RetOpsError)], d)))"

definition gdbus_clean_pt ::
    "caller \<Rightarrow> int \<Rightarrow> int \<Rightarrow> int \<Rightarrow> int \<Rightarrow> 'p daemon \<Rightarrow> (reply list \<times> 'p daemon) res" where
  "gdbus_clean_pt c drvid uid idx_start idx_end d =
     bindR (clean_start c drvid uid idx_start idx_end d) (\<lambda>(started, d).
     case started of
       Inl rs \<Rightarrow> Inr (rs, d)
     | Inr is \<Rightarrow> bindR (clean_drivers is uid idx_start idx_end 0 d) (\<lambda>(ret, d).
                clean_finish uid idx_start idx_end ret d))"

section \<open>Requests without a lock\<close>

text \<open>The arrays of times are indexed with the number of the request, device or not.\<close>

definition gdbus_update_status_pt :: "int \<Rightarrow> 'p daemon \<Rightarrow> (reply list \<times> 'p daemon) res" where
  "gdbus_update_status_pt drvid d =
     (let (ret, enable, dev_num, status, result, mid) =
        (case get_dev_by_drvid drvid (d_fw d) of
           Some i \<Rightarrow> (let dev = fw_dev (d_fw d) i in
             (- ret_code RetOpsSuccess, bio_dev.enable dev, bio_dev.dev_num dev, dev_status dev, ops_result dev, notify_mid dev))
         | None \<Rightarrow> (- ret_code RetNoSuchDevice, -1, 0, -1, -1, -1))
      in bindR (at (timestamp_dev_status d) drvid) (\<lambda>t1.
         bindR (at (timestamp_ops_result d) drvid) (\<lambda>t2.
         bindR (at (timestamp_notify_mid d) drvid) (\<lambda>t3.
         Inr ([Complete_update_status ret enable dev_num status result mid t1 t2 t3], d)))))"

definition gdbus_stop_ops_pt :: "int \<Rightarrow> int \<Rightarrow> 'p daemon \<Rightarrow> (reply list \<times> 'p daemon) res" where
  "gdbus_stop_ops_pt drvid waiting_sec d =
     (case get_dev_by_drvid drvid (d_fw d) of
        None \<Rightarrow> Inr ([Complete_stop_ops (- ret_code RetNoSuchDevice)], d)
      | Some i \<Rightarrow>
          bindR (operate i (\<lambda>ops. bio_ops_stop_ops ops waiting_sec) d) (\<lambda>(ret, d).
          Inr ([Complete_stop_ops (if ret \<noteq> 0 then - ret_code RetOpsError else ret)], d)))"

text \<open>The requests the main thread answers itself.\<close>

definition gdbus_check_app_api_version :: "int \<Rightarrow> int \<Rightarrow> int \<Rightarrow> reply list" where
  "gdbus_check_app_api_version major minor function' =
     [Complete_check_app_api_version (bio_check_app_api_version major minor function')]"

definition dev_item_of :: "bio_dev \<Rightarrow> dev_item" where
  "dev_item_of dev = \<lparr>di_driver_id = driver_id dev, di_device_name = device_name dev, di_full_name = full_name dev,
     di_enable = enable dev, di_dev_num = dev_num dev, di_bioinfo = bioinfo dev,
     di_status = (dev_status dev, ops_result dev, notify_mid dev)\<rparr>"

definition gdbus_get_drv_list :: "'p daemon \<Rightarrow> reply list" where
  "gdbus_get_drv_list d =
     [Complete_get_drv_list (int (length (bio_drv_list (d_fw d)))) (map (dev_item_of \<circ> fst) (bio_drv_list (d_fw d)))]"

definition gdbus_get_dev_list :: "'p daemon \<Rightarrow> reply list" where
  "gdbus_get_dev_list d =
     [Complete_get_dev_list (int (length (bio_dev_list (d_fw d)))) (map (dev_item_of \<circ> fw_dev (d_fw d)) (bio_dev_list (d_fw d)))]"

definition mesg_nodev :: string where
  "mesg_nodev = ''No such device''"

definition world_of :: "nat \<Rightarrow> 'p daemon \<Rightarrow> 'p bio_world" where
  "world_of i d = (fw_world (d_fw d))\<lparr>w_dev := fw_dev (d_fw d) i\<rparr>"

definition gdbus_get_dev_mesg :: "int \<Rightarrow> 'p daemon \<Rightarrow> reply list res" where
  "gdbus_get_dev_mesg drvid d =
     (case get_dev_by_drvid drvid (d_fw d) of
        None \<Rightarrow> Inr [Complete_get_dev_mesg mesg_nodev (gettimeofday d)]
      | Some i \<Rightarrow>
          bindR (bio_get_dev_status_mesg (ops_get_dev_status_mesg (fw_ops (d_fw d) i)) (world_of i d)) (\<lambda>m.
          bindR (at (timestamp_dev_status d) drvid) (\<lambda>t. Inr [Complete_get_dev_mesg m t])))"

definition gdbus_get_ops_mesg :: "int \<Rightarrow> 'p daemon \<Rightarrow> reply list res" where
  "gdbus_get_ops_mesg drvid d =
     (case get_dev_by_drvid drvid (d_fw d) of
        None \<Rightarrow> Inr [Complete_get_ops_mesg mesg_nodev (gettimeofday d)]
      | Some i \<Rightarrow>
          bindR (bio_get_ops_result_mesg (ops_get_ops_result_mesg (fw_ops (d_fw d) i)) (world_of i d)) (\<lambda>m.
          bindR (at (timestamp_ops_result d) drvid) (\<lambda>t. Inr [Complete_get_ops_mesg m t])))"

definition gdbus_get_notify_mesg :: "int \<Rightarrow> 'p daemon \<Rightarrow> reply list res" where
  "gdbus_get_notify_mesg drvid d =
     (case get_dev_by_drvid drvid (d_fw d) of
        None \<Rightarrow> Inr [Complete_get_notify_mesg mesg_nodev (gettimeofday d)]
      | Some i \<Rightarrow>
          bindR (bio_get_notify_mid_mesg (ops_get_notify_mid_mesg (fw_ops (d_fw d) i)) (world_of i d)) (\<lambda>m.
          bindR (at (timestamp_notify_mid d) drvid) (\<lambda>t. Inr [Complete_get_notify_mesg m t])))"

section \<open>Threads\<close>

text \<open>
  Where a thread is. One that works on a device under its lock: before the lock, with the lock, between the
  unlocking and the reading of the result. One that cleans: before it starts, and in the loop over the
  drivers with those that are left and the answer so far. One that asks for the status or stops an operation, which
  takes no lock. And one that has replied.
\<close>

datatype 'p thread =
    Waiting "'p job"
  | Holding "'p job" nat
  | Unlocked "'p job" nat "int \<Rightarrow> reply list res"
  | Clean_request caller int int int int
  | Cleaning int int int "nat list" int
  | Status_request int
  | Stop_request int int
  | Answered "reply list"

text \<open>
  The handlers of the main thread copy the arguments and create a thread; an error of
  \<open>pthread_create\<close> is printed, and the request stays without a reply.
\<close>

definition pthread_create :: "int \<Rightarrow> 'p thread \<Rightarrow> 'p thread list \<Rightarrow> 'p thread list" where
  "pthread_create err t ts = (if err \<noteq> 0 then ts else ts @ [t])"

definition gdbus_get_feature_list ::
    "int \<Rightarrow> host \<Rightarrow> int \<Rightarrow> int \<Rightarrow> int \<Rightarrow> int \<Rightarrow> 'p thread list \<Rightarrow> 'p thread list" where
  "gdbus_get_feature_list err h drvid uid idx_start idx_end =
     pthread_create err (Waiting (gdbus_get_feature_list_pt h drvid uid idx_start idx_end))"

definition gdbus_update_status :: "int \<Rightarrow> int \<Rightarrow> 'p thread list \<Rightarrow> 'p thread list" where
  "gdbus_update_status err drvid = pthread_create err (Status_request drvid)"

definition gdbus_enroll ::
    "int \<Rightarrow> host \<Rightarrow> caller \<Rightarrow> int \<Rightarrow> int \<Rightarrow> int \<Rightarrow> string \<Rightarrow> 'p thread list \<Rightarrow> 'p thread list" where
  "gdbus_enroll err h c drvid uid idx idx_name =
     pthread_create err (Waiting (gdbus_enroll_pt h c drvid uid idx (bio_new_string (Some idx_name))))"

definition gdbus_verify :: "int \<Rightarrow> int \<Rightarrow> int \<Rightarrow> int \<Rightarrow> 'p thread list \<Rightarrow> 'p thread list" where
  "gdbus_verify err drvid uid idx = pthread_create err (Waiting (gdbus_verify_pt drvid uid idx))"

definition gdbus_identify :: "int \<Rightarrow> int \<Rightarrow> int \<Rightarrow> int \<Rightarrow> int \<Rightarrow> 'p thread list \<Rightarrow> 'p thread list" where
  "gdbus_identify err drvid uid idx_start idx_end =
     pthread_create err (Waiting (gdbus_identify_pt drvid uid idx_start idx_end))"

definition gdbus_capture :: "int \<Rightarrow> int \<Rightarrow> 'p thread list \<Rightarrow> 'p thread list" where
  "gdbus_capture err drvid = pthread_create err (Waiting (gdbus_capture_pt drvid))"

definition gdbus_search :: "int \<Rightarrow> int \<Rightarrow> int \<Rightarrow> int \<Rightarrow> int \<Rightarrow> 'p thread list \<Rightarrow> 'p thread list" where
  "gdbus_search err drvid uid idx_start idx_end =
     pthread_create err (Waiting (gdbus_search_pt drvid uid idx_start idx_end))"

definition gdbus_clean :: "int \<Rightarrow> caller \<Rightarrow> int \<Rightarrow> int \<Rightarrow> int \<Rightarrow> int \<Rightarrow> 'p thread list \<Rightarrow> 'p thread list" where
  "gdbus_clean err c drvid uid idx_start idx_end =
     pthread_create err (Clean_request c drvid uid idx_start idx_end)"

definition gdbus_feature_rename ::
    "int \<Rightarrow> host \<Rightarrow> caller \<Rightarrow> int \<Rightarrow> int \<Rightarrow> int \<Rightarrow> string \<Rightarrow> 'p thread list \<Rightarrow> 'p thread list" where
  "gdbus_feature_rename err h c drvid uid idx new_name =
     pthread_create err (Waiting (gdbus_feature_rename_pt h c drvid uid idx (bio_new_string (Some new_name))))"

definition gdbus_stop_ops :: "int \<Rightarrow> int \<Rightarrow> int \<Rightarrow> 'p thread list \<Rightarrow> 'p thread list" where
  "gdbus_stop_ops err drvid waiting_sec = pthread_create err (Stop_request drvid waiting_sec)"

text \<open>
  The requests of the interface, by the handlers connected to them (\<open>bus_acquired_cb\<close>); the
  main thread answers some itself, and starts a thread for the others.
\<close>

datatype request =
    Check_app_api_version int int int
  | Get_drv_list
  | Get_dev_list
  | Get_feature_list int int int int
  | Update_status int
  | Get_dev_mesg int
  | Get_ops_mesg int
  | Get_notify_mesg int
  | Enroll int int int string
  | Verify int int int
  | Identify int int int int
  | Capture int
  | Search int int int int
  | Clean int int int int
  | Rename int int int string
  | Stop_ops int int

fun dispatch ::
    "int \<Rightarrow> host \<Rightarrow> caller \<Rightarrow> request \<Rightarrow> 'p daemon \<Rightarrow> 'p thread list \<Rightarrow> (reply list \<times> 'p thread list) res" where
  "dispatch err h c (Check_app_api_version major minor function') d ts = Inr (gdbus_check_app_api_version major minor function', ts)"
| "dispatch err h c Get_drv_list d ts = Inr (gdbus_get_drv_list d, ts)"
| "dispatch err h c Get_dev_list d ts = Inr (gdbus_get_dev_list d, ts)"
| "dispatch err h c (Get_feature_list drvid uid i j) d ts = Inr ([], gdbus_get_feature_list err h drvid uid i j ts)"
| "dispatch err h c (Update_status drvid) d ts = Inr ([], gdbus_update_status err drvid ts)"
| "dispatch err h c (Get_dev_mesg drvid) d ts = bindR (gdbus_get_dev_mesg drvid d) (\<lambda>rs. Inr (rs, ts))"
| "dispatch err h c (Get_ops_mesg drvid) d ts = bindR (gdbus_get_ops_mesg drvid d) (\<lambda>rs. Inr (rs, ts))"
| "dispatch err h c (Get_notify_mesg drvid) d ts = bindR (gdbus_get_notify_mesg drvid d) (\<lambda>rs. Inr (rs, ts))"
| "dispatch err h c (Enroll drvid uid idx name) d ts = Inr ([], gdbus_enroll err h c drvid uid idx name ts)"
| "dispatch err h c (Verify drvid uid idx) d ts = Inr ([], gdbus_verify err drvid uid idx ts)"
| "dispatch err h c (Identify drvid uid i j) d ts = Inr ([], gdbus_identify err drvid uid i j ts)"
| "dispatch err h c (Capture drvid) d ts = Inr ([], gdbus_capture err drvid ts)"
| "dispatch err h c (Search drvid uid i j) d ts = Inr ([], gdbus_search err drvid uid i j ts)"
| "dispatch err h c (Clean drvid uid i j) d ts = Inr ([], gdbus_clean err c drvid uid i j ts)"
| "dispatch err h c (Rename drvid uid idx name) d ts = Inr ([], gdbus_feature_rename err h c drvid uid idx name ts)"
| "dispatch err h c (Stop_ops drvid sec) d ts = Inr ([], gdbus_stop_ops err drvid sec ts)"

section \<open>Starting and ending\<close>

definition InitBioDevice ::
    "host \<Rightarrow> key_file option \<Rightarrow> int \<Rightarrow> (string \<Rightarrow> 'p plugin option) \<Rightarrow> 'p framework \<Rightarrow> (int \<times> 'p framework) res" where
  "InitBioDevice h conf usb dlopen fw =
     bindR (bio_init h conf usb (w_store (fw_world fw))) (\<lambda>(ret, s).
     let fw = fw\<lparr>fw_world := set_store s (fw_world fw)\<rparr>
     in if ret \<noteq> 0 then Inr (-1, fw)
        else bindR (bio_driver_list_init conf dlopen fw) (\<lambda>(_, fw).
             bindR (bio_device_list_init fw) (\<lambda>(_, fw). Inr (0, fw))))"

fun close_all :: "nat list \<Rightarrow> 'p framework \<Rightarrow> 'p framework res" where
  "close_all [] fw = Inr fw"
| "close_all (i # is) fw = bindR (hook_on i ops_close fw) (\<lambda>(_, fw). close_all is fw)"

definition UnInitBioDevice :: "'p framework \<Rightarrow> 'p framework res" where
  "UnInitBioDevice fw =
     bindR (close_all (bio_dev_list fw) fw) (\<lambda>fw. bio_free_driver (bio_free_device fw))"

definition ReInitBioDevice ::
    "host \<Rightarrow> key_file option \<Rightarrow> int \<Rightarrow> (string \<Rightarrow> 'p plugin option) \<Rightarrow> 'p framework \<Rightarrow> 'p framework res" where
  "ReInitBioDevice h conf usb dlopen fw =
     bindR (UnInitBioDevice fw) (\<lambda>fw. bindR (InitBioDevice h conf usb dlopen fw) (\<lambda>(_, fw). Inr fw))"

text \<open>
  What the process asks the system when it starts: its user, which paths are directories, whether
  the PID file can be opened and locked.
\<close>

record process_env =
  getuid :: int
  is_directory :: "string \<Rightarrow> bool"
  can_open :: "string \<Rightarrow> bool"
  can_flock :: "string \<Rightarrow> bool"

definition AUTH_SERVER_NAME :: string where
  "AUTH_SERVER_NAME = ''biometric-authentication''"

definition pid_file :: "process_env \<Rightarrow> string" where
  "pid_file env =
     (case List.find (is_directory env) [''/run/user/0/'', ''/tmp/''] of None \<Rightarrow> ''/'' | Some p \<Rightarrow> p)
       @ ''/'' @ AUTH_SERVER_NAME @ ''.pid''"

definition new_daemon :: "timeval \<Rightarrow> 'p framework \<Rightarrow> 'p daemon" where
  "new_daemon now fw =
     \<lparr>d_fw = fw, dev_dbus_mutex = replicate MAX_DEVICES False,
      timestamp_dev_status = replicate MAX_DEVICES now, timestamp_ops_result = replicate MAX_DEVICES now,
      timestamp_notify_mid = replicate MAX_DEVICES now, gettimeofday = now,
      status_signals = [], hotplug_signals = []\<rparr>"

text \<open>\<open>main\<close> up to its loop: the code it exits with, or the service with which it goes on.\<close>

definition daemon_main ::
    "process_env \<Rightarrow> host \<Rightarrow> key_file option \<Rightarrow> int \<Rightarrow> (string \<Rightarrow> 'p plugin option) \<Rightarrow> timeval \<Rightarrow>
     'p framework \<Rightarrow> (int + 'p daemon) res" where
  "daemon_main env h conf usb dlopen now fw =
     (if getuid env \<noteq> 0 then Inr (Inl (-1))
      else if \<not> can_open env (pid_file env) then Inr (Inl (-1))
      else if \<not> can_flock env (pid_file env) then Inr (Inl (-1))
      else bindR (InitBioDevice h conf usb dlopen fw) (\<lambda>(ret, fw).
           if ret \<noteq> 0 then Inr (Inl (-1))
           else Inr (Inr (bus_acquired_cb (new_daemon now fw)))))"

end
