(* ===== verification/Daemon_Steps.thy ===== *)
theory Daemon_Steps
  imports Bio_Daemon
begin

text \<open>
  The service as a state machine: threads that handle requests side by side, devices that come and
  go, and what holds in every reachable state.
\<close>

section \<open>Steps\<close>

text \<open>
  One step of a thread, by the parts of the handlers. Cleaning a device, with its lock, is one step, and so is
  every round of the loop over the drivers.
\<close>

fun advance :: "'p thread \<Rightarrow> 'p daemon \<Rightarrow> ('p thread \<times> 'p daemon) res" where
  "advance (Waiting j) d =
     bindR (enter j d) (\<lambda>(entered, d). Inr (case entered of Inl rs \<Rightarrow> Answered rs | Inr i \<Rightarrow> Holding j i, d))"
| "advance (Holding j i) d = bindR (run_locked j i d) (\<lambda>(answer, d). Inr (Unlocked j i answer, d))"
| "advance (Unlocked j i answer) d = bindR (reply_result i answer d) (\<lambda>(rs, d). Inr (Answered rs, d))"
| "advance (Clean_request c drvid uid a b) d =
     bindR (clean_start c drvid uid a b d) (\<lambda>(started, d).
     Inr (case started of Inl rs \<Rightarrow> Answered rs | Inr is \<Rightarrow> Cleaning uid a b is 0, d))"
| "advance (Cleaning uid a b (i # is) ret) d =
     bindR (clean_next i uid a b ret d) (\<lambda>(ret, d). Inr (Cleaning uid a b is ret, d))"
| "advance (Cleaning uid a b [] ret) d =
     bindR (clean_finish uid a b ret d) (\<lambda>(rs, d). Inr (Answered rs, d))"
| "advance (Status_request drvid) d = bindR (gdbus_update_status_pt drvid d) (\<lambda>(rs, d). Inr (Answered rs, d))"
| "advance (Stop_request drvid sec) d = bindR (gdbus_stop_ops_pt drvid sec d) (\<lambda>(rs, d). Inr (Answered rs, d))"
| "advance (Answered rs) d = Inr (Answered rs, d)"

text \<open>The steps of a locked operation, and the handler, written out.\<close>

lemma advance_job:
  "advance (Waiting j) d =
     (if \<not> job_allowed j then Inr (Answered (job_denied j), d)
      else case get_dev_by_drvid (job_drvid j) (d_fw d) of
             None \<Rightarrow> Inr (Answered (job_refused j RetNoSuchDevice), d)
           | Some i \<Rightarrow>
               bindR (pthread_mutex_trylock (job_drvid j) d) (\<lambda>(taken, d).
               Inr (if taken then Holding j i else Answered (job_refused j RetDeviceBusy), d)))"
  "advance (Holding j i) d =
     bindR (operate i (job_op j) d) (\<lambda>(answer, d).
     bindR (pthread_mutex_unlock (job_drvid j) d) (\<lambda>d. Inr (Unlocked j i answer, d)))"
  "advance (Unlocked j i answer) d =
     bindR (answer (ops_result (fw_dev (d_fw d) i))) (\<lambda>rs. Inr (Answered rs, d))"
  by (auto simp: enter_def run_locked_def reply_result_def bindR_assoc case_prod_beta split: option.split
      intro!: bindR_cong)

lemma serve_eq:
  "serve j d =
     (if \<not> job_allowed j then Inr (job_denied j, d)
      else case get_dev_by_drvid (job_drvid j) (d_fw d) of
             None \<Rightarrow> Inr (job_refused j RetNoSuchDevice, d)
           | Some i \<Rightarrow>
               bindR (pthread_mutex_trylock (job_drvid j) d) (\<lambda>(taken, d).
               if \<not> taken then Inr (job_refused j RetDeviceBusy, d)
               else bindR (operate i (job_op j) d) (\<lambda>(answer, d).
                    bindR (pthread_mutex_unlock (job_drvid j) d) (\<lambda>d.
                    bindR (answer (ops_result (fw_dev (d_fw d) i))) (\<lambda>rs. Inr (rs, d))))))"
  by (auto simp: serve_def enter_def run_locked_def reply_result_def bindR_assoc case_prod_beta split: option.split
      intro!: bindR_cong)

declare advance.simps(1-3) [simp del] advance_job [simp]

lemmas advance_simps = advance_job advance.simps(4-9)

text \<open>The threads of requests.\<close>

fun request_thread :: "'p thread \<Rightarrow> bool" where
  "request_thread (Waiting j) \<longleftrightarrow> True"
| "request_thread (Clean_request c drvid uid a b) \<longleftrightarrow> True"
| "request_thread (Status_request drvid) \<longleftrightarrow> True"
| "request_thread (Stop_request drvid sec) \<longleftrightarrow> True"
| "request_thread _ \<longleftrightarrow> False"

text \<open>
  A request arrives; a thread goes on; a USB device comes or goes; the clock changes. A thread
  whose step faults or never ends takes no step.
\<close>

inductive daemon_step :: "'p daemon \<times> 'p thread list \<Rightarrow> 'p daemon \<times> 'p thread list \<Rightarrow> bool" where
  arrive: "request_thread t \<Longrightarrow> daemon_step (d, ts) (d, ts @ [t])"
| go_on: "n < length ts \<Longrightarrow> advance (ts ! n) d = Inr (t, d') \<Longrightarrow> daemon_step (d, ts) (d', ts[n := t])"
| plug: "on_framework (bio_usb_hotplug_callback_attach desc) d = Inr (r, d') \<Longrightarrow> daemon_step (d, ts) (d', ts)"
| unplug: "on_framework (bio_usb_hotplug_callback_detach desc) d = Inr (r, d') \<Longrightarrow> daemon_step (d, ts) (d', ts)"
| clock: "daemon_step (d, ts) (d\<lparr>gettimeofday := t\<rparr>, ts)"

inductive_cases daemon_stepE: "daemon_step (d, ts) (d', ts')"

inductive reachable :: "'p daemon \<Rightarrow> 'p daemon \<times> 'p thread list \<Rightarrow> bool" for d0 where
  start: "reachable d0 (d0, [])"
| after: "reachable d0 c \<Longrightarrow> daemon_step c c' \<Longrightarrow> reachable d0 c'"

text \<open>What the main thread does with a request is such an arrival, or changes nothing.\<close>

lemma dispatch_steps:
  assumes "dispatch err h c r d ts = Inr (rs, ts')"
  shows "ts' = ts \<or> daemon_step (d, ts) (d, ts')"
  using assms
  by (cases r) (auto simp: bindR_eq_Inr pthread_create_def gdbus_get_feature_list_def gdbus_update_status_def gdbus_enroll_def
      gdbus_verify_def gdbus_identify_def gdbus_capture_def gdbus_search_def gdbus_clean_def gdbus_feature_rename_def
      gdbus_stop_ops_def split: if_splits intro!: daemon_step.arrive)

section \<open>Locks\<close>

text \<open>The devices whose locks the threads hold, and what the locks are in every state.\<close>

fun holds :: "'p thread \<Rightarrow> int list" where
  "holds (Holding j i) = [job_drvid j]"
| "holds _ = []"

definition held :: "'p thread list \<Rightarrow> int list" where
  "held ts = concat (map holds ts)"

definition locks_match :: "'p daemon \<times> 'p thread list \<Rightarrow> bool" where
  "locks_match = (\<lambda>(d, ts). distinct (held ts) \<and> length (dev_dbus_mutex d) = MAX_DEVICES
     \<and> (\<forall>k\<in>set (held ts). 0 \<le> k)
     \<and> (\<forall>k < MAX_DEVICES. dev_dbus_mutex d ! k \<longleftrightarrow> int k \<in> set (held ts))
     \<and> (\<forall>k\<in>set (held ts). k < int MAX_DEVICES))"

lemma deliver_status_mutex: "deliver_status cs d = Inr d' \<Longrightarrow> dev_dbus_mutex d' = dev_dbus_mutex d"
proof (induction cs d rule: deliver_status.induct)
  case (2 f drvid type cs d)
  obtain d1 where "(if f = SIGNAL_STATUS_CHANGED then gdbus_signal_status_changed drvid type d else Inr d) = Inr d1"
    "deliver_status cs d1 = Inr d'"
    using 2(2) by (auto simp: bindR_eq_Inr)
  then show ?case
    using 2(1) [of d1] by (auto simp: gdbus_signal_status_changed_def bindR_eq_Inr split: if_splits)
qed simp

lemma deliver_hotplug_mutex: "dev_dbus_mutex (deliver_hotplug cs d) = dev_dbus_mutex d"
  by (induction cs d rule: deliver_hotplug.induct) (simp_all add: gdbus_usb_device_hot_plug_callback_def)

lemma on_framework_mutex: "on_framework f d = Inr (x, d') \<Longrightarrow> dev_dbus_mutex d' = dev_dbus_mutex d"
  using deliver_status_mutex
  by (fastforce simp: on_framework_def Let_def bindR_eq_Inr deliver_hotplug_mutex)

lemma operate_mutex: "operate i op d = Inr (x, d') \<Longrightarrow> dev_dbus_mutex d' = dev_dbus_mutex d"
  by (auto simp: operate_def on_framework_mutex)

lemma at_Inr: "at xs i = Inr x \<longleftrightarrow> 0 \<le> i \<and> i < int (length xs) \<and> x = xs ! nat i"
  by (auto simp: at_def rd_def)

text \<open>The lists of drivers and devices: hooks stay, and every device is in the list of drivers.\<close>

definition same_drivers :: "'p framework \<Rightarrow> 'p framework \<Rightarrow> bool" where
  "same_drivers fw fw' \<longleftrightarrow> length (bio_drv_list fw') = length (bio_drv_list fw) \<and> fw_ops fw' = fw_ops fw
     \<and> (list_all (\<lambda>i. i < length (bio_drv_list fw)) (bio_dev_list fw) \<longrightarrow>
        list_all (\<lambda>i. i < length (bio_drv_list fw')) (bio_dev_list fw'))"

lemma same_drivers_refl: "same_drivers fw fw"
  by (simp add: same_drivers_def)

lemma same_drivers_trans: "same_drivers fw fw' \<Longrightarrow> same_drivers fw' fw'' \<Longrightarrow> same_drivers fw fw''"
  by (auto simp: same_drivers_def)

lemma only_dev_same: "only_dev i fw fw' \<Longrightarrow> same_drivers fw fw'"
  by (auto simp: only_dev_def same_drivers_def)

lemma deliver_status_fw: "deliver_status cs d = Inr d' \<Longrightarrow> d_fw d' = d_fw d"
proof (induction cs d rule: deliver_status.induct)
  case (2 f drvid type cs d)
  obtain d1 where "(if f = SIGNAL_STATUS_CHANGED then gdbus_signal_status_changed drvid type d else Inr d) = Inr d1"
    "deliver_status cs d1 = Inr d'"
    using 2(2) by (auto simp: bindR_eq_Inr)
  then show ?case
    using 2(1) [of d1] by (auto simp: gdbus_signal_status_changed_def bindR_eq_Inr split: if_splits)
qed simp

lemma deliver_hotplug_fw: "d_fw (deliver_hotplug cs d) = d_fw d"
  by (induction cs d rule: deliver_hotplug.induct) (simp_all add: gdbus_usb_device_hot_plug_callback_def)

lemma on_framework_fw:
  assumes "on_framework f d = Inr (x, d')"
  obtains fw where "f ((d_fw d)\<lparr>fw_world := (fw_world (d_fw d))\<lparr>w_calls := []\<rparr>, hotplug_calls := []\<rparr>) = Inr (x, fw)"
    "d_fw d' = fw"
  using assms deliver_status_fw
  by (fastforce simp: on_framework_def Let_def bindR_eq_Inr deliver_hotplug_fw)

lemma cleared_same [simp]:
  "same_drivers (fw\<lparr>fw_world := w, hotplug_calls := hs\<rparr>) fw' = same_drivers fw fw'"
  "fw_dev (fw\<lparr>fw_world := w, hotplug_calls := hs\<rparr>) i = fw_dev fw i"
  "fw_ops (fw\<lparr>fw_world := w, hotplug_calls := hs\<rparr>) i = fw_ops fw i"
  by (simp_all add: same_drivers_def fw_ops_def fw_dev_def fun_eq_iff)

lemma updated_ops [simp]:
  "fw_ops (fw\<lparr>hotplug_calls := hs\<rparr>) = fw_ops fw" "fw_ops (fw\<lparr>bio_dev_list := is\<rparr>) = fw_ops fw"
  by (simp_all add: fw_ops_def fun_eq_iff)

lemma operate_same: "operate i op d = Inr (x, d') \<Longrightarrow> same_drivers (d_fw d) (d_fw d')"
  by (auto simp: operate_def elim!: on_framework_fw dest!: on_dev_only only_dev_same)

lemma operate_dev:
  assumes "operate i op d = Inr (x, d')" "i < length (bio_drv_list (d_fw d))"
  obtains w w' where "op (fw_ops (d_fw d) i) w = Inr (x, w')" "w_dev w = fw_dev (d_fw d) i"
    "fw_dev (d_fw d') i = w_dev w'"
proof -
  from assms(1) obtain fw where fw: "on_dev i (op (fw_ops (d_fw d) i))
      ((d_fw d)\<lparr>fw_world := (fw_world (d_fw d))\<lparr>w_calls := []\<rparr>, hotplug_calls := []\<rparr>) = Inr (x, fw)" "d_fw d' = fw"
    unfolding operate_def by (rule on_framework_fw)
  then obtain w' where w': "op (fw_ops (d_fw d) i) ((fw_world (d_fw d))\<lparr>w_calls := [], w_dev := fw_dev (d_fw d) i\<rparr>)
      = Inr (x, w')" "fw = set_dev i (w_dev w') ((d_fw d)\<lparr>hotplug_calls := [], fw_world := w'\<rparr>)"
    by (auto simp: on_dev_def bindR_eq_Inr)
  show ?thesis
    by (rule that [OF w'(1)]) (use fw(2) w'(2) assms(2) in \<open>simp_all add: set_dev_def fw_dev_def\<close>)
qed

lemma find_upt: "List.find P [0..<n] = Some i \<Longrightarrow> i < n"
  by (auto simp: find_Some_iff)

lemma attach_same:
  assumes "bio_usb_hotplug_callback_attach desc fw = Inr (r, fw')"
  shows "same_drivers fw fw'"
proof (cases desc)
  case (Some vp)
  show ?thesis
  proof (cases "serving_driver vp fw")
    case s: (Some i)
    obtain fw1 where h: "hotplug_discover USB_HOT_PLUG_ATTACHED i fw = Inr fw1"
      using assms Some s by (auto simp: bio_usb_hotplug_callback_attach_def bindR_eq_Inr)
    then have s1: "same_drivers fw fw1"
      by (auto simp: hotplug_discover_def bindR_eq_Inr hot_plug_common_callback_def same_drivers_def
          dest!: discover_only only_dev_same split: option.splits)
    have i: "i < length (bio_drv_list fw)" using s unfolding serving_driver_def by (rule find_upt)
    have "same_drivers fw1 (fw1\<lparr>bio_dev_list := bio_dev_list fw1 @ [i]\<rparr>)"
      using s1 i by (auto simp: same_drivers_def)
    then have s2: "same_drivers fw (fw1\<lparr>bio_dev_list := bio_dev_list fw1 @ [i]\<rparr>)" by (rule same_drivers_trans [OF s1])
    show ?thesis
    proof (cases "0 < dev_num (fw_dev fw1 i)")
      case True
      then obtain x where "hook_on i ops_attach (fw1\<lparr>bio_dev_list := bio_dev_list fw1 @ [i]\<rparr>) = Inr (x, fw')"
        using assms Some s h by (auto simp: bio_usb_hotplug_callback_attach_def bindR_eq_Inr)
      then show ?thesis by (rule same_drivers_trans [OF s2 only_dev_same [OF hook_on_only]])
    next
      case False
      then show ?thesis using assms Some s h s1 by (simp add: bio_usb_hotplug_callback_attach_def)
    qed
  qed (use assms Some in \<open>simp add: bio_usb_hotplug_callback_attach_def same_drivers_refl\<close>)
qed (use assms in \<open>simp add: bio_usb_hotplug_callback_attach_def\<close>)

lemma detach_same:
  assumes "bio_usb_hotplug_callback_detach desc fw = Inr (r, fw')"
  shows "same_drivers fw fw'"
proof (cases desc)
  case (Some vp)
  show ?thesis
  proof (cases "serving_driver vp fw")
    case s: (Some i)
    obtain fw1 where h: "hotplug_discover USB_HOT_PLUG_DETACHED i fw = Inr fw1"
      using assms Some s by (auto simp: bio_usb_hotplug_callback_detach_def bindR_eq_Inr)
    then have s1: "same_drivers fw fw1"
      by (auto simp: hotplug_discover_def bindR_eq_Inr hot_plug_common_callback_def same_drivers_def
          dest!: discover_only only_dev_same split: option.splits)
    have s2: "same_drivers fw1 (if dev_num (fw_dev fw1 i) \<le> 0 then fw1\<lparr>bio_dev_list := remove1 i (bio_dev_list fw1)\<rparr> else fw1)"
      by (auto simp: same_drivers_def list_all_iff dest!: subsetD [OF set_remove1_subset])
    obtain x where "hook_on i ops_detach (if dev_num (fw_dev fw1 i) \<le> 0
        then fw1\<lparr>bio_dev_list := remove1 i (bio_dev_list fw1)\<rparr> else fw1) = Inr (x, fw')"
      using assms Some s h by (auto simp: bio_usb_hotplug_callback_detach_def bindR_eq_Inr Let_def)
    then show ?thesis by (rule same_drivers_trans [OF same_drivers_trans [OF s1 s2] only_dev_same [OF hook_on_only]])
  qed (use assms Some in \<open>simp add: bio_usb_hotplug_callback_detach_def same_drivers_refl\<close>)
qed (use assms in \<open>simp add: bio_usb_hotplug_callback_detach_def\<close>)

text \<open>The drivers do not change the number of their device while they clean.\<close>

definition clean_keeps_id :: "'p framework \<Rightarrow> bool" where
  "clean_keeps_id fw \<longleftrightarrow> (\<forall>i < length (bio_drv_list fw). \<forall>u a b w.
     on_return (bio_ops_clean (fw_ops fw i) u a b w) (\<lambda>(_, w'). driver_id (w_dev w') = driver_id (w_dev w)))"

definition good_framework :: "'p framework \<Rightarrow> bool" where
  "good_framework fw \<longleftrightarrow> clean_keeps_id fw \<and> list_all (\<lambda>i. i < length (bio_drv_list fw)) (bio_dev_list fw)"

lemma good_same: "same_drivers fw fw' \<Longrightarrow> good_framework fw \<Longrightarrow> good_framework fw'"
  by (auto simp: good_framework_def same_drivers_def clean_keeps_id_def)

text \<open>A lock taken and released is as it was.\<close>

lemma trylock_result:
  assumes "pthread_mutex_trylock k d = Inr (taken, d')"
  shows "taken \<longleftrightarrow> \<not> dev_dbus_mutex d ! nat k" "0 \<le> k" "k < int (length (dev_dbus_mutex d))"
    "d' = d\<lparr>dev_dbus_mutex := (dev_dbus_mutex d)[nat k := True]\<rparr>" "d_fw d' = d_fw d"
  using assms by (auto simp: pthread_mutex_trylock_def bindR_eq_Inr at_Inr)

lemma unlock_result:
  assumes "pthread_mutex_unlock k d = Inr d'"
  shows "d' = d\<lparr>dev_dbus_mutex := (dev_dbus_mutex d)[nat k := False]\<rparr>" "d_fw d' = d_fw d"
    "0 \<le> k" "k < int (length (dev_dbus_mutex d))"
  using assms by (auto simp: pthread_mutex_unlock_def bindR_eq_Inr at_Inr)

lemma clean_single_keeps:
  assumes "gdbus_clean_by_single_dev dev u a b d = Inr (r, d')" "good_framework (d_fw d)"
    "\<And>i. dev = Some i \<Longrightarrow> i < length (bio_drv_list (d_fw d))"
  shows "dev_dbus_mutex d' = dev_dbus_mutex d" "same_drivers (d_fw d) (d_fw d')"
proof -
  have "dev_dbus_mutex d' = dev_dbus_mutex d \<and> same_drivers (d_fw d) (d_fw d')"
  proof (cases dev)
    case None
    then show ?thesis using assms(1) by (simp add: gdbus_clean_by_single_dev_def same_drivers_refl)
  next
    case (Some j)
    let ?k = "driver_id (fw_dev (d_fw d) j)"
    show ?thesis
    proof (cases "get_dev_by_drvid ?k (d_fw d) = None")
      case True
      then show ?thesis using assms(1) Some by (simp add: gdbus_clean_by_single_dev_def Let_def same_drivers_refl)
    next
      case False
      then obtain taken d1 where t: "pthread_mutex_trylock ?k d = Inr (taken, d1)"
        using assms(1) Some by (auto simp: gdbus_clean_by_single_dev_def Let_def bindR_eq_Inr)
      note t1 = trylock_result [OF t]
      show ?thesis
      proof (cases taken)
        case no: False
        then have "d' = d1" using assms(1) Some False t by (simp add: gdbus_clean_by_single_dev_def Let_def)
        then show ?thesis using t1 no by (simp add: list_update_same_conv same_drivers_refl)
      next
        case True
        then obtain x d2 d3 where o: "operate j (\<lambda>ops. bio_ops_clean ops u a b) d1 = Inr (x, d2)"
          and l: "pthread_mutex_unlock (driver_id (fw_dev (d_fw d2) j)) d2 = Inr d3" and d': "d' = d3"
          using assms(1) Some False t by (auto simp: gdbus_clean_by_single_dev_def Let_def bindR_eq_Inr)
        have j: "j < length (bio_drv_list (d_fw d1))" using assms(3) Some t1(5) by simp
        obtain w w' where "bio_ops_clean (fw_ops (d_fw d1) j) u a b w = Inr (x, w')" "w_dev w = fw_dev (d_fw d1) j"
          "fw_dev (d_fw d2) j = w_dev w'"
          using operate_dev [OF o j] .
        then have "driver_id (fw_dev (d_fw d2) j) = ?k"
          using assms(2) t1(5) j by (fastforce simp: good_framework_def clean_keeps_id_def on_return_def)
        then show ?thesis
          using unlock_result [OF l] operate_mutex [OF o] operate_same [OF o] t1 True d'
          by (simp add: list_update_same_conv)
      qed
    qed
  qed
  then show "dev_dbus_mutex d' = dev_dbus_mutex d" "same_drivers (d_fw d) (d_fw d')" by simp_all
qed

lemma clean_next_keeps:
  assumes "clean_next i u a b r0 d = Inr (r, d')" "good_framework (d_fw d)" "i < length (bio_drv_list (d_fw d))"
  shows "dev_dbus_mutex d' = dev_dbus_mutex d" "same_drivers (d_fw d) (d_fw d')"
  using assms(1) clean_single_keeps [of "Some i" u a b d _ d'] assms(2,3) by (auto simp: clean_next_def bindR_eq_Inr)

lemma clean_system_keeps:
  assumes "clean_system u a b d = Inr (r, d')"
  shows "dev_dbus_mutex d' = dev_dbus_mutex d" "same_drivers (d_fw d) (d_fw d')"
  using assms
  by (auto simp: clean_system_def bindR_eq_Inr Let_def same_drivers_def fw_ops_def fun_eq_iff case_prod_beta)

lemma get_dev_in_list: "get_dev_by_drvid k fw = Some i \<Longrightarrow> i \<in> set (bio_dev_list fw) \<and> driver_id (fw_dev fw i) = k"
  by (auto simp: get_dev_by_drvid_def find_Some_iff)

lemma clean_start_keeps:
  assumes "clean_start c k u a b d = Inr (r, d')" "good_framework (d_fw d)"
  shows "dev_dbus_mutex d' = dev_dbus_mutex d" "same_drivers (d_fw d) (d_fw d')"
    "r = Inr is \<Longrightarrow> \<forall>i\<in>set is. i < length (bio_drv_list (d_fw d'))"
proof -
  have i: "i < length (bio_drv_list (d_fw d))" if "get_dev_by_drvid k (d_fw d) = Some i" for i
    using get_dev_in_list [OF that] assms(2) by (auto simp: good_framework_def list_all_iff)
  note single = clean_single_keeps [of "get_dev_by_drvid k (d_fw d)" u a b d _ d', OF _ assms(2) i]
  show "dev_dbus_mutex d' = dev_dbus_mutex d" "same_drivers (d_fw d) (d_fw d')"
    using assms(1) single by (auto simp: clean_start_def bindR_eq_Inr same_drivers_refl split: if_splits)
  show "r = Inr is \<Longrightarrow> \<forall>i\<in>set is. i < length (bio_drv_list (d_fw d'))"
    using assms(1) by (auto simp: clean_start_def bindR_eq_Inr split: if_splits)
qed

lemma clean_finish_keeps:
  assumes "clean_finish u a b r0 d = Inr (rs, d')"
  shows "dev_dbus_mutex d' = dev_dbus_mutex d" "same_drivers (d_fw d) (d_fw d')"
  using assms clean_system_keeps [of u a b d] by (auto simp: clean_finish_def bindR_eq_Inr Let_def)

section \<open>Every reachable state\<close>

text \<open>
  The invariant: the locks are those the threads hold, no two threads hold the same, and a thread that cleans
  goes through drivers that there are.
\<close>

fun thread_ok :: "nat \<Rightarrow> 'p thread \<Rightarrow> bool" where
  "thread_ok n (Cleaning u a b is ret) \<longleftrightarrow> (\<forall>i\<in>set is. i < n)"
| "thread_ok n _ \<longleftrightarrow> True"

definition daemon_inv :: "'p daemon \<times> 'p thread list \<Rightarrow> bool" where
  "daemon_inv c \<longleftrightarrow> locks_match c \<and> good_framework (d_fw (fst c))
     \<and> list_all (thread_ok (length (bio_drv_list (d_fw (fst c))))) (snd c)"

lemma held_update:
  "n < length ts \<Longrightarrow> held (ts[n := t]) = concat (map holds (take n ts)) @ holds t @ concat (map holds (drop (Suc n) ts))"
  "n < length ts \<Longrightarrow> held ts = concat (map holds (take n ts)) @ holds (ts ! n) @ concat (map holds (drop (Suc n) ts))"
  by (simp_all add: held_def upd_conv_take_nth_drop)
     (metis concat.simps(2) concat_append id_take_nth_drop list.simps(9) map_append)

lemma list_all_update: "list_all P xs \<Longrightarrow> P x \<Longrightarrow> list_all P (xs[n := x])"
  unfolding list_all_iff using set_update_subset_insert [of xs n x] by blast

text \<open>What one step of a thread does to the locks.\<close>

abbreviation (input) lock_effect :: "'p thread \<Rightarrow> bool list \<Rightarrow> 'p thread \<Rightarrow> bool list \<Rightarrow> bool" where
  "lock_effect t ms t' ms' \<equiv> (holds t' = holds t \<and> ms' = ms)
     \<or> (\<exists>k. holds t = [] \<and> holds t' = [k] \<and> 0 \<le> k \<and> k < int (length ms) \<and> \<not> ms ! nat k \<and> ms' = ms[nat k := True])
     \<or> (\<exists>k. holds t = [k] \<and> holds t' = [] \<and> ms' = ms[nat k := False])"

lemma advance_locks:
  assumes "advance t d = Inr (t', d')" "good_framework (d_fw d)" "thread_ok (length (bio_drv_list (d_fw d))) t"
  shows "same_drivers (d_fw d) (d_fw d')" "thread_ok (length (bio_drv_list (d_fw d'))) t'"
    "lock_effect t (dev_dbus_mutex d) t' (dev_dbus_mutex d')"
proof -
  let ?n' = "length (bio_drv_list (d_fw d'))"
  have "same_drivers (d_fw d) (d_fw d') \<and> thread_ok ?n' t' \<and> lock_effect t (dev_dbus_mutex d) t' (dev_dbus_mutex d')"
  proof (cases t)
    case (Waiting j)
    show ?thesis
    proof (cases "job_allowed j \<and> get_dev_by_drvid (job_drvid j) (d_fw d) \<noteq> None")
      case True
      then obtain i taken d1 where t: "get_dev_by_drvid (job_drvid j) (d_fw d) = Some i"
        "pthread_mutex_trylock (job_drvid j) d = Inr (taken, d1)"
        "t' = (if taken then Holding j i else Answered (job_refused j RetDeviceBusy))" "d' = d1"
        using assms(1) Waiting by (auto simp: bindR_eq_Inr)
      show ?thesis
        using trylock_result [OF t(2)] t(3,4) Waiting
        by (cases taken) (auto simp: same_drivers_refl list_update_same_conv)
    qed (use assms(1) Waiting in \<open>auto simp: same_drivers_refl split: if_splits option.splits\<close>)
  next
    case (Holding j i)
    then obtain x d1 where o: "operate i (job_op j) d = Inr (x, d1)" "pthread_mutex_unlock (job_drvid j) d1 = Inr d'"
      "t' = Unlocked j i x"
      using assms(1) by (auto simp: bindR_eq_Inr)
    then show ?thesis
      using unlock_result [OF o(2)] operate_mutex [OF o(1)] operate_same [OF o(1)] Holding by simp
  next
    case (Unlocked j i x)
    then show ?thesis using assms(1) by (auto simp: bindR_eq_Inr same_drivers_refl)
  next
    case (Clean_request c k u a b)
    then obtain r where r: "clean_start c k u a b d = Inr (r, d')"
      "t' = (case r of Inl rs \<Rightarrow> Answered rs | Inr is \<Rightarrow> Cleaning u a b is 0)"
      using assms(1) by (auto simp: bindR_eq_Inr)
    show ?thesis using clean_start_keeps [OF r(1) assms(2)] r(2) Clean_request by (cases r) simp_all
  next
    case (Cleaning u a b "is" r0)
    show ?thesis
    proof (cases "is")
      case Nil
      then obtain rs where f: "clean_finish u a b r0 d = Inr (rs, d')" "t' = Answered rs"
        using assms(1) Cleaning by (auto simp: bindR_eq_Inr)
      then show ?thesis using clean_finish_keeps [OF f(1)] Cleaning by simp
    next
      case (Cons i js)
      then obtain r where r: "clean_next i u a b r0 d = Inr (r, d')" "t' = Cleaning u a b js r"
        using assms(1) Cleaning by (auto simp: bindR_eq_Inr)
      have i: "i < length (bio_drv_list (d_fw d))" using assms(3) Cleaning Cons by simp
      note k = clean_next_keeps [OF r(1) assms(2) i]
      have "?n' = length (bio_drv_list (d_fw d))" using k(2) by (simp add: same_drivers_def)
      then show ?thesis using k r(2) Cleaning Cons assms(3) by simp
    qed
  next
    case (Status_request k)
    then show ?thesis
      using assms(1) by (auto simp: gdbus_update_status_pt_def bindR_eq_Inr Let_def same_drivers_refl split: prod.splits)
  next
    case (Stop_request k sec)
    then show ?thesis
      using assms(1) operate_same operate_mutex
      by (fastforce simp: gdbus_stop_ops_pt_def bindR_eq_Inr same_drivers_refl split: option.splits)
  next
    case (Answered rs)
    then show ?thesis using assms(1) by (auto simp: same_drivers_refl)
  qed
  then show "same_drivers (d_fw d) (d_fw d')" "thread_ok ?n' t'"
    "lock_effect t (dev_dbus_mutex d) t' (dev_dbus_mutex d')" by blast+
qed

lemma locks_step:
  assumes "locks_match (d, ts)" "n < length ts"
    "lock_effect (ts ! n) (dev_dbus_mutex d) t' (dev_dbus_mutex d')"
  shows "locks_match (d', ts[n := t'])"
proof -
  let ?A = "concat (map holds (take n ts))" and ?B = "concat (map holds (drop (Suc n) ts))"
  note h = held_update(1) [OF assms(2), of t'] held_update(2) [OF assms(2)]
  have m: "distinct (held ts)" "length (dev_dbus_mutex d) = MAX_DEVICES" "\<forall>k\<in>set (held ts). 0 \<le> k \<and> k < int MAX_DEVICES"
    "\<forall>k < MAX_DEVICES. dev_dbus_mutex d ! k \<longleftrightarrow> int k \<in> set (held ts)"
    using assms(1) by (simp_all add: locks_match_def)
  from assms(3) consider (same) "holds t' = holds (ts ! n)" "dev_dbus_mutex d' = dev_dbus_mutex d"
    | (take) k where "holds (ts ! n) = []" "holds t' = [k]" "0 \<le> k" "k < int (length (dev_dbus_mutex d))"
      "\<not> dev_dbus_mutex d ! nat k" "dev_dbus_mutex d' = (dev_dbus_mutex d)[nat k := True]"
    | (release) k where "holds (ts ! n) = [k]" "holds t' = []" "dev_dbus_mutex d' = (dev_dbus_mutex d)[nat k := False]"
    by blast
  then show ?thesis
  proof cases
    case same
    then show ?thesis using m h by (simp add: locks_match_def)
  next
    case (take k)
    have free: "k \<notin> set (held ts)" using m(2,4) take(3-5) by force
    have held': "distinct (held (ts[n := t']))" "set (held (ts[n := t'])) = insert k (set (held ts))"
      using h m(1) free take(1,2) by auto
    have "dev_dbus_mutex d' ! i \<longleftrightarrow> int i \<in> set (held (ts[n := t']))" if i: "i < MAX_DEVICES" for i
    proof (cases "i = nat k")
      case True
      then show ?thesis using held'(2) take(3,6) i m(2) by simp
    next
      case False
      then show ?thesis using held'(2) take(3,6) i m(4) by auto
    qed
    then show ?thesis using held' m take(3,4,6) by (simp add: locks_match_def)
  next
    case (release k)
    have held': "distinct (held (ts[n := t']))" "set (held (ts[n := t'])) = set (held ts) - {k}"
      using h m(1) release(1,2) by auto
    have k: "0 \<le> k" using m(3) h release(1) by simp
    have "dev_dbus_mutex d' ! i \<longleftrightarrow> int i \<in> set (held (ts[n := t']))" if i: "i < MAX_DEVICES" for i
    proof (cases "i = nat k")
      case True
      then show ?thesis using held'(2) release(3) i m(2) k by simp
    next
      case False
      then show ?thesis using held'(2) release(3) i m(4) k by auto
    qed
    then show ?thesis using held' m release(3) by (simp add: locks_match_def)
  qed
qed

lemma threads_same:
  "same_drivers fw fw' \<Longrightarrow> list_all (thread_ok (length (bio_drv_list fw))) ts \<Longrightarrow>
   list_all (thread_ok (length (bio_drv_list fw'))) ts"
  by (simp add: same_drivers_def)

lemma step_inv: "daemon_step c c' \<Longrightarrow> daemon_inv c \<Longrightarrow> daemon_inv c'"
proof (induction rule: daemon_step.induct)
  case (arrive t d ts)
  have t: "holds t = []" "thread_ok n t" for n using arrive(1) by (cases t; simp)+
  then have "held (ts @ [t]) = held ts" by (simp add: held_def)
  then show ?case using arrive t by (simp add: daemon_inv_def locks_match_def)
next
  case (go_on n ts d t d')
  have g: "good_framework (d_fw d)" "locks_match (d, ts)" "thread_ok (length (bio_drv_list (d_fw d))) (ts ! n)"
    using go_on(1,3) by (simp_all add: daemon_inv_def list_all_length)
  note a = advance_locks [OF go_on(2) g(1,3)]
  have "list_all (thread_ok (length (bio_drv_list (d_fw d')))) (ts[n := t])"
    using threads_same [OF a(1)] go_on(3) a(2) by (auto simp: daemon_inv_def intro: list_all_update)
  then show ?case
    using locks_step [OF g(2) go_on(1) a(3)] good_same [OF a(1) g(1)] by (simp add: daemon_inv_def)
next
  case (plug desc d r d' ts)
  obtain fw where "bio_usb_hotplug_callback_attach desc ((d_fw d)\<lparr>fw_world := (fw_world (d_fw d))\<lparr>w_calls := []\<rparr>, hotplug_calls := []\<rparr>)
      = Inr (r, fw)" "d_fw d' = fw"
    using on_framework_fw [OF plug(1)] .
  then have "same_drivers (d_fw d) (d_fw d')" using attach_same by fastforce
  then show ?case
    using plug(2) on_framework_mutex [OF plug(1)] good_same threads_same by (fastforce simp: daemon_inv_def locks_match_def)
next
  case (unplug desc d r d' ts)
  obtain fw where "bio_usb_hotplug_callback_detach desc ((d_fw d)\<lparr>fw_world := (fw_world (d_fw d))\<lparr>w_calls := []\<rparr>, hotplug_calls := []\<rparr>)
      = Inr (r, fw)" "d_fw d' = fw"
    using on_framework_fw [OF unplug(1)] .
  then have "same_drivers (d_fw d) (d_fw d')" using detach_same by fastforce
  then show ?case
    using unplug(2) on_framework_mutex [OF unplug(1)] good_same threads_same by (fastforce simp: daemon_inv_def locks_match_def)
next
  case (clock d ts t)
  then show ?case by (simp add: daemon_inv_def locks_match_def)
qed

lemma reachable_inv: "reachable d0 c \<Longrightarrow> daemon_inv (d0, []) \<Longrightarrow> daemon_inv c"
  by (induction rule: reachable.induct) (auto intro: step_inv)

end
