(* ===== verification/Daemon_Laws.thy ===== *)
theory Daemon_Laws
  imports Daemon_Steps Community_Laws
begin

text \<open>
  What the service promises: one thread on a device at a time, who is told what, and where the
  promises end.
\<close>

section \<open>The sizes of the arrays\<close>

definition arrays_ok :: "'p daemon \<Rightarrow> bool" where
  "arrays_ok d \<longleftrightarrow> length (dev_dbus_mutex d) = MAX_DEVICES \<and> length (timestamp_dev_status d) = MAX_DEVICES
     \<and> length (timestamp_ops_result d) = MAX_DEVICES \<and> length (timestamp_notify_mid d) = MAX_DEVICES"

lemma deliver_status_arrays: "deliver_status cs d = Inr d' \<Longrightarrow> arrays_ok d' = arrays_ok d"
proof (induction cs d rule: deliver_status.induct)
  case (2 f drvid type cs d)
  obtain d1 where "(if f = SIGNAL_STATUS_CHANGED then gdbus_signal_status_changed drvid type d else Inr d) = Inr d1"
    "deliver_status cs d1 = Inr d'"
    using 2(2) by (auto simp: bindR_eq_Inr)
  then show ?case
    using 2(1) [of d1] by (auto simp: gdbus_signal_status_changed_def bindR_eq_Inr arrays_ok_def split: if_splits)
qed simp

lemma deliver_hotplug_arrays: "arrays_ok (deliver_hotplug cs d) = arrays_ok d"
  by (induction cs d rule: deliver_hotplug.induct)
    (simp_all add: gdbus_usb_device_hot_plug_callback_def arrays_ok_def)

lemma arrays_ok_fw [simp]: "arrays_ok (d\<lparr>d_fw := fw\<rparr>) = arrays_ok d" "arrays_ok (d\<lparr>gettimeofday := t\<rparr>) = arrays_ok d"
  "arrays_ok (d\<lparr>dev_dbus_mutex := (dev_dbus_mutex d)[k := b]\<rparr>) = arrays_ok d"
  by (simp_all add: arrays_ok_def)

lemma on_framework_arrays: "on_framework f d = Inr (x, d') \<Longrightarrow> arrays_ok d' = arrays_ok d"
  by (auto simp: on_framework_def Let_def bindR_eq_Inr deliver_hotplug_arrays dest!: deliver_status_arrays)

lemma operate_arrays: "operate i op d = Inr (x, d') \<Longrightarrow> arrays_ok d' = arrays_ok d"
  by (auto simp: operate_def on_framework_arrays)

lemma lock_arrays:
  "pthread_mutex_trylock k d = Inr (b, d') \<Longrightarrow> arrays_ok d' = arrays_ok d"
  "pthread_mutex_unlock k d = Inr d' \<Longrightarrow> arrays_ok d' = arrays_ok d"
  by (auto dest!: trylock_result(4) unlock_result(1))

lemma clean_single_arrays: "gdbus_clean_by_single_dev dev u a b d = Inr (r, d') \<Longrightarrow> arrays_ok d' = arrays_ok d"
  by (auto simp: gdbus_clean_by_single_dev_def Let_def bindR_eq_Inr split: option.splits if_splits
      dest!: lock_arrays operate_arrays)

lemma clean_next_arrays: "clean_next i u a b r0 d = Inr (r, d') \<Longrightarrow> arrays_ok d' = arrays_ok d"
  by (auto simp: clean_next_def bindR_eq_Inr dest!: clean_single_arrays)

lemma clean_start_arrays: "clean_start c k u a b d = Inr (r, d') \<Longrightarrow> arrays_ok d' = arrays_ok d"
  by (auto simp: clean_start_def bindR_eq_Inr split: if_splits dest!: clean_single_arrays)

lemma clean_finish_arrays: "clean_finish u a b r0 d = Inr (rs, d') \<Longrightarrow> arrays_ok d' = arrays_ok d"
  by (auto simp: clean_finish_def clean_system_def bindR_eq_Inr Let_def case_prod_beta)

lemma advance_arrays:
  assumes "advance t d = Inr (t', d')"
  shows "arrays_ok d' = arrays_ok d"
proof (cases t)
  case (Cleaning u a b "is" r)
  then show ?thesis
    using assms by (cases "is") (auto simp: bindR_eq_Inr dest!: clean_next_arrays clean_finish_arrays)
qed (use assms in \<open>auto simp: bindR_eq_Inr gdbus_update_status_pt_def gdbus_stop_ops_pt_def Let_def
      split: if_splits option.splits prod.splits dest!: lock_arrays operate_arrays clean_start_arrays\<close>)

lemma reachable_arrays: "reachable d0 c \<Longrightarrow> daemon_inv (d0, []) \<Longrightarrow> arrays_ok d0 \<Longrightarrow> arrays_ok (fst c)"
proof (induction rule: reachable.induct)
  case (after c c')
  note inv = reachable_inv [OF after(1,4)] and c = after(3) [OF after(4,5)]
  show ?case using after(2) inv c
  proof cases
    case (go_on n ts d t d')
    then show ?thesis using advance_arrays [OF go_on(4)] c by simp
  qed (auto dest: on_framework_arrays)
qed simp

lemma new_daemon_inv:
  "good_framework fw \<Longrightarrow> daemon_inv (bus_acquired_cb (new_daemon now fw), [])" "arrays_ok (bus_acquired_cb (new_daemon now fw))"
proof -
  show "arrays_ok (bus_acquired_cb (new_daemon now fw))" by (simp add: bus_acquired_cb_def new_daemon_def arrays_ok_def)
  assume "good_framework fw"
  then have "good_framework (d_fw (bus_acquired_cb (new_daemon now fw)))"
    by (simp add: bus_acquired_cb_def new_daemon_def good_framework_def clean_keeps_id_def fw_ops_def)
  then show "daemon_inv (bus_acquired_cb (new_daemon now fw), [])"
    by (simp add: daemon_inv_def locks_match_def held_def bus_acquired_cb_def new_daemon_def)
qed

section \<open>The locks, abstractly\<close>

text \<open>
  What the locks of the devices promise: each has at most one owner among the threads; who takes one
  finds it free.
\<close>

type_synonym owners = "int \<Rightarrow> nat option"

inductive lock_step :: "nat \<Rightarrow> owners \<Rightarrow> owners \<Rightarrow> bool" where
  idle: "lock_step n own own"
| acquire: "own k = None \<Longrightarrow> lock_step n own (own(k \<mapsto> n))"
| release: "own k = Some n \<Longrightarrow> lock_step n own (own(k := None))"

text \<open>The owners in a state of the service, and the thread a step is of.\<close>

definition owner :: "'p thread list \<Rightarrow> owners" where
  "owner ts k = List.find (\<lambda>n. k \<in> set (holds (ts ! n))) [0..<length ts]"

lemma in_held: "n < length ts \<Longrightarrow> k \<in> set (holds (ts ! n)) \<Longrightarrow> k \<in> set (held ts)"
  by (auto simp: held_def)

lemma held_by: "k \<in> set (held ts) \<Longrightarrow> \<exists>n < length ts. k \<in> set (holds (ts ! n))"
proof -
  assume "k \<in> set (held ts)"
  then obtain t where "t \<in> set ts" "k \<in> set (holds t)" by (auto simp: held_def)
  then show ?thesis by (metis in_set_conv_nth)
qed

lemma held_unique:
  assumes "distinct (held ts)" "m < length ts" "n < length ts" "k \<in> set (holds (ts ! m))" "k \<in> set (holds (ts ! n))"
  shows "m = n"
proof (rule ccontr)
  assume "m \<noteq> n"
  then consider "n < m" | "m < n" by linarith
  then have "ts ! n \<in> set (take m ts) \<union> set (drop (Suc m) ts)"
  proof cases
    case 1
    then show ?thesis using assms(2,3) by (auto simp: in_set_conv_nth)
  next
    case 2
    then have "drop (Suc m) ts ! (n - Suc m) = ts ! n" "n - Suc m < length (drop (Suc m) ts)" using assms(3) by auto
    then show ?thesis by (metis Un_iff nth_mem)
  qed
  then show False using assms(1,4,5) held_update(2) [OF assms(2)] by auto
qed

lemma owner_Some:
  assumes "distinct (held ts)"
  shows "owner ts k = Some n \<longleftrightarrow> n < length ts \<and> k \<in> set (holds (ts ! n))"
proof
  assume "owner ts k = Some n"
  then show "n < length ts \<and> k \<in> set (holds (ts ! n))" by (auto simp: owner_def find_Some_iff)
next
  assume n: "n < length ts \<and> k \<in> set (holds (ts ! n))"
  then obtain m where m: "owner ts k = Some m"
    by (cases "owner ts k") (auto simp: owner_def find_None_iff)
  then have "m < length ts \<and> k \<in> set (holds (ts ! m))" by (auto simp: owner_def find_Some_iff)
  then show "owner ts k = Some n" using held_unique [OF assms] m n by blast
qed

lemma owner_None: "owner ts k = None \<longleftrightarrow> k \<notin> set (held ts)"
proof -
  have "owner ts k = None \<longleftrightarrow> (\<forall>n < length ts. k \<notin> set (holds (ts ! n)))" by (auto simp: owner_def find_None_iff)
  then show ?thesis using in_held [of _ ts k] held_by [of k ts] by blast
qed

lemma owner_ext: "(\<And>k n. f k = Some n \<longleftrightarrow> g k = Some n) \<Longrightarrow> f = (g :: owners)"
  by (rule ext) (metis not_Some_eq)

lemma go_on_owner:
  assumes "n < length ts" "distinct (held ts)" "distinct (held (ts[n := t]))"
  shows "holds t = holds (ts ! n) \<Longrightarrow> owner (ts[n := t]) = owner ts"
    "holds (ts ! n) = [] \<Longrightarrow> holds t = [k] \<Longrightarrow> owner (ts[n := t]) = (owner ts)(k \<mapsto> n)"
    "holds (ts ! n) = [k] \<Longrightarrow> holds t = [] \<Longrightarrow> owner (ts[n := t]) = (owner ts)(k := None)"
proof -
  have o: "owner (ts[n := t]) k' = Some m \<longleftrightarrow>
      (if m = n then k' \<in> set (holds t) else m < length ts \<and> k' \<in> set (holds (ts ! m)))" for k' m
    using owner_Some [OF assms(3), of k' m] assms(1) by (auto simp: nth_list_update)
  have u: "k' \<in> set (holds t) \<Longrightarrow> m < length ts \<Longrightarrow> m \<noteq> n \<Longrightarrow> k' \<notin> set (holds (ts ! m))" for k' m
    using held_unique [OF assms(3), of n m k'] assms(1) by auto
  have v: "k' \<in> set (holds (ts ! n)) \<Longrightarrow> m < length ts \<Longrightarrow> m \<noteq> n \<Longrightarrow> k' \<notin> set (holds (ts ! m))" for k' m
    using held_unique [OF assms(2), of n m k'] assms(1) by auto
  show "holds t = holds (ts ! n) \<Longrightarrow> owner (ts[n := t]) = owner ts"
    by (rule owner_ext) (use o owner_Some [OF assms(2)] assms(1) in auto)
  show "holds (ts ! n) = [] \<Longrightarrow> holds t = [k] \<Longrightarrow> owner (ts[n := t]) = (owner ts)(k \<mapsto> n)"
    by (rule owner_ext) (use o u owner_Some [OF assms(2)] assms(1) in \<open>auto split: if_splits\<close>)
  show "holds (ts ! n) = [k] \<Longrightarrow> holds t = [] \<Longrightarrow> owner (ts[n := t]) = (owner ts)(k := None)"
    by (rule owner_ext) (use o v owner_Some [OF assms(2)] assms(1) in \<open>auto split: if_splits\<close>)
qed

lemma owner_arrive:
  assumes "holds t = []" "distinct (held ts)"
  shows "owner (ts @ [t]) = owner ts"
proof (rule owner_ext)
  have d: "distinct (held (ts @ [t]))" using assms by (simp add: held_def)
  show "owner (ts @ [t]) k = Some n \<longleftrightarrow> owner ts k = Some n" for k n
    unfolding owner_Some [OF d] owner_Some [OF assms(2)] using assms(1) by (auto simp: nth_append less_Suc_eq)
qed

lemma inv_locks: "daemon_inv (d, ts) \<Longrightarrow> distinct (held ts)"
  by (simp add: daemon_inv_def locks_match_def)

lemma step_owner:
  assumes "daemon_step (d, ts) (d', ts')" "daemon_inv (d, ts)"
  shows "\<exists>n. lock_step n (owner ts) (owner ts')"
  using assms(1)
proof cases
  case (arrive t)
  have "holds t = []" using arrive(3) by (cases t) simp_all
  then show ?thesis using arrive(2) owner_arrive inv_locks [OF assms(2)] idle by metis
next
  case (go_on n t)
  have p: "thread_ok (length (bio_drv_list (d_fw d))) (ts ! n)" "good_framework (d_fw d)"
    using go_on assms(2) by (simp_all add: daemon_inv_def list_all_length)
  have "distinct (held (ts[n := t]))" using inv_locks step_inv [OF assms] go_on(1) by blast
  note o = go_on_owner [OF go_on(2) inv_locks [OF assms(2)] this]
  from advance_locks(3) [OF go_on(3) p(2,1)] consider
    "holds t = holds (ts ! n)"
    | k where "holds (ts ! n) = []" "holds t = [k]" "0 \<le> k" "k < int (length (dev_dbus_mutex d))" "\<not> dev_dbus_mutex d ! nat k"
    | k where "holds (ts ! n) = [k]" "holds t = []" by blast
  then show ?thesis
  proof cases
    case 1
    then show ?thesis using o(1) go_on(1) idle by metis
  next
    case (2 k)
    have "k \<notin> set (held ts)" using 2(3-5) assms(2) by (fastforce simp: daemon_inv_def locks_match_def)
    then show ?thesis using o(2) [OF 2(1,2)] go_on(1) acquire owner_None by metis
  next
    case (3 k)
    then have "owner ts k = Some n" using owner_Some [OF inv_locks [OF assms(2)]] go_on(2) by simp
    then show ?thesis using o(3) [OF 3(1,2)] go_on(1) release by metis
  qed
qed (use idle in metis)+

lemma reachable_locks:
  assumes "good_framework fw" "reachable (bus_acquired_cb (new_daemon now fw)) (d, ts)"
  shows "daemon_inv (d, ts)" "arrays_ok d"
  using reachable_inv [OF assms(2) new_daemon_inv(1) [OF assms(1)]]
    reachable_arrays [OF assms(2) new_daemon_inv(1) [OF assms(1)] new_daemon_inv(2)] by simp_all

lemma locked_owner:
  assumes "daemon_inv (d, ts)" "k < MAX_DEVICES"
  shows "dev_dbus_mutex d ! k \<longleftrightarrow> owner ts (int k) \<noteq> None"
  using assms owner_None [of ts "int k"] by (simp add: daemon_inv_def locks_match_def)

section \<open>A driver to try things on\<close>

text \<open>Its verification answers the results in its memory one after the other.\<close>

definition scripted_ops :: "int list driver_ops" where
  "scripted_ops = counting_ops\<lparr>ops_open := Some (\<lambda>w. Inr (0, w)), ops_close := Some (\<lambda>w. Inr ((), w)),
     ops_verify := Some (\<lambda>a u i w. Inr (0, bio_set_ops_abs_result (hd (w_priv w)) (w\<lparr>w_priv := tl (w_priv w)\<rparr>))),
     ops_clean := Some (\<lambda>a u i j w. Inr (0, bio_set_ops_abs_result OPS_CLEAN_SUCCESS w)),
     ops_get_dev_status_mesg := Some (\<lambda>_. None), ops_get_ops_result_mesg := Some (\<lambda>_. None),
     ops_get_notify_mid_mesg := Some (\<lambda>_. None)\<rparr>"

definition scripted_fw :: "int list \<Rightarrow> int list framework" where
  "scripted_fw results = counting_fw\<lparr>bio_drv_list := [(idle_dev, scripted_ops)], fw_world := (fw_world counting_fw)\<lparr>w_priv := results\<rparr>\<rparr>"

definition scripted_daemon :: "int list \<Rightarrow> int list daemon" where
  "scripted_daemon results = bus_acquired_cb (new_daemon (0, 0) (scripted_fw results))"

lemma MAX_DEVICES_val [simp]: "MAX_DEVICES = 1023"
  by (simp add: MAX_DEVICES_def BIO_DRVID_DYNAMIC_MAX_def)

lemma print_keeps: "on_return (print_result ops w) (\<lambda>w'. w' = w)"
  by (simp add: print_result_def on_return_bind) (simp add: on_return_def)

lemma scripted_clean: "bio_ops_clean scripted_ops u a b w = Inr (r, w') \<Longrightarrow>
   driver_id (w_dev w') = driver_id (w_dev w) \<and> w_store w' = w_store w"
  using print_keeps [of scripted_ops "bio_set_ops_abs_result OPS_CLEAN_SUCCESS w"]
  by (auto simp: bio_ops_clean_def device_session_def open_dev_def close_dev_def bindR_eq_Inr on_return_def
      scripted_ops_def split: if_splits)

lemma scripted_good: "good_framework (scripted_fw rs)"
  using scripted_clean
  by (auto simp: good_framework_def clean_keeps_id_def on_return_def scripted_fw_def fw_ops_def counting_fw_def)

lemma reachable_go:
  "reachable d0 (d, ts) \<Longrightarrow> n < length ts \<Longrightarrow> ts ! n = t \<Longrightarrow> advance t d = Inr (t', d') \<Longrightarrow> ts' = ts[n := t'] \<Longrightarrow>
   reachable d0 (d', ts')"
  by (auto intro: reachable.after daemon_step.go_on)

text \<open>Two verifications of the device arrive, and the first takes it.\<close>

abbreviation (input) first_job :: "int list job" where "first_job \<equiv> gdbus_verify_pt 3 7 0"
abbreviation (input) second_job :: "int list job" where "second_job \<equiv> gdbus_verify_pt 3 8 0"

lemma scripted_waits:
  "reachable (scripted_daemon rs) (scripted_daemon rs, [Waiting first_job, Waiting second_job])"
  using reachable.after [OF reachable.after [OF reachable.start daemon_step.arrive] daemon_step.arrive]
    request_thread.simps(1) by (metis append.left_neutral append_Cons)

definition scripted_taken :: "int list \<Rightarrow> int list daemon" where
  "scripted_taken rs = (scripted_daemon rs)\<lparr>dev_dbus_mutex := (replicate MAX_DEVICES False)[3 := True]\<rparr>"

lemma scripted_takes:
  "advance (Waiting first_job) (scripted_daemon rs) = Inr (Holding first_job 0, scripted_taken rs)"
  by (simp add: gdbus_verify_pt_def get_dev_by_drvid_def scripted_daemon_def bus_acquired_cb_def new_daemon_def
      scripted_fw_def counting_fw_def fw_dev_def idle_dev_def pthread_mutex_trylock_def at_def rd_def scripted_taken_def
      del: replicate.simps)

lemma scripted_taken_reachable:
  "reachable (scripted_daemon rs) (scripted_taken rs, [Holding first_job 0, Waiting second_job])"
  by (rule reachable_go [OF scripted_waits _ _ scripted_takes, of 0]) simp_all

section \<open>One thread on a device\<close>

text \<open>
  C3. The locks of the service refine their abstract description: in every step of every reachable
  state at most one lock changes hands, it is given up by its owner or taken when it has none, and
  after the step the flags of the mutexes say exactly which locks have an owner.
\<close>

theorem lock_refinement:
  assumes "good_framework fw" "reachable (bus_acquired_cb (new_daemon now fw)) (d, ts)" "daemon_step (d, ts) (d', ts')"
  shows "(\<exists>n. lock_step n (owner ts) (owner ts'))
    \<and> (\<forall>k < MAX_DEVICES. dev_dbus_mutex d' ! k \<longleftrightarrow> owner ts' (int k) \<noteq> None)"
proof -
  note inv = reachable_locks(1) [OF assms(1,2)]
  show ?thesis using step_owner [OF assms(3) inv] locked_owner [OF step_inv [OF assms(3) inv]] by blast
qed

theorem lock_refinement_witness:
  "(\<exists>n. lock_step n (owner [Waiting first_job, Waiting second_job]) (owner [Holding first_job 0, Waiting second_job]))
   \<and> (dev_dbus_mutex (scripted_taken []) ! 3 \<longleftrightarrow> owner [Holding first_job 0, Waiting second_job] 3 \<noteq> None)"
proof -
  have "daemon_step (scripted_daemon [], [Waiting first_job, Waiting second_job])
    (scripted_taken [], [Holding first_job 0, Waiting second_job])"
    using daemon_step.go_on [of 0 "[Waiting first_job, Waiting second_job]"] scripted_takes by simp
  then show ?thesis
    using lock_refinement [OF scripted_good, of "(0, 0)" "[]"] scripted_waits [of "[]", unfolded scripted_daemon_def]
    unfolding scripted_daemon_def by fastforce
qed

lemma holds_iff: "k \<in> set (holds t) \<longleftrightarrow> (\<exists>j i. t = Holding j i \<and> job_drvid j = k)"
  by (cases t) auto

text \<open>
  C12. A request that is allowed and whose device is listed never waits: it is refused as busy, and
  nothing changes, exactly when another thread is inside the framework for the same device, and
  otherwise it goes on with the lock; only a device whose number is not below \<open>MAX_DEVICES\<close> reaches
  past the array of locks, and the last of the dynamic numbers is one.
\<close>

theorem lock_answers:
  assumes "good_framework fw" "reachable (bus_acquired_cb (new_daemon now fw)) (d, ts)"
    "n < length ts" "ts ! n = Waiting j" "job_allowed j" "get_dev_by_drvid (job_drvid j) (d_fw d) = Some i"
  shows "advance (ts ! n) d =
    (if job_drvid j < 0 \<or> BIO_DRVID_DYNAMIC_MAX \<le> job_drvid j then Inl Out_of_bounds
     else if \<exists>m < length ts. m \<noteq> n \<and> (\<exists>j' i'. ts ! m = Holding j' i' \<and> job_drvid j' = job_drvid j)
          then Inr (Answered (job_refused j RetDeviceBusy), d)
     else Inr (Holding j i, d\<lparr>dev_dbus_mutex := (dev_dbus_mutex d)[nat (job_drvid j) := True]\<rparr>))"
proof -
  let ?k = "job_drvid j"
  note inv = reachable_locks [OF assms(1,2)]
  have len: "length (dev_dbus_mutex d) = 1023" using inv(2) by (simp add: arrays_ok_def)
  have adv: "advance (ts ! n) d = bindR (pthread_mutex_trylock ?k d) (\<lambda>(taken, d).
      Inr (if taken then Holding j i else Answered (job_refused j RetDeviceBusy), d))"
    using assms(4-6) by simp
  show ?thesis
  proof (cases "?k < 0 \<or> BIO_DRVID_DYNAMIC_MAX \<le> ?k")
    case True
    then show ?thesis using len adv by (auto simp: pthread_mutex_trylock_def at_def rd_def BIO_DRVID_DYNAMIC_MAX_def)
  next
    case False
    then have k: "0 \<le> ?k" "nat ?k < 1023" by (simp_all add: BIO_DRVID_DYNAMIC_MAX_def nat_less_iff)
    have "dev_dbus_mutex d ! nat ?k \<longleftrightarrow> ?k \<in> set (held ts)"
      using locked_owner [OF inv(1), of "nat ?k"] k by (simp add: owner_None del: not_None_eq)
    also have "\<dots> \<longleftrightarrow> (\<exists>m < length ts. m \<noteq> n \<and> (\<exists>j' i'. ts ! m = Holding j' i' \<and> job_drvid j' = ?k))"
      using held_by in_held assms(4) unfolding holds_iff by (metis thread.distinct(1))
    finally show ?thesis
      using False k len adv by (auto simp: pthread_mutex_trylock_def at_def rd_def list_update_same_conv)
  qed
qed

theorem lock_answers_witness:
  "advance (Waiting second_job) (scripted_taken []) = Inr (Answered [Complete_verify (-3)], scripted_taken [])"
  using lock_answers [OF scripted_good scripted_taken_reachable [unfolded scripted_daemon_def], where n = 1 and j = second_job and i = 0 and rs1 = "[]"]
  by (force simp: gdbus_verify_pt_def BIO_DRVID_DYNAMIC_MAX_def get_dev_by_drvid_def scripted_taken_def
      scripted_daemon_def bus_acquired_cb_def new_daemon_def scripted_fw_def counting_fw_def fw_dev_def idle_dev_def)

text \<open>Alone, the three steps of a thread make up its handler.\<close>

lemma serve_steps:
  "bindR (advance (Waiting j) d) (\<lambda>(t, d). bindR (advance t d) (\<lambda>(t, d). advance t d)) =
     bindR (serve j d) (\<lambda>(rs, d). Inr (Answered rs, d))"
  unfolding serve_def advance.simps(1) bindR_assoc split_def
  by (rule bindR_cong [OF refl]) (simp add: advance.simps(2,3) bindR_assoc split_def split: sum.split del: advance_job)

text \<open>
  C13. The answer to a verification is not the outcome of the verification: a thread that has given
  the lock back reads the result from the device, and when a second verification of another user
  runs in between and matches, the first request, whose own finger did not match, is answered with
  success.
\<close>

theorem verify_reply_race:
  assumes "reachable d0 (d, ts)" "m < length ts" "n < length ts" "m \<noteq> n"
    "ts ! m = Waiting (gdbus_verify_pt k uid idx)" "ts ! n = Waiting (gdbus_verify_pt k uid' idx')"
    "advance (ts ! m) d = Inr (Holding (gdbus_verify_pt k uid idx) i, d1)"
    "advance (Holding (gdbus_verify_pt k uid idx) i) d1 = Inr (t, d2)"
    "ops_result (fw_dev (d_fw d2) i) = OPS_VERIFY_NO_MATCH"
    "serve (gdbus_verify_pt k uid' idx') d2 = Inr ([Complete_verify 0], d3)"
    "get_dev_by_drvid k (d_fw d2) = Some i"
  shows "\<exists>ts'. reachable d0 (d3, ts') \<and> ts' ! m = Answered [Complete_verify 0]"
proof -
  let ?j = "gdbus_verify_pt k uid idx :: 'a job" and ?j' = "gdbus_verify_pt k uid' idx' :: 'a job"
  obtain a where t: "t = Unlocked ?j i a" "\<And>r. a r = Inr [Complete_verify
      (if r = OPS_VERIFY_MATCH then - ret_code RetOpsSuccess
       else if r = OPS_VERIFY_NO_MATCH then - ret_code RetOpsNoMatch else - ret_code RetOpsError)]"
    using assms(8) by (fastforce simp: bindR_eq_Inr gdbus_verify_pt_def operate_def on_framework_def on_dev_def Let_def)
  obtain t1 e1 t2 e2 where s: "advance (Waiting ?j') d2 = Inr (t1, e1)" "advance t1 e1 = Inr (t2, e2)"
      "advance t2 e2 = Inr (Answered [Complete_verify 0], d3)"
    using serve_steps [of ?j' d2] assms(10) by (auto simp: bindR_eq_Inr simp del: advance_simps)
  have "ops_result (fw_dev (d_fw d3) i) = OPS_VERIFY_MATCH"
    using assms(10,11)
    by (auto simp: serve_eq gdbus_verify_pt_def bindR_eq_Inr operate_def on_framework_def on_dev_def Let_def
        split: if_splits option.splits)
  then have last: "advance t d3 = Inr (Answered [Complete_verify 0], d3)" by (simp add: t)
  note r = reachable_go [OF assms(1,2) refl assms(7) refl]
  note r = reachable_go [OF r, of m, OF _ _ assms(8) refl]
  then have r2: "reachable d0 (d2, ts[m := t])" using assms(2) by simp
  have "reachable d0 (e1, ts[m := t, n := t1])"
    by (rule reachable_go [OF r2, of n, OF _ _ s(1)]) (use assms in simp_all)
  then have "reachable d0 (e2, ts[m := t, n := t2])"
    by (rule reachable_go [of _ _ _ n, OF _ _ _ s(2)]) (use assms in simp_all)
  then have "reachable d0 (d3, ts[m := t, n := Answered [Complete_verify 0]])"
    by (rule reachable_go [of _ _ _ n, OF _ _ _ s(3)]) (use assms in simp_all)
  then have "reachable d0 (d3, ts[m := t, n := Answered [Complete_verify 0], m := Answered [Complete_verify 0]])"
    by (rule reachable_go [of _ _ _ m, OF _ _ _ last]) (use assms in simp_all)
  then show ?thesis using assms(2) by fastforce
qed

definition scripted_results :: "int list" where
  "scripted_results = [OPS_VERIFY_NO_MATCH, OPS_VERIFY_MATCH]"

lemma scripted_race:
  "bindR (advance (Holding first_job 0) (scripted_taken scripted_results)) (\<lambda>(t, d2).
   bindR (serve second_job d2) (\<lambda>(rs, d3).
   Inr (ops_result (fw_dev (d_fw d2) 0), get_dev_by_drvid 3 (d_fw d2), rs))) =
   Inr (OPS_VERIFY_NO_MATCH, Some 0, [Complete_verify 0])"
  by code_simp

theorem verify_reply_race_witness:
  "\<exists>d3 ts'. reachable (scripted_daemon scripted_results) (d3, ts') \<and> ts' ! 0 = Answered [Complete_verify 0]"
proof -
  obtain t d2 d3 where run: "advance (Holding first_job 0) (scripted_taken scripted_results) = Inr (t, d2)"
    "serve second_job d2 = Inr ([Complete_verify 0], d3)" "ops_result (fw_dev (d_fw d2) 0) = OPS_VERIFY_NO_MATCH"
    "get_dev_by_drvid 3 (d_fw d2) = Some 0"
    using scripted_race by (fastforce simp: bindR_eq_Inr simp del: advance_simps)
  show ?thesis
    using verify_reply_race [OF scripted_waits [of scripted_results], where m = 0 and n = 1 and k = 3 and i = 0, OF _ _ _ _ _ _ run(1,3,2,4)] scripted_takes [of scripted_results]
    by (auto simp del: advance_simps)
qed

section \<open>Who may change what\<close>

lemma authorized_iff:
  "authorized c uid own admin \<longleftrightarrow>
     polkit_authorized c (if (case unix_user c of None \<Rightarrow> 0 | Some u \<Rightarrow> sint u) = uid then own else admin) = Some True"
  by (cases "unix_user c")
    (auto simp: authorized_def get_dbus_caller_uid_def authority_check_by_polkit_def split: option.splits)

text \<open>
  C16. Enrolling, cleaning and renaming are for whom \<open>polkit\<close> lets: for the caller's own user under
  the action for own data, for another one under the action for administrators. Anyone else is
  told so, and nothing happens. A caller whose user the bus cannot tell counts as user 0.
\<close>

theorem unauthorized_request_refused:
  assumes "sender = (case unix_user c of None \<Rightarrow> 0 | Some u \<Rightarrow> sint u)"
  shows "(polkit_authorized c (if sender = uid then POLKIT_ENROLL_OWN_ACTION_ID else POLKIT_ENROLL_ADMIN_ACTION_ID) \<noteq> Some True \<longrightarrow>
       serve (gdbus_enroll_pt h c drvid uid idx name) d = Inr ([Complete_enroll (- ret_code RetPermissionDenied)], d))
    \<and> (polkit_authorized c (if sender = uid then POLKIT_RENAME_OWN_ACTION_ID else POLKIT_RENAME_ADMIN_ACTION_ID) \<noteq> Some True \<longrightarrow>
       serve (gdbus_feature_rename_pt h c drvid uid idx name) d = Inr ([Complete_enroll (- ret_code RetPermissionDenied)], d))
    \<and> (polkit_authorized c (if sender = uid then POLKIT_CLEAN_OWN_ACTION_ID else POLKIT_CLEAN_ADMIN_ACTION_ID) \<noteq> Some True \<longrightarrow>
       gdbus_clean_pt c drvid uid i j d = Inr ([Complete_enroll (- ret_code RetPermissionDenied)], d))"
  by (simp add: serve_eq gdbus_enroll_pt_def gdbus_feature_rename_pt_def gdbus_clean_pt_def clean_start_def authorized_iff assms)

definition stranger :: caller where
  "stranger = \<lparr>unix_user = Some 1000, unix_process_id = Some 4242,
     polkit_authorized = (\<lambda>action. if action = POLKIT_ENROLL_OWN_ACTION_ID then Some True else Some False)\<rparr>"

theorem unauthorized_request_refused_witness:
  "serve (gdbus_enroll_pt demo_host stranger 3 0 (-1) ''finger'') (scripted_daemon []) =
     Inr ([Complete_enroll (-5)], scripted_daemon [])"
  using unauthorized_request_refused [of "sint (1000 :: 32 word)" stranger 0 demo_host 3 "-1" "''finger''" "scripted_daemon []"]
  by (simp add: stranger_def POLKIT_ENROLL_OWN_ACTION_ID_def POLKIT_ENROLL_ADMIN_ACTION_ID_def)

section \<open>What is answered\<close>

text \<open>
  C28. Asking for the status of a device faults exactly for numbers outside the arrays of times,
  which nothing checks; every other number is answered, that of no device with the code for that.
\<close>

theorem update_status_bounds:
  assumes "good_framework fw" "reachable (bus_acquired_cb (new_daemon now fw)) (d, ts)"
  shows "(gdbus_update_status_pt drvid d = Inl Out_of_bounds \<longleftrightarrow> drvid < 0 \<or> 1023 \<le> drvid)
    \<and> (0 \<le> drvid \<and> drvid < 1023 \<longrightarrow>
       (\<exists>ret e n s r mid t1 t2 t3. gdbus_update_status_pt drvid d = Inr ([Complete_update_status ret e n s r mid t1 t2 t3], d)
          \<and> (ret = 0 \<longleftrightarrow> get_dev_by_drvid drvid (d_fw d) \<noteq> None)))"
proof -
  have "length (timestamp_dev_status d) = 1023" "length (timestamp_ops_result d) = 1023" "length (timestamp_notify_mid d) = 1023"
    using reachable_locks(2) [OF assms] by (simp_all add: arrays_ok_def)
  then show ?thesis
    by (auto simp: gdbus_update_status_pt_def at_def rd_def Let_def nat_less_iff split: option.splits)
qed

theorem update_status_bounds_witness:
  "gdbus_update_status_pt (-1) (scripted_taken []) = Inl Out_of_bounds"
  using update_status_bounds [OF scripted_good scripted_taken_reachable [unfolded scripted_daemon_def], of "-1"] by simp















section \<open>Cleaning everything\<close>

text \<open>Which devices are listed under which numbers.\<close>

definition same_ids :: "'p framework \<Rightarrow> 'p framework \<Rightarrow> bool" where
  "same_ids fw fw' \<longleftrightarrow> bio_dev_list fw' = bio_dev_list fw \<and> (\<forall>j. driver_id (fw_dev fw' j) = driver_id (fw_dev fw j))"

lemma same_ids_lookup: "same_ids fw fw' \<Longrightarrow> get_dev_by_drvid k fw' = get_dev_by_drvid k fw"
  by (simp add: same_ids_def get_dev_by_drvid_def)

lemma operate_dev_list: "operate i op d = Inr (x, d') \<Longrightarrow> bio_dev_list (d_fw d') = bio_dev_list (d_fw d)
    \<and> (\<forall>j. j \<noteq> i \<longrightarrow> fw_dev (d_fw d') j = fw_dev (d_fw d) j)"
  by (auto simp: operate_def elim!: on_framework_fw dest!: on_dev_only simp: only_dev_def)

lemma clean_single_ids:
  assumes "gdbus_clean_by_single_dev (Some i) u a b d = Inr (r, d')" "good_framework (d_fw d)"
    "i < length (bio_drv_list (d_fw d))"
  shows "same_ids (d_fw d) (d_fw d')"
    "get_dev_by_drvid (driver_id (fw_dev (d_fw d) i)) (d_fw d) = None \<Longrightarrow> r \<noteq> 0"
proof -
  let ?k = "driver_id (fw_dev (d_fw d) i)"
  show "same_ids (d_fw d) (d_fw d')"
  proof (cases "get_dev_by_drvid ?k (d_fw d) = None")
    case True
    then show ?thesis using assms(1) by (simp add: gdbus_clean_by_single_dev_def same_ids_def Let_def)
  next
    case False
    then obtain taken d1 where t: "pthread_mutex_trylock ?k d = Inr (taken, d1)"
      using assms(1) by (auto simp: gdbus_clean_by_single_dev_def Let_def bindR_eq_Inr)
    show ?thesis
    proof (cases taken)
      case True
      then obtain x d2 d3 where o: "operate i (\<lambda>ops. bio_ops_clean ops u a b) d1 = Inr (x, d2)"
        and l: "pthread_mutex_unlock (driver_id (fw_dev (d_fw d2) i)) d2 = Inr d3" and d': "d' = d3"
        using assms(1) False t by (auto simp: gdbus_clean_by_single_dev_def Let_def bindR_eq_Inr)
      have i: "i < length (bio_drv_list (d_fw d1))" using assms(3) trylock_result(5) [OF t] by simp
      obtain w w' where "bio_ops_clean (fw_ops (d_fw d1) i) u a b w = Inr (x, w')" "w_dev w = fw_dev (d_fw d1) i"
        "fw_dev (d_fw d2) i = w_dev w'"
        using operate_dev [OF o i] .
      then have "driver_id (fw_dev (d_fw d2) i) = ?k"
        using assms(2) trylock_result(5) [OF t] i by (fastforce simp: good_framework_def clean_keeps_id_def on_return_def)
      then show ?thesis
        using operate_dev_list [OF o] trylock_result(5) [OF t] unlock_result(2) [OF l] d'
        unfolding same_ids_def by metis
    qed (use assms(1) False t trylock_result(5) [OF t] in \<open>simp add: gdbus_clean_by_single_dev_def Let_def same_ids_def\<close>)
  qed
  show "r \<noteq> 0" if "get_dev_by_drvid ?k (d_fw d) = None"
    using assms(1) that by (auto simp: gdbus_clean_by_single_dev_def Let_def)
qed

lemma clean_drivers_error:
  "clean_drivers is u a b r0 d = Inr (r, d') \<Longrightarrow> good_framework (d_fw d) \<Longrightarrow>
   \<forall>i\<in>set is. i < length (bio_drv_list (d_fw d)) \<Longrightarrow>
   r0 \<noteq> 0 \<or> (\<exists>i\<in>set is. get_dev_by_drvid (driver_id (fw_dev (d_fw d) i)) (d_fw d) = None) \<Longrightarrow> r \<noteq> 0"
proof (induction "is" arbitrary: d r0)
  case (Cons i "is")
  obtain r1 d1 where c: "gdbus_clean_by_single_dev (Some i) u a b d = Inr (r1, d1)"
    "clean_drivers is u a b (if r0 = 0 then r1 else r0) d1 = Inr (r, d')"
    using Cons.prems(1) by (auto simp: bindR_eq_Inr clean_next_def)
  have i: "i < length (bio_drv_list (d_fw d))" using Cons.prems(3) by simp
  note k = clean_single_keeps(2) [OF c(1) Cons.prems(2)] clean_single_ids [OF c(1) Cons.prems(2) i]
  have len: "length (bio_drv_list (d_fw d1)) = length (bio_drv_list (d_fw d))" using k(1) i by (simp add: same_drivers_def)
  show ?case
  proof (rule Cons.IH [OF c(2)])
    show "good_framework (d_fw d1)" using good_same [OF _ Cons.prems(2)] k(1) i by simp
    show "\<forall>i\<in>set is. i < length (bio_drv_list (d_fw d1))" using Cons.prems(3) len by simp
    show "(if r0 = 0 then r1 else r0) \<noteq> 0
        \<or> (\<exists>i\<in>set is. get_dev_by_drvid (driver_id (fw_dev (d_fw d1) i)) (d_fw d1) = None)"
      using Cons.prems(4) k(3) same_ids_lookup [OF k(2)] k(2) by (auto simp: same_ids_def)
  qed
qed simp

text \<open>The store as the drivers leave it: no transaction is open, and the keys are unique.\<close>

abbreviation (input) fw_db :: "'p framework \<Rightarrow> database" where "fw_db fw \<equiv> s_db (w_store (fw_world fw))"

definition clean_settles :: "int \<Rightarrow> int \<Rightarrow> int \<Rightarrow> 'p framework \<Rightarrow> bool" where
  "clean_settles u a b fw \<longleftrightarrow> settled_db (fw_db fw) \<and> (\<forall>i < length (bio_drv_list fw). \<forall>w. settled_db (s_db (w_store w)) \<longrightarrow>
     on_return (bio_ops_clean (fw_ops fw i) u a b w) (\<lambda>(_, w'). settled_db (s_db (w_store w'))))"

lemma set_dev_world [simp]: "fw_world (set_dev i dev fw) = fw_world fw"
  by (simp add: set_dev_def)

lemma clean_single_settles:
  assumes "gdbus_clean_by_single_dev (Some i) u a b d = Inr (r, d')" "clean_settles u a b (d_fw d)"
    "i < length (bio_drv_list (d_fw d))" "same_drivers (d_fw d) (d_fw d')"
  shows "clean_settles u a b (d_fw d')"
proof -
  let ?k = "driver_id (fw_dev (d_fw d) i)"
  have "settled_db (fw_db (d_fw d'))"
  proof (cases "\<exists>d1 x d2. pthread_mutex_trylock ?k d = Inr (True, d1)
      \<and> operate i (\<lambda>ops. bio_ops_clean ops u a b) d1 = Inr (x, d2) \<and> d_fw d' = d_fw d2")
    case True
    then obtain d1 x d2 where o: "d_fw d1 = d_fw d" "operate i (\<lambda>ops. bio_ops_clean ops u a b) d1 = Inr (x, d2)" "d_fw d' = d_fw d2"
      using trylock_result(5) by blast
    obtain fw where fw: "on_dev i (bio_ops_clean (fw_ops (d_fw d) i) u a b)
        ((d_fw d)\<lparr>fw_world := (fw_world (d_fw d))\<lparr>w_calls := []\<rparr>, hotplug_calls := []\<rparr>) = Inr (x, fw)" "d_fw d2 = fw"
      using o(2) unfolding operate_def o(1) [symmetric] by (rule on_framework_fw)
    let ?w = "(fw_world (d_fw d))\<lparr>w_calls := [], w_dev := fw_dev (d_fw d) i\<rparr>"
    obtain w' where r: "bio_ops_clean (fw_ops (d_fw d) i) u a b ?w = Inr (x, w')"
      "fw = set_dev i (w_dev w') ((d_fw d)\<lparr>hotplug_calls := [], fw_world := w'\<rparr>)"
      using fw(1) by (auto simp: on_dev_def bindR_eq_Inr)
    have "on_return (bio_ops_clean (fw_ops (d_fw d) i) u a b ?w) (\<lambda>(_, w'). settled_db (s_db (w_store w')))"
      using assms(2,3) by (simp add: clean_settles_def)
    then have "settled_db (s_db (w_store w'))" using r(1) by (simp add: on_return_def)
    then show ?thesis using o(3) fw(2) r(2) by simp
  next
    case False
    then have "d_fw d' = d_fw d"
      using assms(1) by (auto simp: gdbus_clean_by_single_dev_def Let_def bindR_eq_Inr
          split: if_splits dest: unlock_result(2) trylock_result(5))
    then show ?thesis using assms(2) by (simp add: clean_settles_def)
  qed
  then show ?thesis using assms(2,4) by (simp add: clean_settles_def same_drivers_def)
qed

lemma clean_drivers_settles:
  "clean_drivers is u a b r0 d = Inr (r, d') \<Longrightarrow> good_framework (d_fw d) \<Longrightarrow>
   \<forall>i\<in>set is. i < length (bio_drv_list (d_fw d)) \<Longrightarrow> clean_settles u a b (d_fw d) \<Longrightarrow> settled_db (fw_db (d_fw d'))"
proof (induction "is" arbitrary: d r0)
  case (Cons i "is")
  obtain r1 d1 where c: "gdbus_clean_by_single_dev (Some i) u a b d = Inr (r1, d1)"
    "clean_drivers is u a b (if r0 = 0 then r1 else r0) d1 = Inr (r, d')"
    using Cons.prems(1) by (auto simp: bindR_eq_Inr clean_next_def)
  have i: "i < length (bio_drv_list (d_fw d))" using Cons.prems(3) by simp
  then have k: "same_drivers (d_fw d) (d_fw d1)" using clean_single_keeps(2) [OF c(1) Cons.prems(2)] by simp
  show ?case
    by (rule Cons.IH [OF c(2) good_same [OF k Cons.prems(2)] _ clean_single_settles [OF c(1) Cons.prems(4) i k]])
      (use Cons.prems(3) k in \<open>simp add: same_drivers_def\<close>)
qed (simp add: clean_settles_def)

lemma clean_rows:
  assumes "bio_sto_clean_feature_info db u bt None a b s = (0, s')"
  shows "list_all (\<lambda>x. \<not> row_selected u bt None a b x) (eigen_rows (tables_of (s_db s')))" "db_saved (s_db s') = db_saved (s_db s)"
proof -
  obtain ok e where p: "sqlite3_prepare db (has_eigen_info (tables_of (s_db s))) (s_db s) = (ok, e)" by fastforce
  obtain ok' e' where st: "sqlite3_step True (upd_rows (filter (\<lambda>x. \<not> row_selected u bt None a b x))) e = (ok', e')" by fastforce
  show "list_all (\<lambda>x. \<not> row_selected u bt None a b x) (eigen_rows (tables_of (s_db s')))" "db_saved (s_db s') = db_saved (s_db s)"
    using assms p st prepare_cases [OF p] step_cases [OF st]
    by (auto simp: bio_sto_clean_feature_info_def Let_def list_all_iff eigen_rows_upd_has simp del: eigen_rows_upd split: if_splits)
qed

text \<open>
  C26. Cleaning all devices answers 0 or an error. After 0 no row of the user within the indexes is
  left, whichever driver stored it. As soon as one loaded driver has no device connected the
  answer is an error, also when every row was deleted.
\<close>

theorem clean_all_answer:
  assumes "good_framework (d_fw d)" "clean_settles uid a b (d_fw d)"
    "authorized c uid POLKIT_CLEAN_OWN_ACTION_ID POLKIT_CLEAN_ADMIN_ACTION_ID"
    "gdbus_clean_pt c (-1) uid a b d = Inr (rs, d')"
  shows "(rs = [Complete_clean (- ret_code RetOpsSuccess)]
      \<and> list_all (\<lambda>x. \<not> row_selected uid (-1) None a b x) (eigen_rows (tables_of (s_db (w_store (fw_world (d_fw d'))))))
      \<and> list_all (\<lambda>(dev, _). get_dev_by_drvid (driver_id dev) (d_fw d) \<noteq> None) (bio_drv_list (d_fw d)))
    \<or> rs = [Complete_clean (- ret_code RetOpsError)]"
proof (cases "rs = [Complete_clean (- ret_code RetOpsError)]")
  case False
  let ?is = "[0..<length (bio_drv_list (d_fw d))]"
  have "is": "\<forall>i\<in>set ?is. i < length (bio_drv_list (d_fw d))" by simp
  obtain r1 d1 r2 where run: "clean_drivers ?is uid a b 0 d = Inr (r1, d1)" "clean_system uid a b d1 = Inr (r2, d')"
    "rs = [Complete_clean (if r2 = 0 then if r1 \<noteq> 0 then - ret_code RetOpsError else r1 else - ret_code RetOpsError)]"
    using assms(3,4) by (auto simp: gdbus_clean_pt_def clean_start_def clean_finish_def bindR_eq_Inr Let_def)
  then have r: "r1 = 0" "r2 = 0" using False by (auto split: if_splits)
  have listed: "get_dev_by_drvid (driver_id (fw_dev (d_fw d) n)) (d_fw d) \<noteq> None" if "n < length (bio_drv_list (d_fw d))" for n
  proof -
    have "n \<in> set ?is" using that by simp
    then show ?thesis using clean_drivers_error [OF run(1) assms(1) "is"] r(1) by metis
  qed
  moreover obtain db s where s: "bio_sto_connect_db (w_store (fw_world (d_fw d1))) = Inr (db, s)"
    using run(2) by (auto simp: clean_system_def bindR_eq_Inr)
  moreover obtain r3 s2 where c3: "bio_sto_clean_feature_info db uid (-1) None a b s = (r3, s2)" by fastforce
  ultimately have c: "bio_sto_clean_feature_info db uid (-1) None a b s = (0, s2)"
    and d': "w_store (fw_world (d_fw d')) = bio_sto_disconnect_db s2"
    using run(2) r(2) by (auto simp: clean_system_def set_store_def)
  have "settled_db (s_db s)"
    using connect_frame [of "w_store (fw_world (d_fw d1))" 0 0 "[]"] s clean_drivers_settles [OF run(1) assms(1) "is" assms(2)]
    by (auto simp: on_return_def frame_def)
  then have "s_db s2 = fw_db (d_fw d')" using clean_rows(2) [OF c] d' by (simp add: settled_db_def bio_sto_disconnect_db_def)
  then show ?thesis
    using listed clean_rows(1) [OF c] run(3) r by (auto simp: list_all_length fw_dev_def case_prod_beta)
qed simp

text \<open>Nobody has stored anything, and the one device there is, is gone.\<close>

definition all_granted :: caller where
  "all_granted = \<lparr>unix_user = Some 7, unix_process_id = Some 4242, polkit_authorized = (\<lambda>_. Some True)\<rparr>"

definition unplugged_daemon :: "int list daemon" where
  "unplugged_daemon = bus_acquired_cb (new_daemon (0, 0) ((scripted_fw [])\<lparr>bio_dev_list := []\<rparr>))"

lemma unplugged_clean:
  "bindR (gdbus_clean_pt all_granted (-1) 7 0 (-1) unplugged_daemon) (\<lambda>(rs, d'). Inr rs) = Inr [Complete_clean (-2)]"
  by code_simp

lemma unplugged_ready: "good_framework (d_fw unplugged_daemon)" "clean_settles 7 0 (-1) (d_fw unplugged_daemon)"
proof -
  have d: "bio_drv_list (d_fw unplugged_daemon) = [(idle_dev, scripted_ops)]" "bio_dev_list (d_fw unplugged_daemon) = []"
    "fw_db (d_fw unplugged_daemon) = s_db (ready_store [])"
    by (simp_all add: unplugged_daemon_def bus_acquired_cb_def new_daemon_def scripted_fw_def counting_fw_def)
  then show "good_framework (d_fw unplugged_daemon)" "clean_settles 7 0 (-1) (d_fw unplugged_daemon)"
    using scripted_clean
    by (auto simp: good_framework_def clean_keeps_id_def clean_settles_def on_return_def fw_ops_def settled_db_def keyed_def
        ready_store_def demo_store_def tables_of_def)
qed

theorem clean_all_answer_witness:
  "\<exists>rs d'. gdbus_clean_pt all_granted (-1) 7 0 (-1) unplugged_daemon = Inr (rs, d') \<and> rs = [Complete_clean (-2)]"
proof -
  obtain rs d' where run: "gdbus_clean_pt all_granted (-1) 7 0 (-1) unplugged_daemon = Inr (rs, d')" "rs = [Complete_clean (-2)]"
    using unplugged_clean by (fastforce simp: bindR_eq_Inr)
  moreover have "authorized all_granted 7 POLKIT_CLEAN_OWN_ACTION_ID POLKIT_CLEAN_ADMIN_ACTION_ID"
    by (simp add: authorized_iff all_granted_def)
  ultimately show ?thesis using clean_all_answer [OF unplugged_ready _ run(1)] by auto
qed

end
