(* ===== verification/Daemon_Start.thy ===== *)
theory Daemon_Start
  imports Daemon_Laws
begin

text \<open>
  The service from its start: what \<open>main\<close> hands to its loop when it loads the community drivers,
  and what stays true from then on.
\<close>

section \<open>The loaded drivers\<close>

text \<open>Every loaded driver has the hooks its file configured.\<close>

lemma free_driver_hooks: "bio_free_driver fw = Inr fw' \<Longrightarrow> bio_drv_list fw' = []"
  by (auto simp: bio_free_driver_def bindR_eq_Inr)

lemma watch_usb_list: "watch_usb dev fw = Inr fw' \<Longrightarrow> bio_drv_list fw' = bio_drv_list fw"
  by (auto simp: watch_usb_def split: if_splits option.splits)

lemma load_drivers_all:
  assumes "\<And>path p cfg fw drv w. path \<noteq> '''' \<Longrightarrow> dlopen path = Some p \<Longrightarrow> ops_configure p = Some cfg \<Longrightarrow>
      init_driver conf cfg fw = Inr (Some drv, w) \<Longrightarrow> P drv"
  shows "load_drivers conf dlopen gs fw = Inr (ok, fw') \<Longrightarrow> list_all P (bio_drv_list fw) \<Longrightarrow> list_all P (bio_drv_list fw')"
proof (induction gs arbitrary: fw)
  case (Cons g gs)
  show ?case
  proof (cases "g \<noteq> '''' \<and> kf_string conf g ''Driver'' \<noteq> None \<and> kf_string conf g ''Driver'' \<noteq> Some ''''")
    case False
    then show ?thesis using Cons free_driver_hooks by (fastforce simp: bindR_eq_Inr split: option.splits if_splits)
  next
    case True
    then obtain path where path: "g \<noteq> ''''" "kf_string conf g ''Driver'' = Some path" "path \<noteq> ''''" by auto
    show ?thesis
    proof (cases "dlopen path")
      case None
      then show ?thesis using Cons path by simp
    next
      case (Some p)
      then obtain cfg d w where c: "ops_configure p = Some cfg" "init_driver conf cfg fw = Inr (d, w)"
        using Cons.prems(1) path by (cases "ops_configure p") (auto simp: bindR_eq_Inr)
      show ?thesis
      proof (cases d)
        case None
        then show ?thesis using Cons path Some c by simp
      next
        case (Some drv)
        then obtain fw2 where w2: "watch_usb (fst drv) (fw\<lparr>fw_world := w, bio_drv_list := bio_drv_list fw @ [drv]\<rparr>) = Inr fw2"
          "load_drivers conf dlopen gs fw2 = Inr (ok, fw')"
          using Cons.prems(1) path \<open>dlopen path = Some p\<close> c by (auto simp: bindR_eq_Inr)
        have "P drv" using assms [OF path(3) \<open>dlopen path = Some p\<close> c(1)] c(2) Some by blast
        then show ?thesis using Cons.IH [OF w2(2)] Cons.prems(2) watch_usb_list [OF w2(1)] by simp
      qed
    qed
  qed
qed simp

text \<open>A driver of the community has its hooks, and the name of its file.\<close>

definition named :: "bio_dev \<Rightarrow> bool" where
  "named dev \<longleftrightarrow> device_name dev \<noteq> None \<and> device_name dev \<noteq> Some ''''"

lemma init_driver_steps:
  assumes "init_driver conf cfg fw = Inr (Some drv, w)"
  obtains ops w1 r w2 f where "cfg (map fst (bio_drv_list fw)) conf ((fw_world fw)\<lparr>w_dev := bio_dev_new\<rparr>) = Inr (0, ops, w1)"
    "ops_driver_init ops = Some f" "f w1 = Inr (r, w2)" "snd drv = ops" "device_name (fst drv) = device_name (w_dev w2)"
proof -
  obtain r1 ops w1 where c: "cfg (map fst (bio_drv_list fw)) conf ((fw_world fw)\<lparr>w_dev := bio_dev_new\<rparr>) = Inr (r1, ops, w1)"
    using assms by (auto simp: init_driver_def bindR_eq_Inr)
  then have "r1 = 0" using assms by (auto simp: init_driver_def Let_def split: if_splits)
  obtain f r w2 where f: "ops_driver_init ops = Some f" "f w1 = Inr (r, w2)"
    "snd drv = ops" "device_name (fst drv) = device_name (w_dev w2)"
    using assms c \<open>r1 = 0\<close>
    by (cases "ops_driver_init ops") (auto simp: init_driver_def bindR_eq_Inr Let_def setter_defs split: if_splits)
  show ?thesis by (rule that [OF c [unfolded \<open>r1 = 0\<close>] f])
qed

lemma community_loaded:
  assumes "path \<noteq> ''''" "community_dlopen h lib files path = Some p" "ops_configure p = Some cfg"
    "init_driver conf cfg fw = Inr (Some drv, w)"
  shows "community_hooks h lib (snd drv) \<and> named (fst drv)"
proof -
  obtain t where "configures h lib files cfg path t" using dlopen_configures assms(2,3) by blast
  then obtain full ops' where cfg: "cfg = community_configure files path full t ops'" "community_hooks h lib ops'"
    by (auto simp: configures_def)
  obtain ops w1 r w2 f where i: "cfg (map fst (bio_drv_list fw)) conf ((fw_world fw)\<lparr>w_dev := bio_dev_new\<rparr>) = Inr (0, ops, w1)"
    "ops_driver_init ops = Some f" "f w1 = Inr (r, w2)" "snd drv = ops" "device_name (fst drv) = device_name (w_dev w2)"
    using init_driver_steps [OF assms(4)] .
  have ops: "ops = ops'" "device_name (w_dev w1) = Some path"
    using i(1) unfolding cfg by (auto simp: community_configure_def bindR_eq_Inr Let_def bio_set_drv_api_version_def)
  have "f = community_ops_driver_init" using community_hooks_init [OF cfg(2)] i(2) ops(1) by simp
  then have "w_dev w2 = w_dev w1" using keeps_dev_init [of w1] i(3) by (simp add: on_return_def)
  then show ?thesis using cfg(2) i(4,5) ops assms(1) by (simp add: named_def)
qed

lemma hooks_clean_id:
  assumes "community_hooks h lib ops"
  shows "on_return (bio_ops_clean ops u a b w) (\<lambda>(_, w'). driver_id (w_dev w') = driver_id (w_dev w))"
proof -
  obtain cap where cap: "ops = (community_ops h lib)\<lparr>ops_capture := cap\<rparr>" "cap = None \<or> cap = Some community_ops_capture"
    using assms by (auto simp: community_hooks_def)
  then have ops: "ops = (community_ops h lib)\<lparr>ops_capture := if cap = None then None else Some community_ops_capture\<rparr>" by auto
  have "on_return (bio_ops_clean ops u a b w) (\<lambda>(_, w'). guarantee u w w')"
    using community.session_ops_guar(6) [where u = u and cap = "cap \<noteq> None" and h = h and lib = lib]
    unfolding ops by (auto split: if_splits)
  then show ?thesis by (rule on_return_mono) (auto simp: guarantee_def dest: identity_fields(3))
qed

lemma on_return_all: "(\<And>x. P x) \<Longrightarrow> on_return m P"
  by (simp add: on_return_def split: sum.split)

lemma keeps_dev_community_discover: "on_return (community_ops_discover w) (\<lambda>(_, w'). w_dev w' = w_dev w)"
proof -
  have "on_return (bindR (device_discover w1) (\<lambda>(ret, w). Inr (if ret < 0 then -1 else if ret = 0 then 0 else ret, w)))
      (\<lambda>(_, w'). w_dev w' = w_dev w)" if "w_dev w1 = w_dev w" for w1 :: "('a, 'b) cworld"
    unfolding on_return_bind that [symmetric]
    by (rule on_return_mono [OF keeps_dev_discover]) (simp add: case_prod_beta)
  then have d: "on_return (let w = (if debug then setenv_if_unset ''G_MESSAGES_DEBUG'' ''all'' w else w)
     in bindR (device_discover w) (\<lambda>(ret, w). Inr (if ret < 0 then -1 else if ret = 0 then 0 else ret, w)))
      (\<lambda>(_, w'). w_dev w' = w_dev w)" for debug
    by (simp add: Let_def setenv_if_unset_def)
  show ?thesis
    unfolding community_ops_discover_def
    by (subst on_return_bind, rule on_return_all, subst on_return_bind, rule on_return_all, rule d)
qed

section \<open>The list of devices\<close>

lemma driver_ids_fw_dev: "driver_ids fw = map (\<lambda>i. driver_id (fw_dev fw i)) [0..<length (bio_drv_list fw)]"
  by (rule nth_equalityI) (auto simp: driver_ids_def fw_dev_def case_prod_beta)

definition hooks_of :: "host \<Rightarrow> ('pr, 'sc) fp_lib \<Rightarrow> ('pr, 'sc) driver_info framework \<Rightarrow> bool" where
  "hooks_of h lib fw \<longleftrightarrow> (\<forall>i < length (bio_drv_list fw). community_hooks h lib (fw_ops fw i))"

lemma discover_ids:
  assumes "discover i fw = Inr fw'" "hooks_of h lib fw" "i < length (bio_drv_list fw)"
  shows "driver_ids fw' = driver_ids fw" "hooks_of h lib fw'" "length (bio_drv_list fw') = length (bio_drv_list fw)"
    "device_name (fw_dev fw' j) = device_name (fw_dev fw j)"
proof -
  note o = discover_only [OF assms(1)]
  then show len: "length (bio_drv_list fw') = length (bio_drv_list fw)" by (simp add: only_dev_def)
  show "hooks_of h lib fw'" using o assms(2) by (simp add: hooks_of_def only_dev_def)
  have "ops_discover (fw_ops fw i) = Some community_ops_discover"
    using assms(2,3) by (auto simp: hooks_of_def community_hooks_def community_ops_def)
  then obtain n w' where d: "community_ops_discover ((fw_world fw)\<lparr>w_dev := fw_dev fw i\<rparr>) = Inr (n, w')"
    "fw' = set_dev i ((fw_dev (set_dev i (w_dev w') (fw\<lparr>fw_world := w'\<rparr>)) i)\<lparr>dev_num := n\<rparr>) (set_dev i (w_dev w') (fw\<lparr>fw_world := w'\<rparr>))"
    using assms(1) by (auto simp: discover_def hook_on_def on_dev_def bindR_eq_Inr)
  then have i: "driver_id (fw_dev fw' i) = driver_id (fw_dev fw i)" "device_name (fw_dev fw' i) = device_name (fw_dev fw i)"
    using keeps_dev_community_discover [of "(fw_world fw)\<lparr>w_dev := fw_dev fw i\<rparr>"] assms(3)
    by (simp_all add: on_return_def set_dev_def fw_dev_def)
  show "device_name (fw_dev fw' j) = device_name (fw_dev fw j)"
    using o i(2) by (cases "j = i") (simp_all add: only_dev_def)
  have "driver_id (fw_dev fw' j) = driver_id (fw_dev fw j)" for j
    using o i(1) by (cases "j = i") (simp_all add: only_dev_def)
  then show "driver_ids fw' = driver_ids fw" by (simp add: driver_ids_fw_dev len)
qed

lemma discover_devices_ids:
  "discover_devices is fw = Inr (l, fw') \<Longrightarrow> hooks_of h lib fw \<Longrightarrow> \<forall>i\<in>set is. i < length (bio_drv_list fw) \<Longrightarrow>
   driver_ids fw' = driver_ids fw \<and> hooks_of h lib fw' \<and> (\<forall>j. device_name (fw_dev fw' j) = device_name (fw_dev fw j))"
proof (induction "is" arbitrary: fw l)
  case (Cons i "is")
  show ?case
  proof (cases "enable (fw_dev fw i) = 0")
    case True
    then show ?thesis using Cons by auto
  next
    case False
    then obtain fw1 l1 where d: "discover i fw = Inr fw1" "discover_devices is fw1 = Inr (l1, fw')"
      using Cons.prems by (auto simp: bindR_eq_Inr)
    then show ?thesis using discover_ids [OF d(1) Cons.prems(2)] Cons.IH [OF d(2)] Cons.prems(3) by auto
  qed
qed simp

lemma device_list_init_ids:
  assumes "bio_device_list_init fw = Inr (l, fw')" "hooks_of h lib fw"
  shows "driver_ids fw' = driver_ids fw" "hooks_of h lib fw'"
    "bio_dev_list fw' = filter (\<lambda>i. enable (fw_dev fw i) \<noteq> 0 \<and> 0 < dev_num (fw_dev fw' i)) [0..<length (bio_drv_list fw)]"
    "length (bio_drv_list fw') = length (bio_drv_list fw)"
    "device_name (fw_dev fw' j) = device_name (fw_dev fw j)"
proof -
  obtain fw1 where d: "discover_devices [0..<length (bio_drv_list fw)] fw = Inr (l, fw1)" "fw' = fw1\<lparr>bio_dev_list := l\<rparr>"
    using assms(1) by (auto simp: bio_device_list_init_def bindR_eq_Inr)
  show "driver_ids fw' = driver_ids fw" "hooks_of h lib fw'" "length (bio_drv_list fw') = length (bio_drv_list fw)"
    "device_name (fw_dev fw' j) = device_name (fw_dev fw j)"
    using discover_devices_ids [OF d(1) assms(2)] discover_devices_only [OF d(1)] d(2)
    by (simp_all add: driver_ids_def hooks_of_def fw_dev_def)
  show "bio_dev_list fw' = filter (\<lambda>i. enable (fw_dev fw i) \<noteq> 0 \<and> 0 < dev_num (fw_dev fw' i)) [0..<length (bio_drv_list fw)]"
    using discover_devices_correct [OF d(1)] d(2) by (simp add: fw_dev_def)
qed

section \<open>The start\<close>

lemma started_framework:
  assumes "InitBioDevice h conf u (community_dlopen h lib files) fw = Inr (0, fw')" "bio_drv_list fw = []"
  shows "good_framework fw'" "distinct (driver_ids fw')" "\<forall>i\<in>set (driver_ids fw'). 100 \<le> i \<and> i \<le> 1023"
    "distinct (bio_dev_list fw')" "\<forall>i\<in>set (bio_dev_list fw'). 0 < dev_num (fw_dev fw' i)"
    "hooks_of h lib fw'" "i < length (bio_drv_list fw') \<Longrightarrow> named (fw_dev fw' i)"
proof -
  obtain s l fw1 l' where run: "bio_driver_list_init conf (community_dlopen h lib files)
      (fw\<lparr>fw_world := set_store s (fw_world fw)\<rparr>) = Inr (l, fw1)" "bio_device_list_init fw1 = Inr (l', fw')"
    using assms(1) by (auto simp: InitBioDevice_def bindR_eq_Inr Let_def split: if_splits)
  have ids: "distinct (driver_ids fw1) \<and> (\<forall>i\<in>set (driver_ids fw1). 100 \<le> i \<and> i \<le> 1023)"
    using community_ids.loaded_ids [of "fw\<lparr>fw_world := set_store s (fw_world fw)\<rparr>" conf] run(1) assms(2)
    by (auto simp: on_return_def)
  have all: "list_all (\<lambda>drv. community_hooks h lib (snd drv) \<and> named (fst drv)) (bio_drv_list fw1)"
  proof (cases conf)
    case None
    then show ?thesis using run(1) assms(2) by (auto simp: bio_driver_list_init_def)
  next
    case (Some c)
    then obtain ok where "load_drivers c (community_dlopen h lib files) (kf_groups c)
        (fw\<lparr>fw_world := set_store s (fw_world fw)\<rparr>) = Inr (ok, fw1)"
      using run(1) by (auto simp: bio_driver_list_init_def bindR_eq_Inr)
    then show ?thesis
      by (rule load_drivers_all [rotated 1]) (simp add: assms(2), erule (3) community_loaded)
  qed
  then have hooks: "hooks_of h lib fw1" by (auto simp: hooks_of_def fw_ops_def list_all_length)
  note d = device_list_init_ids [OF run(2) hooks]
  show "hooks_of h lib fw'" by (rule d(2))
  show "named (fw_dev fw' i)" if "i < length (bio_drv_list fw')"
    using all that d(4,5) by (simp add: list_all_length named_def fw_dev_def)
  show "distinct (driver_ids fw')" "\<forall>i\<in>set (driver_ids fw'). 100 \<le> i \<and> i \<le> 1023" using d(1) ids by simp_all
  show "distinct (bio_dev_list fw')" "\<forall>i\<in>set (bio_dev_list fw'). 0 < dev_num (fw_dev fw' i)" by (auto simp: d(3))
  have "clean_keeps_id fw'" using d(2) unfolding clean_keeps_id_def hooks_of_def by (blast intro: hooks_clean_id)
  then show "good_framework fw'" by (auto simp: good_framework_def d(3,4) list_all_iff)
qed

text \<open>
  C14. Where \<open>main\<close> goes on to its loop with the community drivers, it runs as root and holds the lock
  of its PID file; the drivers have ids of their own between 100 and 1023, the list of devices
  has each driver at most once and only with a device, and the service starts in a state from
  which the guarantees of all its later states follow: no lock held, all arrays of their size.
\<close>

theorem service_starts:
  assumes "bio_drv_list fw = []"
    "daemon_main env h conf u (community_dlopen h lib files) now fw = Inr (Inr d)"
  shows "getuid env = 0 \<and> can_open env (pid_file env) \<and> can_flock env (pid_file env)
    \<and> distinct (driver_ids (d_fw d)) \<and> (\<forall>i\<in>set (driver_ids (d_fw d)). 100 \<le> i \<and> i \<le> 1023)
    \<and> distinct (bio_dev_list (d_fw d)) \<and> (\<forall>i\<in>set (bio_dev_list (d_fw d)). 0 < dev_num (fw_dev (d_fw d) i))
    \<and> (\<exists>fw'. good_framework fw' \<and> d = bus_acquired_cb (new_daemon now fw')) \<and> daemon_inv (d, []) \<and> arrays_ok d"
proof -
  obtain fw' where run: "InitBioDevice h conf u (community_dlopen h lib files) fw = Inr (0, fw')"
    and d: "d = bus_acquired_cb (new_daemon now fw')"
    and env: "getuid env = 0" "can_open env (pid_file env)" "can_flock env (pid_file env)"
    using assms(2) by (auto simp: daemon_main_def bindR_eq_Inr split: if_splits)
  note s = started_framework [OF run assms(1)]
  have "driver_ids (d_fw d) = driver_ids fw'" "bio_dev_list (d_fw d) = bio_dev_list fw'" "fw_dev (d_fw d) = fw_dev fw'"
    by (simp_all add: d bus_acquired_cb_def new_daemon_def driver_ids_def fw_dev_def fun_eq_iff)
  then show ?thesis using s env d new_daemon_inv(1) [OF s(1), of now] new_daemon_inv(2) [of now fw'] by simp blast
qed

definition demo_env :: process_env where
  "demo_env = \<lparr>getuid = 0, is_directory = (\<lambda>p. p = ''/tmp/''), can_open = (\<lambda>_. True), can_flock = (\<lambda>_. True)\<rparr>"

lemma demo_starts:
  "bindR (daemon_main demo_env demo_host (Some (demo_conf\<lparr>kf_groups := []\<rparr>)) 0 (community_dlopen demo_host demo_lib demo_files) (0, 0) no_drivers)
     (\<lambda>r. case r of Inl e \<Rightarrow> Inr [e] | Inr d \<Rightarrow> Inr (map (\<lambda>i. driver_id (fw_dev (d_fw d) i)) (bio_dev_list (d_fw d)))) = Inr []"
  by code_simp

theorem service_starts_witness:
  "\<exists>d. daemon_main demo_env demo_host (Some (demo_conf\<lparr>kf_groups := []\<rparr>)) 0 (community_dlopen demo_host demo_lib demo_files) (0, 0) no_drivers
      = Inr (Inr d) \<and> daemon_inv (d, []) \<and> distinct (driver_ids (d_fw d))"
proof -
  obtain r where r: "daemon_main demo_env demo_host (Some (demo_conf\<lparr>kf_groups := []\<rparr>)) 0
      (community_dlopen demo_host demo_lib demo_files) (0, 0) no_drivers = Inr r"
    and on: "(case r of Inl e \<Rightarrow> Inr [e] | Inr d \<Rightarrow> Inr (map (\<lambda>i. driver_id (fw_dev (d_fw d) i)) (bio_dev_list (d_fw d)))) = (Inr [] :: int list res)"
    using demo_starts unfolding bindR_eq_Inr by blast
  then obtain d where "r = Inr d" by (cases r) auto
  then show ?thesis using service_starts [OF _ r [unfolded \<open>r = Inr d\<close>]] r by (auto simp: no_drivers_def)
qed

section \<open>In every state\<close>

lemma step_same:
  assumes "daemon_step c c'" "daemon_inv c"
  shows "same_drivers (d_fw (fst c)) (d_fw (fst c'))"
  using assms
proof cases
  case (go_on n ts d t d')
  have "thread_ok (length (bio_drv_list (d_fw d))) (ts ! n)" "good_framework (d_fw d)"
    using go_on assms(2) by (simp_all add: daemon_inv_def list_all_length)
  then show ?thesis using advance_locks(1) [OF go_on(4)] go_on(1,2) by simp
next
  case (plug desc d r d' ts)
  then show ?thesis by (fastforce elim!: on_framework_fw dest: attach_same)
next
  case (unplug desc d r d' ts)
  then show ?thesis by (fastforce elim!: on_framework_fw dest: detach_same)
qed (simp_all add: same_drivers_refl)

lemma reachable_same: "reachable d0 c \<Longrightarrow> daemon_inv (d0, []) \<Longrightarrow> same_drivers (d_fw d0) (d_fw (fst c))"
proof (induction rule: reachable.induct)
  case (after c c')
  then show ?case using step_same [OF after(2) reachable_inv [OF after(1,4)]] same_drivers_trans by blast
qed (simp add: same_drivers_refl)

text \<open>
  C15. The state stays well formed: in every state the service can reach, the four arrays have an entry
  for each of the \<open>MAX_DEVICES\<close> numbers, the drivers and their hooks are those it started with, and the
  list of devices points to them.
\<close>

theorem reachable_well_formed:
  assumes "good_framework fw" "reachable (bus_acquired_cb (new_daemon now fw)) (d, ts)"
  shows "arrays_ok d \<and> length (bio_drv_list (d_fw d)) = length (bio_drv_list fw) \<and> fw_ops (d_fw d) = fw_ops fw
    \<and> list_all (\<lambda>i. i < length (bio_drv_list (d_fw d))) (bio_dev_list (d_fw d))"
proof -
  have "same_drivers fw (d_fw d)"
    using reachable_same [OF assms(2) new_daemon_inv(1) [OF assms(1)]]
    by (auto simp: bus_acquired_cb_def new_daemon_def same_drivers_def fw_ops_def fun_eq_iff)
  then show ?thesis using reachable_locks [OF assms] by (simp add: same_drivers_def daemon_inv_def good_framework_def)
qed

theorem reachable_well_formed_witness:
  "arrays_ok (scripted_taken []) \<and> length (bio_drv_list (d_fw (scripted_taken []))) = 1"
  using reachable_well_formed [OF scripted_good scripted_taken_reachable [unfolded scripted_daemon_def], of "[]"]
  by (simp add: scripted_fw_def)

end
