(* ===== verification/Daemon_Data.thy ===== *)
theory Daemon_Data
  imports Daemon_Start
begin

text \<open>
  Whose features the service touches: over any sequence of requests, steps of threads, devices that
  come and go, and whichever calls of the database fail, the rows of a user change only when a
  request about that user has arrived that enrolls, cleans or renames and whose caller is authorised. And what
  other threads do to a device that one has locked.
\<close>

section \<open>The rows of a user\<close>

definition user_rows :: "int \<Rightarrow> store \<Rightarrow> eigen_row list" where
  "user_rows x s = filter (\<lambda>r. r_uid r = x) (eigen_rows (tables_of (s_db s)))"

definition keeps_user :: "int \<Rightarrow> store \<Rightarrow> store \<Rightarrow> bool" where
  "keeps_user x s s' \<longleftrightarrow> (settled_db (s_db s) \<longrightarrow> settled_db (s_db s') \<and> user_rows x s' = user_rows x s)"

lemma keeps_user_refl: "keeps_user x s s"
  by (simp add: keeps_user_def)

lemma keeps_user_trans: "keeps_user x s s' \<Longrightarrow> keeps_user x s' s'' \<Longrightarrow> keeps_user x s s''"
  by (simp add: keeps_user_def)

lemma others_user:
  "u \<noteq> x \<Longrightarrow> u \<noteq> -1 \<Longrightarrow> user_rows x s = filter (\<lambda>r. r_uid r = x) (others u b d (tables_of (s_db s)))"
  by (auto simp: user_rows_def others_def mine_def intro: filter_cong)

lemma frame_keeps: "frame u b d s s' \<Longrightarrow> u \<noteq> x \<Longrightarrow> u \<noteq> -1 \<Longrightarrow> keeps_user x s s'"
  by (simp add: keeps_user_def frame_def others_user [of u x _ b d])

text \<open>
  The same for a call on a device, which has a name; the call keeps the identity of the device. With \<open>None\<close> for
  the user, only that.
\<close>

definition keeps_users :: "int option \<Rightarrow> store \<Rightarrow> store \<Rightarrow> bool" where
  "keeps_users x s s' \<longleftrightarrow> (case x of None \<Rightarrow> True | Some u \<Rightarrow> keeps_user u s s')"

lemma keeps_users_refl: "keeps_users x s s"
  by (simp add: keeps_users_def keeps_user_refl split: option.split)

lemma keeps_users_trans: "keeps_users x s s' \<Longrightarrow> keeps_users x s' s'' \<Longrightarrow> keeps_users x s s''"
  by (cases x) (auto simp: keeps_users_def intro: keeps_user_trans)

lemma keeps_users_same: "w_store w' = w_store w \<Longrightarrow> keeps_users x (w_store w) (w_store w')"
  by (simp add: keeps_users_refl)

text \<open>Whether what is for one user is for none of those to be spared (-1 being everybody).\<close>

definition apart :: "int \<Rightarrow> int option \<Rightarrow> bool" where
  "apart u x \<longleftrightarrow> x = None \<or> x \<noteq> Some u \<and> u \<noteq> -1"

lemma frame_keeps_users: "frame u b d s s' \<Longrightarrow> apart u x \<Longrightarrow> keeps_users x s s'"
  by (auto simp: keeps_users_def apart_def split: option.split intro: frame_keeps)

definition spares :: "int option \<Rightarrow> 'p bio_world \<Rightarrow> 'p bio_world \<Rightarrow> bool" where
  "spares x w w' \<longleftrightarrow> identity (w_dev w') = identity (w_dev w) \<and> (named (w_dev w) \<longrightarrow> keeps_users x (w_store w) (w_store w'))"

lemma named_identity: "identity d = identity d' \<Longrightarrow> named d \<longleftrightarrow> named d'"
  by (simp add: named_def identity_fields(1) [of d d'])

lemma spares_refl: "spares x w w"
  by (simp add: spares_def keeps_users_refl)

lemma spares_trans: "spares x w w' \<Longrightarrow> spares x w' w'' \<Longrightarrow> spares x w w''"
  unfolding spares_def using named_identity [of "w_dev w'" "w_dev w"]
  by (metis keeps_users_trans)

lemma guarantee_spares: "guarantee u w w' \<Longrightarrow> apart u x \<Longrightarrow> spares x w w'"
  by (auto simp: guarantee_def spares_def named_def intro: frame_keeps_users)

lemma spares_seq:
  assumes "on_return m (\<lambda>(_, w'). spares x w w')" "\<And>y w'. on_return (k y w') (\<lambda>(_, w''). spares x w' w'')"
  shows "on_return (bindR m (\<lambda>(y, w'). k y w')) (\<lambda>(_, w''). spares x w w'')"
proof (cases m)
  case (Inr p)
  then have "on_return (k (fst p) (snd p)) (\<lambda>(_, w''). spares x w w'')"
    using assms(1) by (auto simp: case_prod_beta intro: on_return_mono [OF assms(2)] spares_trans)
  then show ?thesis using Inr by (simp add: case_prod_beta)
qed simp

section \<open>Operations\<close>

definition op_spares ::
    "host \<Rightarrow> ('pr, 'sc) fp_lib \<Rightarrow> int option \<Rightarrow>
     (('pr, 'sc) driver_info driver_ops \<Rightarrow> (('pr, 'sc) driver_info, 'a) call) \<Rightarrow> bool" where
  "op_spares h lib x op \<longleftrightarrow>
     (\<forall>ops w. community_hooks h lib ops \<longrightarrow> on_return (op ops w) (\<lambda>(_, w'). spares x w w'))"

text \<open>Somebody else, who is not everybody.\<close>

definition somebody :: "int option \<Rightarrow> int" where
  "somebody x = (if x = Some 0 then 1 else 0)"

lemma somebody_else: "apart (somebody x) x"
  by (simp add: somebody_def apart_def)

lemma community_as:
  assumes "community_hooks h lib ops"
  obtains cap where "ops = (community_ops h lib)\<lparr>ops_capture := if cap then Some community_ops_capture else None\<rparr>"
proof -
  obtain c where "ops = (community_ops h lib)\<lparr>ops_capture := c\<rparr>" "c = None \<or> c = Some community_ops_capture"
    using assms by (auto simp: community_hooks_def)
  then show ?thesis using that [of "c \<noteq> None"] by (auto split: if_splits)
qed

lemma guarantee_op:
  assumes "\<And>cap w. on_return (op ((community_ops h lib)\<lparr>ops_capture := if cap then Some community_ops_capture else None\<rparr>) w)
      (\<lambda>(_, w'). guarantee u w w')" "apart u x"
  shows "op_spares h lib x op"
proof -
  have "on_return (op ops w) (\<lambda>(_, w'). spares x w w')" if hooks: "community_hooks h lib ops" for ops w
  proof -
    obtain cap where "ops = (community_ops h lib)\<lparr>ops_capture := if cap then Some community_ops_capture else None\<rparr>"
      using community_as [OF hooks] .
    then show ?thesis
      by (simp only:) (rule on_return_mono [OF assms(1)], use guarantee_spares assms(2) in blast)
  qed
  then show ?thesis by (simp add: op_spares_def)
qed

text \<open>Reading spares everybody; writing spares whom it is not for.\<close>

lemmas reading_returns =
  reading.session_ops_guar(1,3,4,5) [unfolded reading_ops] reading.list_guar [unfolded reading_ops]
  reading.stop_guar [unfolded reading_ops]

lemma reading_spares:
  "op_spares h lib x bio_ops_capture"
  "op_spares h lib x (\<lambda>ops. bio_ops_verify ops u i)"
  "op_spares h lib x (\<lambda>ops. bio_ops_identify ops u i j)"
  "op_spares h lib x (\<lambda>ops. bio_ops_search ops u i j)"
  "op_spares h lib x (\<lambda>ops. bio_ops_get_feature_list h ops u i j)"
  "op_spares h lib x (\<lambda>ops. bio_ops_stop_ops ops t)"
  by (rule guarantee_op [OF _ somebody_else], rule reading_returns)+

lemma writing_spares:
  assumes "apart u x"
  shows "op_spares h lib x (\<lambda>ops. bio_ops_enroll ops u i n)"
    "op_spares h lib x (\<lambda>ops. bio_ops_clean ops u i j)"
    "op_spares h lib x (\<lambda>ops. bio_ops_feature_rename h ops u i n)"
  by (rule guarantee_op [OF _ assms], rule community.session_ops_guar community.rename_guar)+

section \<open>Requests\<close>

text \<open>A request that may change the features of the user \<open>x\<close>: it writes, it is about that user or about everybody, and its caller is authorised.\<close>

fun touches :: "int \<Rightarrow> caller \<times> request \<Rightarrow> bool" where
  "touches x (c, Enroll drvid u i n) \<longleftrightarrow>
     (u = x \<or> u = -1) \<and> authorized c u POLKIT_ENROLL_OWN_ACTION_ID POLKIT_ENROLL_ADMIN_ACTION_ID"
| "touches x (c, Clean drvid u i j) \<longleftrightarrow>
     (u = x \<or> u = -1) \<and> authorized c u POLKIT_CLEAN_OWN_ACTION_ID POLKIT_CLEAN_ADMIN_ACTION_ID"
| "touches x (c, Rename drvid u i n) \<longleftrightarrow>
     (u = x \<or> u = -1) \<and> authorized c u POLKIT_RENAME_OWN_ACTION_ID POLKIT_RENAME_ADMIN_ACTION_ID"
| "touches x _ \<longleftrightarrow> False"

definition touches_any :: "int option \<Rightarrow> caller \<times> request \<Rightarrow> bool" where
  "touches_any x r \<longleftrightarrow> (case x of None \<Rightarrow> False | Some u \<Rightarrow> touches u r)"

lemma untouched:
  "\<not> touches_any x (c, Enroll k u i n) \<Longrightarrow> authorized c u POLKIT_ENROLL_OWN_ACTION_ID POLKIT_ENROLL_ADMIN_ACTION_ID \<Longrightarrow> apart u x"
  "\<not> touches_any x (c, Clean k u i j) \<Longrightarrow> authorized c u POLKIT_CLEAN_OWN_ACTION_ID POLKIT_CLEAN_ADMIN_ACTION_ID \<Longrightarrow> apart u x"
  "\<not> touches_any x (c, Rename k u i n) \<Longrightarrow> authorized c u POLKIT_RENAME_OWN_ACTION_ID POLKIT_RENAME_ADMIN_ACTION_ID \<Longrightarrow> apart u x"
  by (auto simp: touches_any_def apart_def split: option.splits)

lemma op_spares_seq:
  assumes "op_spares h lib x op" "\<And>y w ops. on_return (k y w) (\<lambda>(_, w'). spares x w w')"
  shows "op_spares h lib x (\<lambda>ops w. bindR (op ops w) (\<lambda>(y, w). k y w))"
  using assms by (auto simp: op_spares_def intro!: spares_seq)

lemma job_answer:
  "op_spares h lib x op \<Longrightarrow> op_spares h lib x (\<lambda>ops w. bindR (op ops w) (\<lambda>(y, w). Inr (g y, w)))"
  by (erule op_spares_seq) (simp add: spares_refl)

lemma index_spares: "on_return (bio_common_get_empty_index h u i j (w :: ('pr, 'sc) cworld)) (\<lambda>(_, w'). spares x w w')"
  by (rule on_return_mono [OF empty_index_guar]) (auto intro: guarantee_spares [OF _ somebody_else])

lemma enroll_job_spares:
  assumes "apart u x"
  shows "op_spares h lib x (job_op (gdbus_enroll_pt h c k u i n))"
proof -
  have "on_return (if i = -1 then bio_common_get_empty_index h u 0 (-1) w else Inr (i, w)) (\<lambda>(_, w'). spares x w w')"
    for w :: "('a, 'b) cworld"
    using index_spares [of h u 0 "-1" w x] by (simp add: spares_refl)
  moreover have "on_return (bio_ops_enroll ops u k (Some n) w) (\<lambda>(_, w'). spares x w w')"
    if "community_hooks h lib ops" for ops k and w :: "('a, 'b) cworld"
    using writing_spares(1) [OF assms, of h lib k "Some n"] that by (simp add: op_spares_def)
  ultimately show ?thesis
    unfolding op_spares_def gdbus_enroll_pt_def job.simps by (auto simp: spares_refl intro!: spares_seq)
qed

lemma jobs_spare:
  "op_spares h lib x (job_op (gdbus_get_feature_list_pt h k u i j))"
  "op_spares h lib x (job_op (gdbus_verify_pt k u i))"
  "op_spares h lib x (job_op (gdbus_identify_pt k u i j))"
  "op_spares h lib x (job_op (gdbus_capture_pt k))"
  "op_spares h lib x (job_op (gdbus_search_pt k u i j))"
  "apart u x \<Longrightarrow> op_spares h lib x (job_op (gdbus_feature_rename_pt h c k u i n))"
  unfolding gdbus_get_feature_list_pt_def gdbus_verify_pt_def gdbus_identify_pt_def gdbus_capture_pt_def
    gdbus_search_pt_def gdbus_feature_rename_pt_def job.simps
  by (rule job_answer, rule reading_spares writing_spares, assumption?, assumption?)+

text \<open>What a thread is still going to do spares the user.\<close>

fun thread_spares ::
    "host \<Rightarrow> ('pr, 'sc) fp_lib \<Rightarrow> int option \<Rightarrow> ('pr, 'sc) driver_info framework \<Rightarrow> ('pr, 'sc) driver_info thread \<Rightarrow> bool" where
  "thread_spares h lib x fw (Waiting j) \<longleftrightarrow> (job_allowed j \<longrightarrow> op_spares h lib x (job_op j))"
| "thread_spares h lib x fw (Holding j i) \<longleftrightarrow>
     i < length (bio_drv_list fw) \<and> driver_id (fw_dev fw i) = job_drvid j \<and> op_spares h lib x (job_op j)"
| "thread_spares h lib x fw (Clean_request c k u a b) \<longleftrightarrow> \<not> touches_any x (c, Clean k u a b)"
| "thread_spares h lib x fw (Cleaning u a b is ret) \<longleftrightarrow> apart u x \<and> (\<forall>i\<in>set is. i < length (bio_drv_list fw))"
| "thread_spares h lib x fw _ \<longleftrightarrow> True"

lemma dispatch_spares:
  assumes "dispatch err h c r d ts = Inr (rs, ts')" "\<not> touches_any x (c, r)" "list_all (thread_spares h lib x fw) ts"
  shows "list_all (thread_spares h lib x fw) ts'"
proof (cases r)
  case (Enroll k u i m)
  have "thread_spares h lib x fw (Waiting (gdbus_enroll_pt h c k u i (bio_new_string (Some m))))"
    using untouched(1) [of x c k u i m] assms(2) Enroll enroll_job_spares [of u x h lib c k i "bio_new_string (Some m)"]
    by (auto simp: gdbus_enroll_pt_def)
  then show ?thesis using assms(1,3) Enroll by (auto simp: pthread_create_def gdbus_enroll_def)
next
  case (Rename k u i m)
  have "thread_spares h lib x fw (Waiting (gdbus_feature_rename_pt h c k u i (bio_new_string (Some m))))"
    using untouched(3) [of x c k u i m] assms(2) Rename jobs_spare(6) [of u x h lib c k i "bio_new_string (Some m)"]
    by (auto simp: gdbus_feature_rename_pt_def)
  then show ?thesis using assms(1,3) Rename by (auto simp: pthread_create_def gdbus_feature_rename_def)
next
  case (Clean k u a b)
  then show ?thesis using assms by (simp add: pthread_create_def gdbus_clean_def split: if_splits) auto
qed (use assms(1,3) in \<open>auto simp: bindR_eq_Inr pthread_create_def gdbus_get_feature_list_def gdbus_update_status_def
      gdbus_verify_def gdbus_identify_def gdbus_capture_def gdbus_search_def gdbus_stop_ops_def jobs_spare\<close>)

section \<open>The framework\<close>

text \<open>All drivers are those of the community, have names, and the list of devices points to them.\<close>

definition ready :: "host \<Rightarrow> ('pr, 'sc) fp_lib \<Rightarrow> ('pr, 'sc) driver_info framework \<Rightarrow> bool" where
  "ready h lib fw \<longleftrightarrow> hooks_of h lib fw \<and> (\<forall>i < length (bio_drv_list fw). named (fw_dev fw i))
     \<and> list_all (\<lambda>i. i < length (bio_drv_list fw)) (bio_dev_list fw)"

definition fw_spares ::
    "host \<Rightarrow> ('pr, 'sc) fp_lib \<Rightarrow> int option \<Rightarrow> ('pr, 'sc) driver_info framework \<Rightarrow> ('pr, 'sc) driver_info framework \<Rightarrow> bool" where
  "fw_spares h lib x fw fw' \<longleftrightarrow> (ready h lib fw \<longrightarrow>
     ready h lib fw' \<and> length (bio_drv_list fw') = length (bio_drv_list fw)
     \<and> (\<forall>j. driver_id (fw_dev fw' j) = driver_id (fw_dev fw j))
     \<and> keeps_users x (w_store (fw_world fw)) (w_store (fw_world fw')))"

lemma fw_spares_refl: "fw_spares h lib x fw fw"
  by (simp add: fw_spares_def keeps_users_refl)

lemma fw_spares_trans: "fw_spares h lib x fw fw' \<Longrightarrow> fw_spares h lib x fw' fw'' \<Longrightarrow> fw_spares h lib x fw fw''"
  by (auto simp: fw_spares_def intro: keeps_users_trans)

lemma fw_spares_cleared [simp]:
  "fw_spares h lib x (fw\<lparr>fw_world := (fw_world fw)\<lparr>w_calls := cs\<rparr>, hotplug_calls := hs\<rparr>) fw' \<longleftrightarrow> fw_spares h lib x fw fw'"
  by (simp add: fw_spares_def ready_def hooks_of_def fw_ops_def fw_dev_def)

text \<open>What changes the store only, or a device but not its name, or the list of devices.\<close>

lemma world_spares:
  "keeps_users x (w_store (fw_world fw)) (w_store w) \<Longrightarrow> fw_spares h lib x fw (fw\<lparr>fw_world := w\<rparr>)"
  by (auto simp: fw_spares_def ready_def hooks_of_def fw_dev_def fw_ops_def)

lemma set_dev_spares:
  assumes "i < length (bio_drv_list fw)" "named (fw_dev fw i) \<longrightarrow> named d" "driver_id d = driver_id (fw_dev fw i)"
  shows "fw_spares h lib x fw (set_dev i d fw)"
proof -
  have "named (fw_dev (set_dev i d fw) j)" if "named (fw_dev fw j)" "named (fw_dev fw i)" for j
    using assms that by (cases "i = j") simp_all
  moreover have "driver_id (fw_dev (set_dev i d fw) j) = driver_id (fw_dev fw j)" for j
    using assms by (cases "i = j") simp_all
  ultimately show ?thesis using assms by (auto simp: fw_spares_def ready_def hooks_of_def keeps_users_refl)
qed

lemma list_spares:
  "(list_all (\<lambda>i. i < length (bio_drv_list fw)) (bio_dev_list fw) \<Longrightarrow> list_all (\<lambda>i. i < length (bio_drv_list fw)) l) \<Longrightarrow>
   fw_spares h lib x fw (fw\<lparr>bio_dev_list := l\<rparr>)"
  by (auto simp: fw_spares_def ready_def hooks_of_def keeps_users_refl fw_dev_def)

text \<open>A hook or an operation on a device.\<close>

lemma on_dev_spares:
  assumes "on_dev i f fw = Inr (y, fw')" "i < length (bio_drv_list fw)"
    "on_return (f ((fw_world fw)\<lparr>w_dev := fw_dev fw i\<rparr>)) (\<lambda>(_, w'). spares x ((fw_world fw)\<lparr>w_dev := fw_dev fw i\<rparr>) w')"
  shows "fw_spares h lib x fw fw'"
proof -
  obtain w' where w': "f ((fw_world fw)\<lparr>w_dev := fw_dev fw i\<rparr>) = Inr (y, w')" "fw' = set_dev i (w_dev w') (fw\<lparr>fw_world := w'\<rparr>)"
    using assms(1) by (auto simp: on_dev_def bindR_eq_Inr)
  have s: "spares x ((fw_world fw)\<lparr>w_dev := fw_dev fw i\<rparr>) w'" using assms(3) w'(1) by (simp add: on_return_def)
  then have same: "named (w_dev w') = named (fw_dev fw i)" "driver_id (w_dev w') = driver_id (fw_dev fw i)"
    using named_identity [of "w_dev w'" "fw_dev fw i"] identity_fields(3) [of "w_dev w'" "fw_dev fw i"] by (simp_all add: spares_def)
  have dev: "fw_dev (fw\<lparr>fw_world := w'\<rparr>) i = fw_dev fw i" by (simp add: fw_dev_def)
  show ?thesis
  proof (cases "named (fw_dev fw i)")
    case True
    then have "fw_spares h lib x fw (fw\<lparr>fw_world := w'\<rparr>)" using s by (intro world_spares) (simp add: spares_def)
    moreover have "fw_spares h lib x (fw\<lparr>fw_world := w'\<rparr>) fw'"
      unfolding w'(2) by (rule set_dev_spares) (use assms(2) same dev in simp_all)
    ultimately show ?thesis by (rule fw_spares_trans)
  next
    case False
    then show ?thesis using assms(2) by (auto simp: fw_spares_def ready_def)
  qed
qed

lemma hook_on_spares:
  assumes "hook_on i sel fw = Inr (y, fw')" "i < length (bio_drv_list fw)"
    "\<And>f w. ready h lib fw \<Longrightarrow> sel (fw_ops fw i) = Some f \<Longrightarrow> on_return (f w) (\<lambda>(_, w'). spares x w w')"
  shows "fw_spares h lib x fw fw'"
proof (cases "ready h lib fw")
  case True
  obtain f where "sel (fw_ops fw i) = Some f" "on_dev i f fw = Inr (y, fw')"
    using assms(1) by (cases "sel (fw_ops fw i)") (auto simp: hook_on_def)
  then show ?thesis using assms(3) [OF True] by (blast intro: on_dev_spares [OF _ assms(2)])
qed (simp add: fw_spares_def)

lemma community_at:
  assumes "ready h lib fw" "i < length (bio_drv_list fw)"
  shows "community_hooks h lib (fw_ops fw i)" "ops_discover (fw_ops fw i) = Some community_ops_discover"
    "ops_attach (fw_ops fw i) = Some community_ops_attach" "ops_detach (fw_ops fw i) = Some community_ops_detach"
  using assms by (auto simp: ready_def hooks_of_def community_hooks_def community_ops_def)

lemma operate_spares:
  assumes "operate i op d = Inr (y, d')" "i < length (bio_drv_list (d_fw d))" "op_spares h lib x op"
  shows "fw_spares h lib x (d_fw d) (d_fw d')"
proof (cases "ready h lib (d_fw d)")
  case True
  obtain fw where fw: "on_dev i (op (fw_ops (d_fw d) i))
      ((d_fw d)\<lparr>fw_world := (fw_world (d_fw d))\<lparr>w_calls := []\<rparr>, hotplug_calls := []\<rparr>) = Inr (y, fw)" "d_fw d' = fw"
    using assms(1) unfolding operate_def by (rule on_framework_fw)
  show ?thesis
    using on_dev_spares [OF fw(1), of x h lib] assms(2,3) community_at(1) [OF True assms(2)] fw(2)
    by (simp add: op_spares_def)
qed (simp add: fw_spares_def)

section \<open>Devices that come and go\<close>

lemma keeps_store_discover: "on_return (device_discover w) (\<lambda>(_, w'). w_store w' = w_store w)"
proof (cases "attached w")
  case (Inr share)
  then show ?thesis
    by (cases "sh_devices share"; cases "discover_loop (the (sh_devices share)) 0 (community_driver_id (w_priv w)) 0
          (sh_device share)") (simp_all add: device_discover_def set_segment_def upd_shm_def)
qed (simp add: device_discover_def)

lemma upd_shm_store [simp]: "w_store (upd_shm f w) = w_store w"
  by (simp add: upd_shm_def)

lemma keeps_store_community_discover: "on_return (community_ops_discover w) (\<lambda>(_, w'). w_store w' = w_store w)"
proof -
  have "on_return (bindR (device_discover w1) (\<lambda>(ret, w). Inr (if ret < 0 then -1 else if ret = 0 then 0 else ret, w)))
      (\<lambda>(_, w'). w_store w' = w_store w)" if "w_store w1 = w_store w" for w1 :: "('a, 'b) cworld"
    unfolding on_return_bind that [symmetric]
    by (rule on_return_mono [OF keeps_store_discover]) (simp add: case_prod_beta)
  then have d: "on_return (let w = (if debug then setenv_if_unset ''G_MESSAGES_DEBUG'' ''all'' w else w)
     in bindR (device_discover w) (\<lambda>(ret, w). Inr (if ret < 0 then -1 else if ret = 0 then 0 else ret, w)))
      (\<lambda>(_, w'). w_store w' = w_store w)" for debug
    by (simp add: Let_def setenv_if_unset_def)
  show ?thesis
    unfolding community_ops_discover_def
    by (subst on_return_bind, rule on_return_all, subst on_return_bind, rule on_return_all, rule d)
qed

lemma discover_hook_spares: "on_return (community_ops_discover w) (\<lambda>(_, w'). spares x w w')"
  using keeps_store_community_discover [of w] keeps_dev_community_discover [of w]
  by (cases "community_ops_discover w") (auto simp: spares_def keeps_users_refl)

lemma discover_spares:
  assumes "discover i fw = Inr fw'" "i < length (bio_drv_list fw)"
  shows "fw_spares h lib x fw fw'"
proof -
  obtain n fw1 where d: "hook_on i ops_discover fw = Inr (n, fw1)" "fw' = set_dev i ((fw_dev fw1 i)\<lparr>dev_num := n\<rparr>) fw1"
    using assms(1) by (auto simp: discover_def bindR_eq_Inr)
  have i: "i < length (bio_drv_list fw1)" using hook_on_only [OF d(1)] assms(2) by (simp add: only_dev_def)
  have "fw_spares h lib x fw fw1"
    by (rule hook_on_spares [OF d(1) assms(2)]) (simp add: community_at(2) [OF _ assms(2)] discover_hook_spares)
  moreover have "fw_spares h lib x fw1 fw'"
    unfolding d(2) by (rule set_dev_spares [OF i]) (simp_all add: named_def)
  ultimately show ?thesis by (rule fw_spares_trans)
qed

lemma hotplug_discover_spares:
  assumes "hotplug_discover a i fw = Inr fw'" "i < length (bio_drv_list fw)"
  shows "fw_spares h lib x fw fw'" "length (bio_drv_list fw') = length (bio_drv_list fw)"
proof -
  obtain fw1 where d: "discover i fw = Inr fw1"
    "fw' = hot_plug_common_callback (driver_id (fw_dev fw1 i)) a (dev_num (fw_dev fw1 i)) fw1"
    using assms(1) by (auto simp: hotplug_discover_def bindR_eq_Inr)
  have "fw_spares h lib x fw1 fw'"
    by (auto simp: d(2) hot_plug_common_callback_def fw_spares_def ready_def hooks_of_def fw_dev_def keeps_users_refl split: option.split)
  then show "fw_spares h lib x fw fw'" using discover_spares [OF d(1) assms(2)] fw_spares_trans by blast
  show "length (bio_drv_list fw') = length (bio_drv_list fw)"
    using discover_only [OF d(1)] d(2) by (simp add: only_dev_def hot_plug_common_callback_def split: option.split)
qed

lemma still_hooks: "on_return (community_ops_attach w) (\<lambda>(_, w'). spares x w w')"
    "on_return (community_ops_detach w) (\<lambda>(_, w'). spares x w w')"
  by (simp_all add: community_ops_attach_def community_ops_detach_def spares_refl)

lemma attach_hook_spares:
  assumes "hook_on i ops_attach fw = Inr (y, fw')" "i < length (bio_drv_list fw)"
  shows "fw_spares h lib x fw fw'"
  by (rule hook_on_spares [OF assms]) (simp add: community_at(3) [OF _ assms(2)] still_hooks)

lemma detach_hook_spares:
  assumes "hook_on i ops_detach fw = Inr (y, fw')" "i < length (bio_drv_list fw)"
  shows "fw_spares h lib x fw fw'"
  by (rule hook_on_spares [OF assms]) (simp add: community_at(4) [OF _ assms(2)] still_hooks)

lemma attach_spares:
  assumes "bio_usb_hotplug_callback_attach desc fw = Inr (r, fw')"
  shows "fw_spares h lib x fw fw'"
proof (cases "\<exists>vp i. desc = Some vp \<and> serving_driver vp fw = Some i")
  case True
  then obtain vp i where i: "desc = Some vp" "serving_driver vp fw = Some i" by blast
  have len: "i < length (bio_drv_list fw)" using i(2) unfolding serving_driver_def by (rule find_upt)
  obtain fw1 where d: "hotplug_discover USB_HOT_PLUG_ATTACHED i fw = Inr fw1"
    using assms i by (auto simp: bio_usb_hotplug_callback_attach_def bindR_eq_Inr)
  note s1 = hotplug_discover_spares [OF d len]
  show ?thesis
  proof (cases "0 < dev_num (fw_dev fw1 i)")
    case False
    then show ?thesis using assms i d s1 by (simp add: bio_usb_hotplug_callback_attach_def)
  next
    case True
    then obtain y where h: "hook_on i ops_attach (fw1\<lparr>bio_dev_list := bio_dev_list fw1 @ [i]\<rparr>) = Inr (y, fw')"
      using assms i d by (auto simp: bio_usb_hotplug_callback_attach_def bindR_eq_Inr)
    have "fw_spares h lib x fw1 (fw1\<lparr>bio_dev_list := bio_dev_list fw1 @ [i]\<rparr>)"
      by (rule list_spares) (use len s1(2) in simp)
    moreover have "fw_spares h lib x (fw1\<lparr>bio_dev_list := bio_dev_list fw1 @ [i]\<rparr>) fw'"
      by (rule attach_hook_spares [OF h]) (use len s1(2) in simp)
    ultimately show ?thesis using s1(1) fw_spares_trans by blast
  qed
qed (use assms in \<open>auto simp: bio_usb_hotplug_callback_attach_def fw_spares_refl split: option.splits\<close>)

lemma detach_spares:
  assumes "bio_usb_hotplug_callback_detach desc fw = Inr (r, fw')"
  shows "fw_spares h lib x fw fw'"
proof (cases "\<exists>vp i. desc = Some vp \<and> serving_driver vp fw = Some i")
  case True
  then obtain vp i where i: "desc = Some vp" "serving_driver vp fw = Some i" by blast
  have len: "i < length (bio_drv_list fw)" using i(2) unfolding serving_driver_def by (rule find_upt)
  obtain fw1 where d: "hotplug_discover USB_HOT_PLUG_DETACHED i fw = Inr fw1"
    using assms i by (auto simp: bio_usb_hotplug_callback_detach_def bindR_eq_Inr)
  note s1 = hotplug_discover_spares [OF d len]
  let ?fw = "if dev_num (fw_dev fw1 i) \<le> 0 then fw1\<lparr>bio_dev_list := remove1 i (bio_dev_list fw1)\<rparr> else fw1"
  obtain y where h: "hook_on i ops_detach ?fw = Inr (y, fw')"
    using assms i d by (auto simp: bio_usb_hotplug_callback_detach_def bindR_eq_Inr Let_def)
  have "fw_spares h lib x fw1 (fw1\<lparr>bio_dev_list := remove1 i (bio_dev_list fw1)\<rparr>)"
    by (rule list_spares) (auto simp: list_all_iff dest!: subsetD [OF set_remove1_subset])
  then have "fw_spares h lib x fw1 ?fw" by (simp add: fw_spares_refl)
  moreover have "fw_spares h lib x ?fw fw'" by (rule detach_hook_spares [OF h]) (use len s1(2) in simp)
  ultimately show ?thesis using s1(1) fw_spares_trans by blast
qed (use assms in \<open>auto simp: bio_usb_hotplug_callback_detach_def fw_spares_refl split: option.splits\<close>)

section \<open>Cleaning for somebody else\<close>

lemma clean_single_spares:
  assumes "gdbus_clean_by_single_dev dev u a b d = Inr (r, d')" "apart u x"
    "\<And>i. dev = Some i \<Longrightarrow> i < length (bio_drv_list (d_fw d))"
  shows "fw_spares h lib x (d_fw d) (d_fw d')"
proof (cases dev)
  case (Some i)
  let ?k = "driver_id (fw_dev (d_fw d) i)"
  show ?thesis
  proof (cases "get_dev_by_drvid ?k (d_fw d) = None")
    case False
    then obtain taken d1 where t: "pthread_mutex_trylock ?k d = Inr (taken, d1)"
      using assms(1) Some by (auto simp: gdbus_clean_by_single_dev_def Let_def bindR_eq_Inr)
    note t1 = trylock_result(5) [OF t]
    show ?thesis
    proof (cases taken)
      case True
      then obtain y d2 d3 where o: "operate i (\<lambda>ops. bio_ops_clean ops u a b) d1 = Inr (y, d2)"
        and l: "pthread_mutex_unlock (driver_id (fw_dev (d_fw d2) i)) d2 = Inr d3" "d' = d3"
        using assms(1) Some False t by (auto simp: gdbus_clean_by_single_dev_def Let_def bindR_eq_Inr)
      have "fw_spares h lib x (d_fw d1) (d_fw d2)"
        by (rule operate_spares [OF o _ writing_spares(2) [OF assms(2)]]) (use assms(3) Some t1 in simp)
      then show ?thesis using t1 unlock_result(2) [OF l(1)] l(2) by simp
    qed (use assms(1) Some False t t1 in \<open>simp add: gdbus_clean_by_single_dev_def Let_def fw_spares_refl\<close>)
  qed (use assms(1) Some in \<open>simp add: gdbus_clean_by_single_dev_def Let_def fw_spares_refl\<close>)
qed (use assms(1) in \<open>simp add: gdbus_clean_by_single_dev_def fw_spares_refl\<close>)

lemma fw_spares_length: "ready h lib fw \<Longrightarrow> fw_spares h lib x fw fw' \<Longrightarrow> length (bio_drv_list fw') = length (bio_drv_list fw)"
  by (simp add: fw_spares_def)

text \<open>The rows of all drivers that are left: the statement has no driver, and still the user.\<close>

lemma clean_rows_keeps:
  assumes "bio_sto_clean_feature_info handle u b drv i j s = (r, s')" "u \<noteq> x" "u \<noteq> -1"
  shows "keeps_user x s s'"
proof -
  let ?drv = "if drv = Some '''' then None else drv"
  let ?sel = "row_selected u b ?drv i j"
  obtain ok db where p: "sqlite3_prepare handle (has_eigen_info (tables_of (s_db s))) (s_db s) = (ok, db)" by fastforce
  obtain ok2 db2 where st: "sqlite3_step True (upd_rows (filter (\<lambda>r. \<not> ?sel r))) db = (ok2, db2)" by fastforce
  have prep: "keeps_user x s (s\<lparr>s_db := db\<rparr>)"
    using prepare_cases [OF p] by (simp add: keeps_user_def settled_db_def user_rows_def)
  have "filter (\<lambda>r. r_uid r = x) (eigen_rows (upd_rows (filter (\<lambda>r. \<not> ?sel r)) t)) = filter (\<lambda>r. r_uid r = x) (eigen_rows t)"
    for t
    using assms(2,3) by (cases "eigen_info t") (auto simp: eigen_rows_def upd_rows_def row_selected_def intro: filter_cong)
  moreover have "keyed t \<Longrightarrow> keyed (upd_rows (filter (\<lambda>r. \<not> ?sel r)) t)" for t
    by (erule keyed_upd_rows) (rule refl)
  ultimately have "keeps_user x (s\<lparr>s_db := db\<rparr>) (s\<lparr>s_db := db2\<rparr>)"
    using step_cases [OF st] by (auto simp: keeps_user_def settled_db_def user_rows_def)
  then have all: "keeps_user x s (s\<lparr>s_db := db2\<rparr>)" using prep keeps_user_trans by blast
  have "s' = (if ok then s\<lparr>s_db := db2\<rparr> else s\<lparr>s_db := db\<rparr>)"
    using assms(1) p st by (auto simp: bio_sto_clean_feature_info_def Let_def split: if_splits)
  then show ?thesis using all prep by simp
qed

lemma clean_system_spares:
  assumes "clean_system u a b d = Inr (r, d')" "apart u x"
  shows "fw_spares h lib x (d_fw d) (d_fw d')"
proof -
  let ?w = "fw_world (d_fw d)"
  obtain db s1 where c: "bio_sto_connect_db (w_store ?w) = Inr (db, s1)"
    using assms(1) by (auto simp: clean_system_def bindR_eq_Inr)
  obtain r2 s2 where q: "bio_sto_clean_feature_info db u (-1) None a b s1 = (r2, s2)" by fastforce
  have "keeps_users x (w_store ?w) s1"
    using connect_frame [of "w_store ?w" "somebody x" 0 "''''"] c frame_keeps_users [OF _ somebody_else]
    by (fastforce simp: on_return_def)
  moreover have "keeps_users x s1 s2"
    using clean_rows_keeps [OF q] assms(2) by (cases x) (auto simp: keeps_users_def apart_def)
  moreover have "keeps_users x s2 (bio_sto_disconnect_db s2)" by (rule frame_keeps_users [OF disconnect_frame somebody_else])
  ultimately have "keeps_users x (w_store ?w) (bio_sto_disconnect_db s2)" using keeps_users_trans by blast
  then have "fw_spares h lib x (d_fw d) ((d_fw d)\<lparr>fw_world := set_store (bio_sto_disconnect_db s2) ?w\<rparr>)"
    by (intro world_spares) (simp add: set_store_def)
  then show ?thesis using assms(1) c q by (auto simp: clean_system_def)
qed

lemma clean_next_spares:
  assumes "clean_next i u a b r0 d = Inr (r, d')" "apart u x" "i < length (bio_drv_list (d_fw d))"
  shows "fw_spares h lib x (d_fw d) (d_fw d')"
  using assms(1) clean_single_spares [of "Some i" u a b d _ d' x h lib] assms(2,3) by (auto simp: clean_next_def bindR_eq_Inr)

lemma clean_finish_spares:
  "clean_finish u a b r0 d = Inr (rs, d') \<Longrightarrow> apart u x \<Longrightarrow> fw_spares h lib x (d_fw d) (d_fw d')"
  by (auto simp: clean_finish_def bindR_eq_Inr Let_def intro: clean_system_spares)

lemma clean_start_spares:
  assumes "clean_start c k u a b d = Inr (r, d')" "\<not> touches_any x (c, Clean k u a b)" "ready h lib (d_fw d)"
  shows "fw_spares h lib x (d_fw d) (d_fw d')"
    "r = Inr is \<Longrightarrow> apart u x \<and> (\<forall>i\<in>set is. i < length (bio_drv_list (d_fw d')))"
proof -
  have i: "i < length (bio_drv_list (d_fw d))" if "get_dev_by_drvid k (d_fw d) = Some i" for i
    using get_dev_in_list [OF that] assms(3) by (auto simp: ready_def list_all_iff)
  note single = clean_single_spares [of "get_dev_by_drvid k (d_fw d)" u a b d _ d' x h lib, OF _ untouched(2) [OF assms(2)] i]
  show "fw_spares h lib x (d_fw d) (d_fw d')"
    using assms(1) single by (auto simp: clean_start_def bindR_eq_Inr fw_spares_refl split: if_splits)
  show "r = Inr is \<Longrightarrow> apart u x \<and> (\<forall>i\<in>set is. i < length (bio_drv_list (d_fw d')))"
    using assms(1) untouched(2) [OF assms(2)] by (auto simp: clean_start_def bindR_eq_Inr split: if_splits)
qed

section \<open>Steps and histories\<close>

definition state_spares :: "host \<Rightarrow> ('pr, 'sc) fp_lib \<Rightarrow> int option \<Rightarrow> ('pr, 'sc) driver_info framework \<Rightarrow>
    ('pr, 'sc) driver_info daemon \<times> ('pr, 'sc) driver_info thread list \<Rightarrow> bool" where
  "state_spares h lib x fw0 = (\<lambda>(d, ts). fw_spares h lib x fw0 (d_fw d) \<and> list_all (thread_spares h lib x (d_fw d)) ts)"

lemma thread_spares_fw:
  assumes "ready h lib fw" "fw_spares h lib y fw fw'" "thread_spares h lib x fw t"
  shows "thread_spares h lib x fw' t"
proof -
  have "length (bio_drv_list fw') = length (bio_drv_list fw)" "driver_id (fw_dev fw' i) = driver_id (fw_dev fw i)" for i
    using assms(1,2) by (simp_all add: fw_spares_def)
  then show ?thesis using assms(3) by (cases t) simp_all
qed

lemma advance_spares:
  assumes "advance t d = Inr (t', d')" "ready h lib (d_fw d)" "thread_spares h lib x (d_fw d) t"
  shows "fw_spares h lib x (d_fw d) (d_fw d') \<and> thread_spares h lib x (d_fw d') t'"
proof (cases t)
  case (Waiting j)
  show ?thesis
  proof (cases "job_allowed j \<and> get_dev_by_drvid (job_drvid j) (d_fw d) \<noteq> None")
    case True
    then obtain i taken where t: "get_dev_by_drvid (job_drvid j) (d_fw d) = Some i"
      "pthread_mutex_trylock (job_drvid j) d = Inr (taken, d')"
      "t' = (if taken then Holding j i else Answered (job_refused j RetDeviceBusy))"
      using assms(1) Waiting by (auto simp: bindR_eq_Inr)
    have "i < length (bio_drv_list (d_fw d))" "driver_id (fw_dev (d_fw d) i) = job_drvid j"
      using get_dev_in_list [OF t(1)] assms(2) by (auto simp: ready_def list_all_iff)
    then show ?thesis
      using trylock_result(5) [OF t(2)] t(3) assms(3) Waiting True by (simp add: fw_spares_refl)
  next
    case False
    then have "d' = d" "\<exists>rs. t' = Answered rs" using assms(1) Waiting by (auto split: if_splits option.splits)
    then show ?thesis by (auto simp: fw_spares_refl)
  qed
next
  case (Holding j i)
  then obtain y d1 where o: "operate i (job_op j) d = Inr (y, d1)" "pthread_mutex_unlock (job_drvid j) d1 = Inr d'"
    "t' = Unlocked j i y"
    using assms(1) by (auto simp: bindR_eq_Inr)
  then show ?thesis using operate_spares [OF o(1)] unlock_result(2) [OF o(2)] assms(3) Holding by simp
next
  case (Unlocked j i y)
  then show ?thesis using assms(1) by (auto simp: bindR_eq_Inr fw_spares_refl)
next
  case (Clean_request c k u a b)
  then obtain r where r: "clean_start c k u a b d = Inr (r, d')"
    "t' = (case r of Inl rs \<Rightarrow> Answered rs | Inr is \<Rightarrow> Cleaning u a b is 0)"
    using assms(1) by (auto simp: bindR_eq_Inr)
  have "\<not> touches_any x (c, Clean k u a b)" using assms(3) Clean_request by simp
  note s = clean_start_spares [OF r(1) this assms(2)]
  show ?thesis using s r(2) by (cases r) simp_all
next
  case (Cleaning u a b "is" r0)
  show ?thesis
  proof (cases "is")
    case Nil
    then obtain rs where f: "clean_finish u a b r0 d = Inr (rs, d')" "t' = Answered rs"
      using assms(1) Cleaning by (auto simp: bindR_eq_Inr)
    then show ?thesis using clean_finish_spares [OF f(1)] assms(3) Cleaning by simp
  next
    case (Cons i js)
    then obtain r where r: "clean_next i u a b r0 d = Inr (r, d')" "t' = Cleaning u a b js r"
      using assms(1) Cleaning by (auto simp: bindR_eq_Inr)
    have t: "apart u x" "i < length (bio_drv_list (d_fw d))" "\<forall>i\<in>set js. i < length (bio_drv_list (d_fw d))"
      using assms(3) Cleaning Cons by simp_all
    note s = clean_next_spares [OF r(1) t(1,2), of h lib]
    then have "length (bio_drv_list (d_fw d')) = length (bio_drv_list (d_fw d))" using assms(2) by (simp add: fw_spares_def)
    then show ?thesis using s r(2) t by simp
  qed
next
  case (Status_request k)
  then show ?thesis
    using assms(1) by (auto simp: gdbus_update_status_pt_def bindR_eq_Inr Let_def fw_spares_refl split: prod.splits)
next
  case (Stop_request k sec)
  show ?thesis
  proof (cases "get_dev_by_drvid k (d_fw d)")
    case None
    then show ?thesis using assms(1) Stop_request by (auto simp: gdbus_stop_ops_pt_def fw_spares_refl)
  next
    case (Some i)
    then obtain y where o: "operate i (\<lambda>ops. bio_ops_stop_ops ops sec) d = Inr (y, d')" "\<exists>rs. t' = Answered rs"
      using assms(1) Stop_request by (auto simp: gdbus_stop_ops_pt_def bindR_eq_Inr)
    have "i < length (bio_drv_list (d_fw d))"
      using get_dev_in_list [OF Some] assms(2) by (auto simp: ready_def list_all_iff)
    then show ?thesis using operate_spares [OF o(1) _ reading_spares(6)] o(2) by auto
  qed
qed (use assms(1) in \<open>auto simp: fw_spares_refl\<close>)

text \<open>
  A history: what the service has been asked so far, by whom, and the state it is in. Requests come
  through the handlers of the main thread; everything else is a step that brings no new thread.
\<close>

inductive history ::
    "host \<Rightarrow> 'p daemon \<Rightarrow> (caller \<times> request) list \<Rightarrow> 'p daemon \<times> 'p thread list \<Rightarrow> bool" for h d0 where
  start: "history h d0 [] (d0, [])"
| request: "history h d0 rs (d, ts) \<Longrightarrow> dispatch err h c r d ts = Inr (replies, ts') \<Longrightarrow> history h d0 (rs @ [(c, r)]) (d, ts')"
| step: "history h d0 rs s \<Longrightarrow> daemon_step s s' \<Longrightarrow> length (snd s') = length (snd s) \<Longrightarrow> history h d0 rs s'"


lemma step_spares:
  assumes "daemon_step s s'" "length (snd s') = length (snd s)" "ready h lib fw0" "state_spares h lib x fw0 s"
  shows "state_spares h lib x fw0 s'"
proof -
  have go: "state_spares h lib x fw0 (d', ts')"
    if "s = (d, ts)" "fw_spares h lib x (d_fw d) (d_fw d')" "list_all (thread_spares h lib x (d_fw d')) ts'" for d ts d' ts'
    using assms(4) that fw_spares_trans by (auto simp: state_spares_def)
  have rdy: "ready h lib (d_fw d)" and thr: "list_all (thread_spares h lib x (d_fw d)) ts"
    if "s = (d, ts)" for d ts
    using assms(3,4) that by (auto simp: state_spares_def fw_spares_def)
  have kept: "list_all (thread_spares h lib x (d_fw d')) ts" if "s = (d, ts)" "fw_spares h lib x (d_fw d) (d_fw d')" for d ts d'
    using thr [OF that(1)] thread_spares_fw [OF rdy [OF that(1)] that(2)] by (simp add: list_all_length)
  have only: "state_spares h lib x fw0 (d', ts)" if "s = (d, ts)" "fw_spares h lib x (d_fw d) (d_fw d')" for d ts d'
    using go [OF that kept [OF that]] .
  show ?thesis
    using assms(1)
  proof cases
    case (arrive t d ts)
    then show ?thesis using assms(2) by simp
  next
    case (go_on n ts d t d')
    have t: "thread_spares h lib x (d_fw d) (ts ! n)" using thr [OF go_on(1)] go_on(3) by (simp add: list_all_length)
    note a = advance_spares [OF go_on(4) rdy [OF go_on(1)] t]
    have "list_all (thread_spares h lib x (d_fw d')) (ts[n := t])"
      using kept [OF go_on(1) conjunct1 [OF a]] conjunct2 [OF a] by (rule list_all_update)
    then show ?thesis using go [OF go_on(1)] a go_on(2) by blast
  next
    case (plug desc d r d' ts)
    have "fw_spares h lib x (d_fw d) (d_fw d')"
      using plug(3) by (auto elim!: on_framework_fw dest!: attach_spares [of _ _ _ _ h lib x])
    then show ?thesis using only plug(1,2) by blast
  next
    case (unplug desc d r d' ts)
    have "fw_spares h lib x (d_fw d) (d_fw d')"
      using unplug(3) by (auto elim!: on_framework_fw dest!: detach_spares [of _ _ _ _ h lib x])
    then show ?thesis using only unplug(1,2) by blast
  next
    case (clock d ts t)
    then show ?thesis using only [OF clock(1), of "d\<lparr>gettimeofday := t\<rparr>"] by (simp add: fw_spares_refl)
  qed
qed

lemma history_spares:
  "history h d0 rs s \<Longrightarrow> ready h lib (d_fw d0) \<Longrightarrow> list_all (\<lambda>r. \<not> touches_any x r) rs \<Longrightarrow>
   state_spares h lib x (d_fw d0) s"
proof (induction rule: history.induct)
  case start
  then show ?case by (simp add: state_spares_def fw_spares_refl)
next
  case (request rs d ts err c r replies ts')
  then show ?case using dispatch_spares [OF request(2), of x lib] by (simp add: state_spares_def)
next
  case (step rs s s')
  then show ?case using step_spares by blast
qed

section \<open>From the start of the service\<close>

lemma started_ready:
  assumes "bio_drv_list fw = []"
    "daemon_main env h conf u (community_dlopen h lib files) now fw = Inr (Inr d)"
  shows "ready h lib (d_fw d)"
proof -
  obtain fw' where run: "InitBioDevice h conf u (community_dlopen h lib files) fw = Inr (0, fw')"
    and d: "d = bus_acquired_cb (new_daemon now fw')"
    using assms(2) by (auto simp: daemon_main_def bindR_eq_Inr split: if_splits)
  note s = started_framework [OF run assms(1)]
  then have "ready h lib fw'" by (simp add: ready_def good_framework_def)
  then show ?thesis
    by (simp add: d bus_acquired_cb_def new_daemon_def ready_def hooks_of_def fw_ops_def fw_dev_def)
qed

text \<open>
  C2. From the start of the service with the community drivers, whatever is requested by whomever, in
  whatever order the threads run, whatever is plugged in or out, and whichever calls of the database
  fail: as long as no authorised request to enroll, clean or rename names the user (or everybody), the
  features stored for that user stay exactly as they are.
\<close>

theorem user_data_unchanged:
  assumes "bio_drv_list fw = []"
    "daemon_main env h conf u (community_dlopen h lib files) now fw = Inr (Inr d0)"
    "settled_db (s_db (w_store (fw_world (d_fw d0))))"
    "history h d0 rs (d, ts)" "list_all (\<lambda>r. \<not> touches x r) rs"
  shows "user_rows x (w_store (fw_world (d_fw d))) = user_rows x (w_store (fw_world (d_fw d0)))
    \<and> settled_db (s_db (w_store (fw_world (d_fw d))))"
proof -
  note rdy = started_ready [OF assms(1,2)]
  have "list_all (\<lambda>r. \<not> touches_any (Some x) r) rs" using assms(5) by (simp add: touches_any_def)
  from history_spares [OF assms(4) rdy this] show ?thesis
    using rdy assms(3) by (simp add: state_spares_def fw_spares_def keeps_users_def keeps_user_def)
qed

text \<open>A service with one feature of user 1000, which a caller without rights asks to remove.\<close>

definition demo_stored :: "(byte list, byte list) driver_info framework" where
  "demo_stored = no_drivers\<lparr>fw_world := set_store (ready_store [demo_row 1 1000 uuid1 1 0]) demo_cworld\<rparr>"

definition demo_main :: "(int + (byte list, byte list) driver_info daemon) res" where
  "demo_main = daemon_main demo_env demo_host (Some (demo_conf\<lparr>kf_groups := []\<rparr>)) 0
     (community_dlopen demo_host demo_lib demo_files) (0, 0) demo_stored"

lemma demo_main_stored:
  "bindR demo_main (\<lambda>r. case r of Inl e \<Rightarrow> Inr (False, [])
     | Inr d \<Rightarrow> let s = w_store (fw_world (d_fw d)) in Inr (settled_db (s_db s), user_rows 1000 s))
   = Inr (True, [demo_row 1 1000 uuid1 1 0])"
  by code_simp

theorem user_data_unchanged_witness:
  "\<exists>d :: (byte list, byte list) driver_info daemon. history demo_host d [(stranger, Clean (-1) 1000 0 (-1))] (d, [Answered [Complete_enroll (-5)]])
     \<and> user_rows 1000 (w_store (fw_world (d_fw d))) = [demo_row 1 1000 uuid1 1 0]"
proof -
  obtain r where r: "demo_main = Inr r" and on: "(case r of Inl e \<Rightarrow> Inr (False, [])
      | Inr d \<Rightarrow> let s = w_store (fw_world (d_fw d)) in Inr (settled_db (s_db s), user_rows 1000 s))
      = (Inr (True, [demo_row 1 1000 uuid1 1 0]) :: (bool \<times> eigen_row list) res)"
    using demo_main_stored unfolding bindR_eq_Inr by blast
  then obtain d0 where d0: "demo_main = Inr (Inr d0)" "settled_db (s_db (w_store (fw_world (d_fw d0))))"
    "user_rows 1000 (w_store (fw_world (d_fw d0))) = [demo_row 1 1000 uuid1 1 0]"
    by (cases r) (auto simp: Let_def)
  have no: "\<not> authorized stranger 1000 POLKIT_CLEAN_OWN_ACTION_ID POLKIT_CLEAN_ADMIN_ACTION_ID" by code_simp
  let ?t = "Clean_request stranger (-1) 1000 0 (-1)"
  have "history demo_host d0 [(stranger, Clean (-1) 1000 0 (-1))] (d0, [?t])"
    using history.request [OF history.start, of 0 demo_host stranger "Clean (-1) 1000 0 (-1)" d0]
    by (simp add: gdbus_clean_def pthread_create_def)
  moreover have "daemon_step (d0, [?t]) (d0, [Answered [Complete_enroll (-5)]])"
    using daemon_step.go_on [of 0 "[?t]" d0 "Answered [Complete_enroll (-5)]" d0] no by (simp add: clean_start_def)
  ultimately have h: "history demo_host d0 [(stranger, Clean (-1) 1000 0 (-1))] (d0, [Answered [Complete_enroll (-5)]])"
    by (rule history.step) simp
  have "bio_drv_list demo_stored = []" by (simp add: demo_stored_def no_drivers_def)
  note unchanged = user_data_unchanged [OF this d0(1) [unfolded demo_main_def] d0(2) h, of 1000]
  have "user_rows 1000 (w_store (fw_world (d_fw d0))) = user_rows 1000 (w_store (fw_world (d_fw d0)))"
    using unchanged no by simp
  then show ?thesis using h d0(3) by blast
qed

section \<open>A device that is locked\<close>

text \<open>The state the service starts in has no thread, so no lock is held.\<close>

lemma started_inv:
  assumes "bio_drv_list fw = []"
    "daemon_main env h conf u (community_dlopen h lib files) now fw = Inr (Inr d)"
  shows "daemon_inv (d, [])"
proof -
  obtain fw' where run: "InitBioDevice h conf u (community_dlopen h lib files) fw = Inr (0, fw')"
    and d: "d = bus_acquired_cb (new_daemon now fw')"
    using assms(2) by (auto simp: daemon_main_def bindR_eq_Inr split: if_splits)
  show ?thesis using new_daemon_inv(1) [OF started_framework(1) [OF run assms(1)]] d by simp
qed











end
