(* ===== verification/Enroll_Requests.thy ===== *)
theory Enroll_Requests
  imports Enroll_Verify Bio_Daemon
begin

text \<open>
  Requests to enroll that leave the index to the service: the allocation of the index, the enrollment through the
  framework and the community driver, and the database, one request after the other.
\<close>

section \<open>One request\<close>

lemma ready_feature_ok: "store_ready h dev s \<Longrightarrow> feature_ok s"
  by (auto simp: store_ready_def feature_ok_def list_all_iff sound_def has_uuid_column_def has_eigen_info_def
      split: option.splits)

text \<open>The user has the features \<open>0, \<dots>, n - 1\<close> of the device, and no row of an index above.\<close>

definition enrolled_below ::
    "host \<Rightarrow> byte list \<Rightarrow> BioType \<Rightarrow> string \<Rightarrow> int \<Rightarrow> nat \<Rightarrow> ('pr, 'sc) cworld \<Rightarrow> bool" where
  "enrolled_below h key b d uid n w \<longleftrightarrow>
     store_ready h (w_dev w) (w_store w) \<and> device_name (w_dev w) = Some d \<and> biotype (bioinfo (w_dev w)) = b
     \<and> enable (w_dev w) \<noteq> 0 \<and> aes_key (w_priv w) = Some key \<and> settled h (s_users (w_store w)) uid
     \<and> set (feature_indexes h b d (w_store w) uid) = {0..<int n}
     \<and> list_all (\<lambda>r. r_uid r = uid \<longrightarrow> r_index r < int n) (eigen_rows (tables_of (s_db (w_store w))))"

lemma allocates_next:
  assumes "enrolled_below h key b d uid n w" "0 \<le> uid" "int n \<le> INT_MAX"
  shows "bio_common_get_empty_index h uid 0 (-1) w = Inr (int n, w)"
proof -
  have w: "store_ready h (w_dev w) (w_store w)" "device_name (w_dev w) = Some d" "biotype (bioinfo (w_dev w)) = b"
    "set (feature_indexes h b d (w_store w) uid) = {0..<int n}"
    using assms(1) by (simp_all add: enrolled_below_def)
  have "query_db h uid 0 (-1) w = Inr (group_rows (query_rows h uid (biotype_code b) (Some d) 0 (-1) (w_store w)), w)"
    using query_db_ready [OF w(1), of uid 0 "-1"] told_apart_one_user [of uid] assms(2) w(2,3) by simp
  then show ?thesis
    using feature_store.allocated_next [OF ready_feature_ok [OF w(1)] assms(2) w(4) assms(3)]
    by (simp add: bio_common_get_empty_index_def feature_indexes_def)
qed

lemma enrolls_next:
  assumes "enrolled_below h key b d uid n w" "0 \<le> uid" "uid \<le> INT_MAX" "int n < INT_MAX" "16 \<le> length key"
    "ascii d" "length d \<le> 1000" "ascii name" "length name \<le> 1000" "fp_serialize lib p = Some data" "length data \<noteq> 1"
    "events (w_priv w) = [[Opened True], [Enroll_completed (Some p)], [Closed]]"
  shows "\<exists>w'. bio_ops_enroll (community_ops h lib) uid (int n) (Some name) w = Inr (0, w')
    \<and> enrolled_below h key b d uid (Suc n) w'
    \<and> (\<forall>v. 0 \<le> v \<and> v \<noteq> uid \<longrightarrow> set (feature_indexes h b d (w_store w') v) = set (feature_indexes h b d (w_store w) v))"
proof -
  have w: "store_ready h (w_dev w) (w_store w)" "device_name (w_dev w) = Some d" "biotype (bioinfo (w_dev w)) = b"
    "enable (w_dev w) \<noteq> 0" "aes_key (w_priv w) = Some key" "settled h (s_users (w_store w)) uid"
    "set (feature_indexes h b d (w_store w) uid) = {0..<int n}"
    "list_all (\<lambda>r. r_uid r = uid \<longrightarrow> r_index r < int n) (eigen_rows (tables_of (s_db (w_store w))))"
    using assms(1) by (simp_all add: enrolled_below_def)
  have "list_all (\<lambda>r. \<not> row_selected uid (biotype_code b) (Some d) (int n) (int n) r) (eigen_rows (tables_of (s_db (w_store w))))"
    using w(8) assms(2) by (auto simp: list_all_iff row_selected_def)
  then have can: "can_enroll h (w_dev w) d (w_store w) uid (int n)"
    using w(1-3,6) assms(2,4) by (simp add: can_enroll_def)
  have "\<bar>biotype_code b\<bar> < 2 ^ 32" by (cases b) simp_all
  then have pw: "prints_well (w_dev w) d uid (int n) name"
    unfolding prints_well_def using assms(2-4,6-9) w(3)
    by (intro plain_printable [where d = d and name = name]) (simp_all add: INT_MAX_def)
  obtain w' where e: "bio_ops_enroll (community_ops h lib) uid (int n) (Some name) w = Inr (0, w')"
    "identity (w_dev w') = identity (w_dev w)" "enrolled h key (w_dev w') d uid (int n) data (w_store w')"
    "aes_key (w_priv w') = Some key" "one_more h b d uid (int n) (w_store w) (w_store w')"
    using framework_enrolls [OF can w(5) assms(5) w(4) assms(10-12) pw] w(3) by blast
  note dev = identity_fields [OF e(2)]
  note next_index = feature_store.stored_next [OF ready_feature_ok [OF w(1)] assms(2) w(7) e(5)]
  obtain r where r: "eigen_rows (tables_of (s_db (w_store w'))) = eigen_rows (tables_of (s_db (w_store w))) @ [r]"
    "r_index r = int n" "s_users (w_store w') = s_users (w_store w)"
    using e(5) by (auto simp: one_more_def)
  have "enrolled_below h key b d uid (Suc n) w'"
    unfolding enrolled_below_def r(1)
    using e(3,4) w dev r(2,3) next_index(2) by (auto simp: enrolled_def list_all_iff)
  then show ?thesis using e(1) next_index(3) by blast
qed

section \<open>One request after the other\<close>

text \<open>The operation of a request for each of the prints that the library delivers, one after the other.\<close>

primrec enroll_each ::
    "(('pr, 'sc) cworld \<Rightarrow> ('a \<times> ('pr, 'sc) cworld) res) \<Rightarrow> 'pr list \<Rightarrow> ('pr, 'sc) cworld \<Rightarrow> ('pr, 'sc) cworld res" where
  "enroll_each op [] w = Inr w"
| "enroll_each op (p # ps) w =
     bindR (op (with_events [[Opened True], [Enroll_completed (Some p)], [Closed]] w)) (\<lambda>(_, w). enroll_each op ps w)"

lemma enrolled_below_events [simp]: "enrolled_below h key b d uid n (with_events evs w) = enrolled_below h key b d uid n w"
  by (simp add: enrolled_below_def)

lemma enroll_each_next:
  assumes "enrolled_below h key b d uid n w" "0 \<le> uid" "uid \<le> INT_MAX" "int n + int (length ps) \<le> INT_MAX" "16 \<le> length key"
    "ascii d" "length d \<le> 1000" "ascii name" "length name \<le> 1000"
    "list_all (\<lambda>p. case fp_serialize lib p of None \<Rightarrow> False | Some data \<Rightarrow> length data \<noteq> 1) ps"
  shows "\<exists>w'. enroll_each (job_op (gdbus_enroll_pt h c k uid (-1) name) (community_ops h lib)) ps w = Inr w'
    \<and> enrolled_below h key b d uid (n + length ps) w'
    \<and> (\<forall>v. 0 \<le> v \<and> v \<noteq> uid \<longrightarrow> set (feature_indexes h b d (w_store w') v) = set (feature_indexes h b d (w_store w) v))"
  using assms(1,4,10)
proof (induction ps arbitrary: n w)
  case (Cons p ps)
  let ?w = "with_events [[Opened True], [Enroll_completed (Some p)], [Closed]] w"
  obtain data where data: "fp_serialize lib p = Some data" "length data \<noteq> 1"
    using Cons.prems(3) by (auto split: option.splits)
  have i: "bio_common_get_empty_index h uid 0 (-1) ?w = Inr (int n, ?w)"
    by (rule allocates_next [of h key b d]) (use Cons.prems assms(2) in simp_all)
  obtain w1 where w1: "bio_ops_enroll (community_ops h lib) uid (int n) (Some name) ?w = Inr (0, w1)"
    "enrolled_below h key b d uid (Suc n) w1"
    "\<forall>v. 0 \<le> v \<and> v \<noteq> uid \<longrightarrow> set (feature_indexes h b d (w_store w1) v) = set (feature_indexes h b d (w_store w) v)"
    using enrolls_next [of h key b d uid n ?w name lib p data] Cons.prems assms(2,3,5-9) data by auto
  have op: "\<exists>a. job_op (gdbus_enroll_pt h c k uid (-1) name) (community_ops h lib) ?w = Inr (a, w1)"
    using i w1(1) by (simp add: gdbus_enroll_pt_def)
  then show ?case using Cons.IH [OF w1(2)] Cons.prems(2,3) w1(3) by auto
qed simp

text \<open>
  C30. Requests to enroll that leave the index to the service, for a user without features, use the indexes
  \<open>0, \<dots>, n - 1\<close> when the library delivers \<open>n\<close> prints: the feature of each is stored at the next index, and
  no other user's indexes change.
\<close>

theorem enrolled_indexes_consecutive:
  assumes "store_ready h (w_dev w) (w_store w)" "device_name (w_dev w) = Some d" "enable (w_dev w) \<noteq> 0"
    "aes_key (w_priv w) = Some key" "16 \<le> length key" "settled h (s_users (w_store w)) uid" "0 \<le> uid" "uid \<le> INT_MAX"
    "list_all (\<lambda>r. r_uid r \<noteq> uid) (eigen_rows (tables_of (s_db (w_store w))))"
    "ascii d" "length d \<le> 1000" "ascii name" "length name \<le> 1000" "int (length ps) \<le> INT_MAX"
    "list_all (\<lambda>p. case fp_serialize lib p of None \<Rightarrow> False | Some data \<Rightarrow> length data \<noteq> 1) ps"
  shows "\<exists>w'. enroll_each (job_op (gdbus_enroll_pt h c k uid (-1) name) (community_ops h lib)) ps w = Inr w'
    \<and> set (feature_indexes h (biotype (bioinfo (w_dev w))) d (w_store w') uid) = {0..<int (length ps)}
    \<and> (\<forall>v. 0 \<le> v \<and> v \<noteq> uid \<longrightarrow> set (feature_indexes h (biotype (bioinfo (w_dev w))) d (w_store w') v)
         = set (feature_indexes h (biotype (bioinfo (w_dev w))) d (w_store w) v))"
proof -
  have "enrolled_below h key (biotype (bioinfo (w_dev w))) d uid 0 w"
    using assms(1-4,6,7,9) by (auto simp: enrolled_below_def feature_indexes_set row_selected_def list_all_iff)
  from enroll_each_next [OF this assms(7,8) _ assms(5,10-13,15), of c k] show ?thesis
    using assms(14) by (fastforce simp: enrolled_below_def)
qed

theorem enrolled_indexes_consecutive_witness:
  "\<exists>w'. enroll_each (job_op (gdbus_enroll_pt demo_host \<lparr>unix_user = Some 7, unix_process_id = Some 42, polkit_authorized = (\<lambda>_. Some True)\<rparr> 3 7 (-1) ''thumb'') (community_ops demo_host demo_lib))
      [[1, 2, 3], [4, 5, 6], [7, 8]] demo_cworld = Inr w'
    \<and> set (feature_indexes demo_host BioT_FingerPrint ''aes2501'' (w_store w') 7) = {0..<3}"
proof -
  have t: "ascii ''aes2501''" "ascii ''thumb''" by code_simp+
  have "store_ready demo_host (w_dev demo_cworld) (w_store demo_cworld)" "device_name (w_dev demo_cworld) = Some ''aes2501''"
    "enable (w_dev demo_cworld) \<noteq> 0" "aes_key (w_priv demo_cworld) = Some default_key_buf" "16 \<le> length default_key_buf"
    "settled demo_host (s_users (w_store demo_cworld)) 7" "biotype (bioinfo (w_dev demo_cworld)) = BioT_FingerPrint"
    "list_all (\<lambda>r. r_uid r \<noteq> 7) (eigen_rows (tables_of (s_db (w_store demo_cworld))))"
    using demo_can_enroll
    by (simp_all add: can_enroll_def demo_cworld_def demo_priv_def length_default_key_buf idle_dev_def
        ready_store_def demo_store_def tables_of_def eigen_rows_def)
  from enrolled_indexes_consecutive [OF this(1-6) _ _ this(8) t(1) _ t(2), of "[[1, 2, 3], [4, 5, 6], [7, 8]]" demo_lib "\<lparr>unix_user = Some 7, unix_process_id = Some 42, polkit_authorized = (\<lambda>_. Some True)\<rparr>" 3] this(7)
  show ?thesis by (fastforce simp: demo_lib_def INT_MAX_def)
qed

end
