(* ===== verification/Config_Tool.thy ===== *)
theory Config_Tool
  imports Bio_Devlist "HOL-Library.AList"
begin

text \<open>
  The configuration tool (\<open>src/src/utils/biometric-config-tool\<close>): its commands, each of which checks its
  arguments, edits the key file of the drivers in memory and writes it back. The key files and
  the option parser are those of GLib: a parameter, with what its documentation says as a
  locale.
\<close>

section \<open>GLib\<close>

record 'k glib =
  g_key_file_new :: 'k
  g_key_file_get_groups :: "'k \<Rightarrow> string list"
  g_key_file_has_group :: "'k \<Rightarrow> string \<Rightarrow> bool"
  g_key_file_get_value :: "'k \<Rightarrow> string \<Rightarrow> string \<Rightarrow> string option"
  g_key_file_has_key :: "'k \<Rightarrow> string \<Rightarrow> string \<Rightarrow> bool"
  g_key_file_get_string :: "'k \<Rightarrow> string \<Rightarrow> string \<Rightarrow> string option"
  g_key_file_get_boolean :: "'k \<Rightarrow> string \<Rightarrow> string \<Rightarrow> bool option"
  g_key_file_set_value :: "'k \<Rightarrow> string \<Rightarrow> string \<Rightarrow> string \<Rightarrow> 'k"
  g_key_file_set_boolean :: "'k \<Rightarrow> string \<Rightarrow> string \<Rightarrow> bool \<Rightarrow> 'k"
  g_key_file_remove_group :: "'k \<Rightarrow> string \<Rightarrow> 'k"
  g_key_file_remove_key :: "'k \<Rightarrow> string \<Rightarrow> string \<Rightarrow> 'k"

text \<open>
  What loading the file answers: the key file, or an error code with what is left in the key file;
  whether writing succeeds; and the parser, from the long names of the options to the names given
  and the arguments left (the program's name first), or an error.
\<close>

record 'k system =
  load_from_file :: "'k + int \<times> 'k"
  save_to_file :: "'k \<Rightarrow> bool"
  g_option_context_parse :: "string list \<Rightarrow> string list \<Rightarrow> (string list \<times> string list) option"

section \<open>The state of the tool\<close>

text \<open>The global variables, and the last key file written.\<close>

record 'k tool =
  bio_config_file :: 'k
  force_override :: bool
  driver_disable :: bool
  driver_ignore :: bool
  ignore_exist :: bool
  key_is_exist :: bool
  written :: "'k option"

text \<open>Why the tool exits with 1; the message about a driver names it.\<close>

datatype failure = Bad_options | Bad_count | Driver_exists | No_driver string | Key_exists | Write_failed

definition config_init :: "'k glib \<Rightarrow> 'k system \<Rightarrow> int \<times> 'k tool" where
  "config_init g s =
     (let (ret, k) = (case load_from_file s of
                        Inl k \<Rightarrow> (0, k)
                      | Inr (code, k) \<Rightarrow> (if code = 4 then 0 else -1, k))
      in (ret, \<lparr>bio_config_file = k, force_override = False, driver_disable = False, driver_ignore = False,
                ignore_exist = False, key_is_exist = False, written = None\<rparr>))"

definition get_config :: "'k tool \<Rightarrow> 'k" where
  "get_config t = bio_config_file t"

text \<open>The flags the options set, and the arguments they leave.\<close>

definition parse_options ::
    "'k system \<Rightarrow> string list \<Rightarrow> (string list \<Rightarrow> 'k tool \<Rightarrow> 'k tool) \<Rightarrow> string list \<Rightarrow> 'k tool \<Rightarrow> failure + string list \<times> 'k tool" where
  "parse_options s entries set_flags argv t =
     (case g_option_context_parse s entries argv of
        None \<Rightarrow> Inl Bad_options
      | Some (given, argv) \<Rightarrow> Inr (argv, set_flags given t))"

definition save :: "'k system \<Rightarrow> 'k tool \<Rightarrow> failure + 'k tool" where
  "save s t =
     (if save_to_file s (bio_config_file t) then Inr (t\<lparr>written := Some (bio_config_file t)\<rparr>) else Inl Write_failed)"

definition edit :: "('k \<Rightarrow> 'k) \<Rightarrow> 'k tool \<Rightarrow> 'k tool" where
  "edit f t = t\<lparr>bio_config_file := f (bio_config_file t)\<rparr>"

section \<open>The commands\<close>

definition add_driver_entries :: "string list" where "add_driver_entries = [''force'', ''disable'']"
definition disable_driver_entries :: "string list" where "disable_driver_entries = [''ignore'']"
definition enable_driver_entries :: "string list" where "enable_driver_entries = [''ignore'']"
definition remove_driver_entries :: "string list" where "remove_driver_entries = [''ignore'']"
definition remove_key_entries :: "string list" where "remove_key_entries = [''ignore'']"
definition set_key_entries :: "string list" where "set_key_entries = [''force'', ''ignore'']"

definition biometric_config_add_driver ::
    "'k glib \<Rightarrow> 'k system \<Rightarrow> string list \<Rightarrow> 'k tool \<Rightarrow> failure + 'k tool" where
  "biometric_config_add_driver g s argv t =
     (case parse_options s add_driver_entries (\<lambda>given t. t\<lparr>
              force_override := force_override t \<or> ''force'' \<in> set given,
              driver_disable := driver_disable t \<or> ''disable'' \<in> set given\<rparr>) argv t of
        Inl e \<Rightarrow> Inl e
      | Inr (argv, t) \<Rightarrow>
          if length argv \<noteq> 3 then Inl Bad_count
          else let driver_name = argv ! 1; driver_path = argv ! 2
               in if g_key_file_has_group g (bio_config_file t) driver_name \<and> \<not> force_override t then Inl Driver_exists
                  else let t = edit (\<lambda>k. g_key_file_set_boolean g k driver_name ''Enable'' (\<not> driver_disable t)) t;
                           t = edit (\<lambda>k. g_key_file_set_value g k driver_name ''Driver'' driver_path) t
                       in save s t)"

text \<open>Three commands take a list of drivers; unless told to ignore it, they stop at the first that is not there.\<close>

definition missing_driver :: "'k glib \<Rightarrow> 'k tool \<Rightarrow> string list \<Rightarrow> string option" where
  "missing_driver g t names =
     (if driver_ignore t then None else List.find (\<lambda>n. \<not> g_key_file_has_group g (bio_config_file t) n) names)"

definition each_driver ::
    "('k \<Rightarrow> string \<Rightarrow> 'k) \<Rightarrow> string list \<Rightarrow> 'k glib \<Rightarrow> 'k system \<Rightarrow> string list \<Rightarrow> 'k tool \<Rightarrow> failure + 'k tool" where
  "each_driver f entries g s argv t =
     (case parse_options s entries (\<lambda>given t. t\<lparr>driver_ignore := driver_ignore t \<or> ''ignore'' \<in> set given\<rparr>) argv t of
        Inl e \<Rightarrow> Inl e
      | Inr (argv, t) \<Rightarrow>
          if length argv < 2 then Inl Bad_count
          else case missing_driver g t (tl argv) of
                 Some n \<Rightarrow> Inl (No_driver n)
               | None \<Rightarrow> save s (edit (\<lambda>k. foldl f k (tl argv)) t))"

definition set_enable :: "'k glib \<Rightarrow> bool \<Rightarrow> 'k \<Rightarrow> string \<Rightarrow> 'k" where
  "set_enable g b k n = (if g_key_file_has_group g k n then g_key_file_set_boolean g k n ''Enable'' b else k)"

definition biometric_config_disable_driver ::
    "'k glib \<Rightarrow> 'k system \<Rightarrow> string list \<Rightarrow> 'k tool \<Rightarrow> failure + 'k tool" where
  "biometric_config_disable_driver g = each_driver (set_enable g False) disable_driver_entries g"

definition biometric_config_enable_driver ::
    "'k glib \<Rightarrow> 'k system \<Rightarrow> string list \<Rightarrow> 'k tool \<Rightarrow> failure + 'k tool" where
  "biometric_config_enable_driver g = each_driver (set_enable g True) enable_driver_entries g"

definition biometric_config_remove_driver ::
    "'k glib \<Rightarrow> 'k system \<Rightarrow> string list \<Rightarrow> 'k tool \<Rightarrow> failure + 'k tool" where
  "biometric_config_remove_driver g = each_driver (g_key_file_remove_group g) remove_driver_entries g"

text \<open>The message about a missing driver shows \<open>argv[0]\<close>, the name of the tool.\<close>

definition biometric_config_remove_key ::
    "'k glib \<Rightarrow> 'k system \<Rightarrow> string list \<Rightarrow> 'k tool \<Rightarrow> failure + 'k tool" where
  "biometric_config_remove_key g s argv t =
     (case parse_options s remove_key_entries (\<lambda>given t. t\<lparr>driver_ignore := driver_ignore t \<or> ''ignore'' \<in> set given\<rparr>) argv t of
        Inl e \<Rightarrow> Inl e
      | Inr (argv, t) \<Rightarrow>
          if length argv \<noteq> 3 then Inl Bad_count
          else if \<not> g_key_file_has_group g (bio_config_file t) (argv ! 1) \<and> \<not> driver_ignore t then Inl (No_driver (argv ! 0))
          else save s (edit (\<lambda>k. foldl (\<lambda>k key. g_key_file_remove_key g k (argv ! 1) key) k (drop 2 argv)) t))"

definition biometric_config_set_key ::
    "'k glib \<Rightarrow> 'k system \<Rightarrow> string list \<Rightarrow> 'k tool \<Rightarrow> failure + 'k tool" where
  "biometric_config_set_key g s argv t =
     (case parse_options s set_key_entries (\<lambda>given t. t\<lparr>
              force_override := force_override t \<or> ''force'' \<in> set given,
              ignore_exist := ignore_exist t \<or> ''ignore'' \<in> set given\<rparr>) argv t of
        Inl e \<Rightarrow> Inl e
      | Inr (argv, t) \<Rightarrow>
          if length argv \<noteq> 4 then Inl Bad_count
          else let driver_name = argv ! 1; key = argv ! 2;
                   value = (if length argv = 3 then '''' else argv ! 3)
               in if \<not> g_key_file_has_group g (bio_config_file t) driver_name then Inl (No_driver driver_name)
                  else let t = t\<lparr>key_is_exist := g_key_file_has_key g (bio_config_file t) driver_name key\<rparr>
                       in if key_is_exist t \<and> ignore_exist t then Inr t
                          else if key_is_exist t \<and> \<not> force_override t then Inl Key_exists
                          else save s (edit (\<lambda>k. g_key_file_set_value g k driver_name key value) t))"

section \<open>The main program\<close>

definition commands :: "'k glib \<Rightarrow> (string \<times> ('k system \<Rightarrow> string list \<Rightarrow> 'k tool \<Rightarrow> failure + 'k tool)) list" where
  "commands g =
    [(''add-driver'', biometric_config_add_driver g), (''remove-driver'', biometric_config_remove_driver g),
     (''enable-driver'', biometric_config_enable_driver g), (''disable-driver'', biometric_config_disable_driver g),
     (''set-key'', biometric_config_set_key g), (''remove-key'', biometric_config_remove_key g)]"

text \<open>
  The first argument that does not begin with a dash is the name of the command, and is taken out;
  an empty argument does not.
\<close>

fun extract_loop :: "string list \<Rightarrow> string option \<Rightarrow> string list \<times> string option" where
  "extract_loop [] name = ([], name)"
| "extract_loop (a # as) name =
     (if (a = [] \<or> hd a \<noteq> CHR ''-'') \<and> name = None then extract_loop as (Some a)
      else let (as', name) = extract_loop as name in (a # as', name))"

text \<open>Without even the name of the program, the terminating null pointer is written past the array.\<close>

definition extract_command :: "string list \<Rightarrow> (string list \<times> string option) res" where
  "extract_command argv =
     (case argv of
        [] \<Rightarrow> Inl Out_of_bounds
      | prog # as \<Rightarrow> let (as, name) = extract_loop as None in Inr (prog # as, name))"

text \<open>The exit code, and the state; without a command of this name there is an error, and the answer is 1.\<close>

definition biometric_config_run ::
    "'k glib \<Rightarrow> 'k system \<Rightarrow> string list \<Rightarrow> 'k tool \<Rightarrow> (failure option \<times> int \<times> 'k tool) res" where
  "biometric_config_run g s argv t =
     bindR (extract_command argv) (\<lambda>(argv, name).
     Inr (case (case name of None \<Rightarrow> None | Some n \<Rightarrow> map_of (commands g) n) of
            None \<Rightarrow> (None, 1, t)
          | Some f \<Rightarrow> (case f s argv t of
                         Inl e \<Rightarrow> (Some e, 1, t)
                       | Inr t \<Rightarrow> (None, 0, t))))"

text \<open>What \<open>config_init\<close> answers is ignored.\<close>

definition config_main :: "'k glib \<Rightarrow> 'k system \<Rightarrow> string list \<Rightarrow> (failure option \<times> int \<times> 'k tool) res" where
  "config_main g s argv = (let (_, t) = config_init g s in biometric_config_run g s argv t)"

section \<open>What the framework reads\<close>

definition key_file_of :: "'k glib \<Rightarrow> 'k \<Rightarrow> key_file" where
  "key_file_of g k = \<lparr>kf_groups = g_key_file_get_groups g k, kf_string = g_key_file_get_string g k,
     kf_boolean = g_key_file_get_boolean g k\<rparr>"

section \<open>What GLib documents\<close>

text \<open>
  Groups are kept in order, a new one at the end; a value set is the value got, and nothing else
  changes; how strings and truth values are read from values. Names that are not valid are not
  part of this.
\<close>

locale gkeyfile =
  fixes g :: "'k glib" and name_ok :: "string \<Rightarrow> bool"
    and parse_string :: "string \<Rightarrow> string option" and parse_boolean :: "string \<Rightarrow> bool option"
  assumes has_group: "g_key_file_has_group g k n \<longleftrightarrow> n \<in> set (g_key_file_get_groups g k)"
    and has_key: "g_key_file_has_key g k n key \<longleftrightarrow> g_key_file_get_value g k n key \<noteq> None"
    and set_groups: "name_ok n \<Longrightarrow> name_ok key \<Longrightarrow> g_key_file_get_groups g (g_key_file_set_value g k n key v) =
      (if n \<in> set (g_key_file_get_groups g k) then g_key_file_get_groups g k else g_key_file_get_groups g k @ [n])"
    and set_value: "name_ok n \<Longrightarrow> name_ok key \<Longrightarrow> g_key_file_get_value g (g_key_file_set_value g k n key v) n' key' =
      (if n' = n \<and> key' = key then Some v else g_key_file_get_value g k n' key')"
    and set_boolean: "g_key_file_set_boolean g k n key b = g_key_file_set_value g k n key (if b then ''true'' else ''false'')"
    and remove_group_groups: "g_key_file_get_groups g (g_key_file_remove_group g k n) = filter (\<lambda>n'. n' \<noteq> n) (g_key_file_get_groups g k)"
    and remove_group_value: "g_key_file_get_value g (g_key_file_remove_group g k n) n' key =
      (if n' = n then None else g_key_file_get_value g k n' key)"
    and remove_key_groups: "g_key_file_get_groups g (g_key_file_remove_key g k n key) = g_key_file_get_groups g k"
    and remove_key_value: "g_key_file_get_value g (g_key_file_remove_key g k n key) n' key' =
      (if n' = n \<and> key' = key then None else g_key_file_get_value g k n' key')"
    and get_string: "g_key_file_get_string g k n key = Option.bind (g_key_file_get_value g k n key) parse_string"
    and get_boolean: "g_key_file_get_boolean g k n key = Option.bind (g_key_file_get_value g k n key) parse_boolean"
    and plain_string: "CHR 0x5C \<notin> set v \<Longrightarrow> parse_string v = Some v"
    and truth_values: "parse_boolean ''true'' = Some True" "parse_boolean ''false'' = Some False"
    and keys_ok: "name_ok ''Enable''" "name_ok ''Driver''"
begin

lemmas edits = set_groups set_value set_boolean remove_group_groups remove_group_value remove_key_groups remove_key_value
  get_string get_boolean plain_string truth_values keys_ok

text \<open>What a driver is for the framework after it was added.\<close>

lemma added:
  fixes k n path b
  defines "k' \<equiv> g_key_file_set_value g (g_key_file_set_boolean g k n ''Enable'' b) n ''Driver'' path"
  assumes "name_ok n" "n \<notin> set (g_key_file_get_groups g k)" "CHR 0x5C \<notin> set path"
  shows "g_key_file_get_groups g k' = g_key_file_get_groups g k @ [n]"
    "g_key_file_get_string g k' n ''Driver'' = Some path" "g_key_file_get_boolean g k' n ''Enable'' = Some b"
    "n' \<noteq> n \<Longrightarrow> g_key_file_get_string g k' n' key = g_key_file_get_string g k n' key
       \<and> g_key_file_get_boolean g k' n' key = g_key_file_get_boolean g k n' key"
  using assms by (simp_all add: edits k'_def)

lemma enabled_groups:
  "list_all name_ok names \<Longrightarrow> g_key_file_get_groups g (foldl (set_enable g b) k names) = g_key_file_get_groups g k"
  by (induction names arbitrary: k) (simp_all add: set_enable_def has_group edits)

lemma enabled_values:
  "list_all name_ok names \<Longrightarrow> g_key_file_get_value g (foldl (set_enable g b) k names) n key =
     (if n \<in> set names \<and> n \<in> set (g_key_file_get_groups g k) \<and> key = ''Enable''
      then Some (if b then ''true'' else ''false'') else g_key_file_get_value g k n key)"
proof (induction names arbitrary: k)
  case (Cons m ns)
  then show ?case by (auto simp: set_enable_def has_group edits)
qed simp

end

section \<open>Key files as lists\<close>

text \<open>Groups with their keys, in the order of the file.\<close>

type_synonym key_list = "(string \<times> (string \<times> string) list) list"

definition value_of :: "key_list \<Rightarrow> string \<Rightarrow> string \<Rightarrow> string option" where
  "value_of k n key = Option.bind (map_of k n) (\<lambda>ps. map_of ps key)"

definition put_value :: "key_list \<Rightarrow> string \<Rightarrow> string \<Rightarrow> string \<Rightarrow> key_list" where
  "put_value k n key v = AList.update n (AList.update key v (case map_of k n of None \<Rightarrow> [] | Some ps \<Rightarrow> ps)) k"

definition read_string :: "string \<Rightarrow> string option" where
  "read_string v = (if CHR 0x5C \<in> set v then None else Some v)"

definition read_boolean :: "string \<Rightarrow> bool option" where
  "read_boolean v = (if v \<in> {''true'', ''1''} then Some True else if v \<in> {''false'', ''0''} then Some False else None)"

definition list_glib :: "key_list glib" where
  "list_glib =
     \<lparr>g_key_file_new = [], g_key_file_get_groups = map fst, g_key_file_has_group = (\<lambda>k n. n \<in> fst ` set k),
      g_key_file_get_value = value_of, g_key_file_has_key = (\<lambda>k n key. value_of k n key \<noteq> None),
      g_key_file_get_string = (\<lambda>k n key. Option.bind (value_of k n key) read_string),
      g_key_file_get_boolean = (\<lambda>k n key. Option.bind (value_of k n key) read_boolean),
      g_key_file_set_value = put_value,
      g_key_file_set_boolean = (\<lambda>k n key b. put_value k n key (if b then ''true'' else ''false'')),
      g_key_file_remove_group = (\<lambda>k n. AList.delete n k),
      g_key_file_remove_key = (\<lambda>k n key. map (\<lambda>(m, ps). (m, if m = n then AList.delete key ps else ps)) k)\<rparr>"

lemma map_fst_update: "map fst (AList.update n x k) = (if n \<in> fst ` set k then map fst k else map fst k @ [n])"
  by (induction k) auto

lemma map_fst_delete: "map fst (AList.delete n k) = filter (\<lambda>m. m \<noteq> n) (map fst k)"
  by (induction k) (auto simp: AList.delete_eq)

lemma map_of_delete: "map_of (AList.delete n k) = (map_of k)(n := None)"
  by (simp add: AList.delete_conv')

lemma value_of_remove_key:
  "value_of (map (\<lambda>(m, ps). (m, if m = n then AList.delete key ps else ps)) k) n' key' =
     (if n' = n \<and> key' = key then None else value_of k n' key')"
proof -
  have "map_of (map (\<lambda>(m, ps). (m, if m = n then AList.delete key ps else ps)) k) n' =
      map_option (\<lambda>ps. if n' = n then AList.delete key ps else ps) (map_of k n')"
    by (induction k) auto
  then show ?thesis by (cases "map_of k n'") (auto simp: value_of_def map_of_delete)
qed

interpretation key_lists: gkeyfile list_glib "\<lambda>n. n \<noteq> []" read_string read_boolean
proof
  show "g_key_file_get_value list_glib (g_key_file_set_value list_glib k n key v) n' key' =
      (if n' = n \<and> key' = key then Some v else g_key_file_get_value list_glib k n' key')" for k n key v n' key'
    by (auto simp: list_glib_def value_of_def put_value_def AList.update_conv' split: option.split)
qed (auto simp: list_glib_def value_of_def put_value_def map_fst_update map_fst_delete map_of_delete value_of_remove_key [unfolded value_of_def]
    read_string_def read_boolean_def AList.update_conv' comp_def case_prod_beta)

section \<open>What the tool does\<close>

definition plain :: "string \<Rightarrow> bool" where
  "plain a \<longleftrightarrow> a \<noteq> [] \<and> hd a \<noteq> CHR ''-''"

lemma extract_plain:
  assumes "plain c" "list_all plain as"
  shows "extract_command (prog # c # as) = Inr (prog # as, Some c)"
proof -
  have "extract_loop as (Some c) = (as, Some c)" for as by (induction as) simp_all
  then show ?thesis using assms(1) by (simp add: extract_command_def plain_def)
qed

text \<open>
  Adding a driver writes a key file in which its group comes last, with the path and enabled,
  and everything else is as it was; the framework then finds the driver there, and takes its
  device for enabled.
\<close>

theorem config_driver_added:
  assumes "gkeyfile g name_ok parse_string parse_boolean" "load_from_file s = Inl k" "\<And>k. save_to_file s k"
    "g_option_context_parse s add_driver_entries [prog, name, path] = Some ([], [prog, name, path])"
    "plain name" "plain path" "name_ok name" "CHR 0x5C \<notin> set path" "name \<notin> set (g_key_file_get_groups g k)"
    "device_name dev = Some name"
  shows "\<exists>t k'. config_main g s [prog, ''add-driver'', name, path] = Inr (None, 0, t) \<and> written t = Some k'
    \<and> kf_groups (key_file_of g k') = kf_groups (key_file_of g k) @ [name]
    \<and> kf_string (key_file_of g k') name ''Driver'' = Some path \<and> bio_dev_is_enable (key_file_of g k') dev = 1
    \<and> (\<forall>n. n \<noteq> name \<longrightarrow> kf_string (key_file_of g k') n = kf_string (key_file_of g k) n
         \<and> kf_boolean (key_file_of g k') n = kf_boolean (key_file_of g k) n)"
proof -
  note added = gkeyfile.added [OF assms(1,7,9,8)]
  have "plain ''add-driver''" by (simp add: plain_def)
  then have "extract_command [prog, ''add-driver'', name, path] = Inr ([prog, name, path], Some ''add-driver'')"
    using extract_plain assms(5,6) by simp
  moreover have "\<not> g_key_file_has_group g k name" using gkeyfile.has_group [OF assms(1)] assms(9) by simp
  ultimately show ?thesis
    using assms(2-4,10) added
    by (simp add: config_main_def config_init_def biometric_config_run_def commands_def biometric_config_add_driver_def
        parse_options_def save_def edit_def Let_def key_file_of_def bio_dev_is_enable_def fun_eq_iff)
qed

text \<open>A machine whose parser takes no options.\<close>

definition demo_keys :: key_list where
  "demo_keys = [(''elan'', [(''Enable'', ''true''), (''Driver'', ''elan.so'')])]"

definition demo_system :: "key_list + int \<times> key_list \<Rightarrow> key_list system" where
  "demo_system r = \<lparr>load_from_file = r, save_to_file = (\<lambda>_. True), g_option_context_parse = (\<lambda>_ argv. Some ([], argv))\<rparr>"

theorem config_driver_added_witness:
  "\<exists>t k'. config_main list_glib (demo_system (Inl demo_keys)) [''tool'', ''add-driver'', ''aes2501'', ''aes2501.so''] = Inr (None, 0, t)
    \<and> written t = Some k' \<and> kf_groups (key_file_of list_glib k') = [''elan'', ''aes2501'']"
proof -
  let ?s = "demo_system (Inl demo_keys)"
  have s: "load_from_file ?s = Inl demo_keys" "\<And>k. save_to_file ?s k"
    "g_option_context_parse ?s add_driver_entries [''tool'', ''aes2501'', ''aes2501.so''] = Some ([], [''tool'', ''aes2501'', ''aes2501.so''])"
    by (simp_all add: demo_system_def)
  have n: "plain ''aes2501''" "plain ''aes2501.so''" "''aes2501'' \<noteq> []" "CHR 0x5C \<notin> set ''aes2501.so''" by (simp_all add: plain_def)
  have k: "''aes2501'' \<notin> set (g_key_file_get_groups list_glib demo_keys)" "kf_groups (key_file_of list_glib demo_keys) = [''elan'']"
    by (simp_all add: demo_keys_def list_glib_def key_file_of_def)
  have "device_name idle_dev = Some ''aes2501''" by (simp add: idle_dev_def)
  from config_driver_added [OF key_lists.gkeyfile_axioms s n k(1) this] k(2) show ?thesis by fastforce
qed

text \<open>Loading stops at a group without the name of its file, and takes back what was loaded.\<close>

lemma load_without_driver:
  "n \<in> set gs \<Longrightarrow> n \<noteq> '''' \<Longrightarrow> kf_string conf n ''Driver'' = None \<Longrightarrow> load_drivers conf dlopen gs fw = Inr (ok, fw') \<Longrightarrow>
   \<not> ok \<and> bio_drv_list fw' = []"
proof (induction gs arbitrary: fw)
  case (Cons m gs)
  have freed: "bio_drv_list fw2 = []" if "bio_free_driver fw1 = Inr fw2" for fw1 fw2 :: "'a framework"
    using that by (auto simp: bio_free_driver_def bindR_eq_Inr)
  show ?case
  proof (cases "m = '''' \<or> kf_string conf m ''Driver'' = None \<or> kf_string conf m ''Driver'' = Some ''''")
    case True
    then show ?thesis using Cons freed by (auto simp: bindR_eq_Inr split: option.splits if_splits)
  next
    case False
    then obtain path where path: "m \<noteq> ''''" "kf_string conf m ''Driver'' = Some path" "path \<noteq> ''''" by auto
    then have n: "n \<in> set gs" using Cons.prems(1,3) by auto
    obtain fw1 where "load_drivers conf dlopen gs fw1 = Inr (ok, fw')"
      using Cons.prems(4) path by (auto simp: bindR_eq_Inr split: option.splits)
    then show ?thesis using Cons.IH n Cons.prems(2,3) by blast
  qed
qed simp

text \<open>
  C39. Taking the path of one driver out of the key file takes all drivers out of the service: when
  it starts next, it frees the drivers loaded before that group, stops, and has none.
\<close>

theorem driver_key_removed_drops_all:
  assumes "gkeyfile g name_ok parse_string parse_boolean" "load_from_file s = Inl k" "\<And>k. save_to_file s k"
    "g_option_context_parse s remove_key_entries [prog, name, ''Driver''] = Some ([], [prog, name, ''Driver''])"
    "plain name" "name \<in> set (g_key_file_get_groups g k)"
  shows "\<exists>t k'. config_main g s [prog, ''remove-key'', name, ''Driver''] = Inr (None, 0, t) \<and> written t = Some k'
    \<and> on_return (bio_driver_list_init (Some (key_file_of g k')) dlopen fw) (\<lambda>(l, fw'). l = [] \<and> bio_drv_list fw' = [])"
proof -
  let ?k = "g_key_file_remove_key g k name ''Driver''"
  have "plain ''remove-key''" "plain ''Driver''" by (simp_all add: plain_def)
  then have "extract_command [prog, ''remove-key'', name, ''Driver''] = Inr ([prog, name, ''Driver''], Some ''remove-key'')"
    using extract_plain assms(5) by simp
  moreover have "g_key_file_has_group g k name" using gkeyfile.has_group [OF assms(1)] assms(6) by simp
  ultimately have "\<exists>t. config_main g s [prog, ''remove-key'', name, ''Driver''] = Inr (None, 0, t) \<and> written t = Some ?k"
    using assms(2-4)
    by (simp add: config_main_def config_init_def biometric_config_run_def commands_def biometric_config_remove_key_def
        parse_options_def save_def edit_def Let_def)
  moreover have c: "kf_string (key_file_of g ?k) name ''Driver'' = None" "name \<in> set (kf_groups (key_file_of g ?k))" "name \<noteq> ''''"
    using gkeyfile.edits(6-8) [OF assms(1)] assms(5,6) by (simp_all add: key_file_of_def plain_def)
  have "on_return (bio_driver_list_init (Some (key_file_of g ?k)) dlopen fw) (\<lambda>(l, fw'). l = [] \<and> bio_drv_list fw' = [])"
    unfolding bio_driver_list_init_def option.case on_return_bind
    using load_without_driver [OF c(2,3,1)] by (force simp: on_return_def split: sum.split)
  ultimately show ?thesis by blast
qed

theorem driver_key_removed_drops_all_witness:
  "\<exists>t k'. config_main list_glib (demo_system (Inl demo_keys)) [''tool'', ''remove-key'', ''elan'', ''Driver''] = Inr (None, 0, t)
    \<and> written t = Some k'
    \<and> on_return (bio_driver_list_init (Some (key_file_of list_glib k')) (\<lambda>_. None) counting_fw) (\<lambda>(l, fw'). l = [] \<and> bio_drv_list fw' = [])"
proof -
  let ?s = "demo_system (Inl demo_keys)"
  have s: "load_from_file ?s = Inl demo_keys" "\<And>k. save_to_file ?s k"
    "g_option_context_parse ?s remove_key_entries [''tool'', ''elan'', ''Driver''] = Some ([], [''tool'', ''elan'', ''Driver''])"
    by (simp_all add: demo_system_def)
  have n: "plain ''elan''" "''elan'' \<in> set (g_key_file_get_groups list_glib demo_keys)"
    by (simp_all add: plain_def demo_keys_def list_glib_def)
  show ?thesis by (rule driver_key_removed_drops_all [OF key_lists.gkeyfile_axioms s n])
qed

text \<open>
  C37. Enabling and disabling are all or nothing: when a named driver is missing, and is not to be
  ignored, nothing is written; otherwise every named driver there is gets the new value, and
  nothing else changes, neither the order of the groups nor any other value.
\<close>

theorem enable_all_or_nothing:
  assumes "gkeyfile g name_ok parse_string parse_boolean" "bio_config_file t = k" "written t = None" "\<And>k. save_to_file s k"
    "g_option_context_parse s [''ignore''] (prog # names) = Some (given, prog # names)" "names \<noteq> []" "list_all name_ok names"
    "command = (if b then biometric_config_enable_driver else biometric_config_disable_driver)"
  shows "if \<not> driver_ignore t \<and> ''ignore'' \<notin> set given \<and> \<not> set names \<subseteq> set (g_key_file_get_groups g k)
    then \<exists>n. command g s (prog # names) t = Inl (No_driver n) \<and> n \<in> set names \<and> n \<notin> set (g_key_file_get_groups g k)
    else \<exists>t' k'. command g s (prog # names) t = Inr t' \<and> written t' = Some k'
      \<and> g_key_file_get_groups g k' = g_key_file_get_groups g k
      \<and> (\<forall>n key. g_key_file_get_value g k' n key =
           (if n \<in> set names \<and> n \<in> set (g_key_file_get_groups g k) \<and> key = ''Enable''
            then Some (if b then ''true'' else ''false'') else g_key_file_get_value g k n key))"
proof -
  let ?t = "t\<lparr>driver_ignore := driver_ignore t \<or> ''ignore'' \<in> set given\<rparr>"
  have c: "command g s (prog # names) t = (case missing_driver g ?t names of
      Some n \<Rightarrow> Inl (No_driver n) | None \<Rightarrow> save s (edit (\<lambda>k. foldl (set_enable g b) k names) ?t))"
    using assms(5,6,8)
    by (cases names; cases b) (simp_all add: biometric_config_enable_driver_def biometric_config_disable_driver_def each_driver_def
        enable_driver_entries_def disable_driver_entries_def parse_options_def split: option.split)
  have m: "missing_driver g ?t names = (if driver_ignore t \<or> ''ignore'' \<in> set given then None
      else List.find (\<lambda>n. n \<notin> set (g_key_file_get_groups g k)) names)"
    using gkeyfile.has_group [OF assms(1)] assms(2) by (simp add: missing_driver_def)
  have saved: "save s (edit (\<lambda>k. foldl (set_enable g b) k names) ?t) =
      Inr (?t\<lparr>bio_config_file := foldl (set_enable g b) k names, written := Some (foldl (set_enable g b) k names)\<rparr>)"
    using assms(2,4) by (simp add: save_def edit_def)
  show ?thesis
  proof (cases "missing_driver g ?t names")
    case None
    then have "driver_ignore t \<or> ''ignore'' \<in> set given \<or> set names \<subseteq> set (g_key_file_get_groups g k)"
      using m by (auto simp: find_None_iff split: if_splits)
    then show ?thesis
      using c None saved gkeyfile.enabled_groups [OF assms(1,7)] gkeyfile.enabled_values [OF assms(1,7)] by auto
  next
    case (Some n)
    then have "n \<in> set names" "n \<notin> set (g_key_file_get_groups g k)" "\<not> driver_ignore t" "''ignore'' \<notin> set given"
      using m by (auto simp: find_Some_iff split: if_splits)
    then show ?thesis using c Some by auto
  qed
qed

theorem enable_all_or_nothing_witness:
  "biometric_config_disable_driver list_glib (demo_system (Inl demo_keys)) [''tool'', ''elan'', ''upek'']
     (snd (config_init list_glib (demo_system (Inl demo_keys)))) = Inl (No_driver ''upek'')"
  using enable_all_or_nothing [OF key_lists.gkeyfile_axioms, of "snd (config_init list_glib (demo_system (Inl demo_keys)))" demo_keys
      "demo_system (Inl demo_keys)" "''tool''" "[''elan'', ''upek'']" "[]" biometric_config_disable_driver False]
  by (auto simp: demo_system_def config_init_def demo_keys_def list_glib_def)

text \<open>
  A key file that cannot be read is taken for an empty one, and overwritten: what the loading
  answers is ignored.
\<close>

lemma unreadable_file_overwritten:
  assumes "load_from_file s = Inr (code, g_key_file_new g)" "save_to_file s = (\<lambda>_. True)"
    "g_option_context_parse s add_driver_entries [prog, name, path] = Some ([], [prog, name, path])"
    "plain name" "plain path" "\<not> g_key_file_has_group g (g_key_file_new g) name"
  shows "\<exists>t. config_main g s [prog, ''add-driver'', name, path] = Inr (None, 0, t)
    \<and> written t = Some (g_key_file_set_value g (g_key_file_set_boolean g (g_key_file_new g) name ''Enable'' True) name ''Driver'' path)"
proof -
  have "plain ''add-driver''" by (simp add: plain_def)
  then have "extract_command [prog, ''add-driver'', name, path] = Inr ([prog, name, path], Some ''add-driver'')"
    using extract_plain assms(4,5) by simp
  then show ?thesis
    using assms(1-3,6)
    by (simp add: config_main_def config_init_def biometric_config_run_def commands_def biometric_config_add_driver_def
        parse_options_def save_def edit_def Let_def)
qed

text \<open>Whatever the command, a run that fails has written nothing.\<close>

lemma failed_run_writes_nothing:
  "config_main g s argv = Inr (e, code, t) \<Longrightarrow> code \<noteq> 0 \<Longrightarrow> written t = None"
  by (auto simp: config_main_def config_init_def biometric_config_run_def bindR_eq_Inr split: prod.splits option.splits sum.splits)

end
