(* ===== verification/Discover_Tool.thy ===== *)
theory Discover_Tool
  imports Driver_Tables
begin

text \<open>
  The tool that lists connected devices
  (\<open>src/src/utils/biometric-device-discover/community-multidevice\<close>). What the fingerprint library finds is
  a parameter: the driver of each device, or nothing when it fails.
\<close>

record device_info =
  drv_id :: string
  exist :: bool

definition driver_names :: "string list" where
  "driver_names = [''upekts'', ''uru4000'', ''aes4000'', ''aes2501'', ''upektc'', ''aes1610'', ''fdu2000'', ''vcom5s'',
     ''upeksonly'', ''vfs101'', ''vfs301'', ''aes2550'', ''aes1660'', ''aes2660'', ''aes3500'', ''upektc_img'', ''etes603'',
     ''vfs5011'', ''vfs0050'', ''elan'']"

text \<open>The entry of an id holds the name of its driver; the ids begin with 1.\<close>

definition device_info_list_init :: "device_info list" where
  "device_info_list_init = map (\<lambda>n. \<lparr>drv_id = n, exist = False\<rparr>) ('''' # driver_names)"

fun has_prefix :: "string \<Rightarrow> string \<Rightarrow> bool" where
  "has_prefix (a # p1) (b # p2) = (if a = b then has_prefix p1 p2 else False)"
| "has_prefix p1 [] = True"
| "has_prefix [] (b # p2) = False"

fun is_device_exist :: "device_info list \<Rightarrow> string \<Rightarrow> bool" where
  "is_device_exist [] name = False"
| "is_device_exist (i # is) name = (if name = drv_id i then exist i else is_device_exist is name)"

definition mark_device :: "device_info list \<Rightarrow> string \<Rightarrow> device_info list" where
  "mark_device infos name = map (\<lambda>i. if name = drv_id i then i\<lparr>exist := True\<rparr> else i) infos"

text \<open>\<open>basename\<close> of the C library.\<close>

definition base_name :: "string \<Rightarrow> string" where
  "base_name path =
     (if path = [] then ''.''
      else case dropWhile (\<lambda>c. c = CHR ''/'') (rev path) of
             [] \<Rightarrow> ''/''
           | r \<Rightarrow> rev (takeWhile (\<lambda>c. c \<noteq> CHR ''/'') r))"

definition PROGAM_NAME :: string where
  "PROGAM_NAME = ''community-multidevice-discover-tool''"

text \<open>The exit code and the lines printed: \<open>ret\<close> begins with -1 and counts the lines.\<close>

definition discover_main :: "string list option \<Rightarrow> string list \<Rightarrow> int \<times> string list" where
  "discover_main devices argv =
     (case devices of
        None \<Rightarrow> (-1, [''Impossible to get devices''])
      | Some ds \<Rightarrow>
          let base = (case argv of [] \<Rightarrow> ''.'' | prog # _ \<Rightarrow> base_name prog);
              infos = foldl mark_device device_info_list_init ds;
              lines = (if base \<noteq> PROGAM_NAME
                       then let drv_name = (if has_prefix base ''usb-'' then drop (length ''usb-'') base else base)
                            in if is_device_exist infos drv_name then [drv_name] else []
                       else if length argv = 1 then map drv_id (filter exist infos)
                       else filter (is_device_exist infos) (tl argv))
          in (int (length lines) - 1, lines))"

section \<open>What it lists\<close>

lemma has_prefix_iff: "has_prefix s p \<longleftrightarrow> take (length p) s = p"
  by (induction s p rule: has_prefix.induct) auto

lemma foldl_mark: "foldl mark_device infos ds = map (\<lambda>i. i\<lparr>exist := exist i \<or> drv_id i \<in> set ds\<rparr>) infos"
  by (induction ds arbitrary: infos) (auto simp: mark_device_def)

lemma marked: "foldl mark_device device_info_list_init ds = map (\<lambda>n. \<lparr>drv_id = n, exist = n \<in> set ds\<rparr>) ('''' # driver_names)"
  by (simp add: foldl_mark device_info_list_init_def)

lemma exist_marked: "is_device_exist (map (\<lambda>n. \<lparr>drv_id = n, exist = n \<in> set ds\<rparr>) ns) name \<longleftrightarrow> name \<in> set ns \<and> name \<in> set ds"
  by (induction ns) auto

lemma known_drivers: "set driver_names = set (map fst community_tables)" "distinct driver_names"
  by (simp_all add: driver_names_def community_tables_def) auto

text \<open>
  The tool lists exactly the community drivers that have a device connected: without arguments
  all of them, in the order of their ids; with arguments those of the arguments; under another
  name that of its own name, without the prefix \<open>usb-\<close>. Its exit code is one less than their
  number, so that 0 stands for one device and -1 for none.
\<close>

theorem discover_lists_connected:
  assumes "'''' \<notin> set ds"
  shows "discover_main (Some ds) (prog # args) =
    (let present = (\<lambda>n. n \<in> fst ` set community_tables \<and> n \<in> set ds);
         lines = (if base_name prog \<noteq> PROGAM_NAME
                  then filter present [if take 4 (base_name prog) = ''usb-'' then drop 4 (base_name prog) else base_name prog]
                  else if args = [] then filter present driver_names else filter present args)
     in (int (length lines) - 1, lines))"
proof -
  let ?present = "\<lambda>n. n \<in> fst ` set community_tables \<and> n \<in> set ds"
  have k: "fst ` set community_tables = set driver_names" using known_drivers(1) by simp
  have e: "is_device_exist (foldl mark_device device_info_list_init ds) = ?present"
    using assms by (auto simp: marked exist_marked k fun_eq_iff)
  have l: "map drv_id (filter exist (foldl mark_device device_info_list_init ds)) = filter ?present driver_names"
  proof -
    have "map drv_id (filter exist (map (\<lambda>n. \<lparr>drv_id = n, exist = n \<in> set ds\<rparr>) ns)) = filter (\<lambda>n. n \<in> set ds) ns" for ns
      by (induction ns) simp_all
    moreover have "filter (\<lambda>n. n \<in> set ds) driver_names = filter ?present driver_names" by (rule filter_cong) (simp_all add: k)
    ultimately show ?thesis using assms by (simp add: marked)
  qed
  show ?thesis by (simp add: discover_main_def Let_def e l has_prefix_iff eval_nat_numeral) blast
qed

theorem discover_lists_connected_witness:
  "discover_main (Some [''elan'', ''aes2501'', ''goodix'']) [''/usr/bin/community-multidevice-discover-tool''] = (1, [''aes2501'', ''elan''])"
  using discover_lists_connected [of "[''elan'', ''aes2501'', ''goodix'']" "''/usr/bin/community-multidevice-discover-tool''" "[]"]
  by (simp add: community_tables_def driver_names_def base_name_def PROGAM_NAME_def Let_def)

end
