(* ===== verification/Bio_Print.thy ===== *)
theory Bio_Print
  imports Bio_Devlist Community_Driver
begin

text \<open>
  Messages: \<open>bio_vprint_by_level\<close> and the functions over it, the lists of drivers and devices as they are
  printed (\<open>src/src/lib/biometric_common.c\<close>), and where the table of features writes past its buffers. The texts
  are those of the source: no translation is installed.
\<close>

section \<open>Levels and colours\<close>

abbreviation (input) BIO_PRINT_LEVEL_EMERG :: int where "BIO_PRINT_LEVEL_EMERG \<equiv> 0"
abbreviation (input) BIO_PRINT_LEVEL_ALERT :: int where "BIO_PRINT_LEVEL_ALERT \<equiv> 1"
abbreviation (input) BIO_PRINT_LEVEL_CRIT :: int where "BIO_PRINT_LEVEL_CRIT \<equiv> 2"
abbreviation (input) BIO_PRINT_LEVEL_ERROR :: int where "BIO_PRINT_LEVEL_ERROR \<equiv> 3"
abbreviation (input) BIO_PRINT_LEVEL_WARN :: int where "BIO_PRINT_LEVEL_WARN \<equiv> 4"
abbreviation (input) BIO_PRINT_LEVEL_NOTICE :: int where "BIO_PRINT_LEVEL_NOTICE \<equiv> 5"
abbreviation (input) BIO_PRINT_LEVEL_INFO :: int where "BIO_PRINT_LEVEL_INFO \<equiv> 6"
abbreviation (input) BIO_PRINT_LEVEL_DEBUG :: int where "BIO_PRINT_LEVEL_DEBUG \<equiv> 7"

definition BIO_PRINT_LEVEL_DEFAULT :: int where
  "BIO_PRINT_LEVEL_DEFAULT = BIO_PRINT_LEVEL_NOTICE"

definition escape :: "string \<Rightarrow> string" where
  "escape code = CHR 0x1B # ''['' @ code @ ''m''"

definition BIO_PRINT_COLOR_RED :: string where "BIO_PRINT_COLOR_RED = escape ''01;31''"
definition BIO_PRINT_COLOR_YELLOW :: string where "BIO_PRINT_COLOR_YELLOW = escape ''01;33''"
definition BIO_PRINT_COLOR_BLUE :: string where "BIO_PRINT_COLOR_BLUE = escape ''01;34''"
definition BIO_PRINT_COLOR_PURPLE :: string where "BIO_PRINT_COLOR_PURPLE = escape ''01;35''"
definition BIO_PRINT_COLOR_CYAN :: string where "BIO_PRINT_COLOR_CYAN = escape ''01;36''"
definition BIO_PRINT_COLOR_WHITE :: string where "BIO_PRINT_COLOR_WHITE = escape ''01;36''"
definition BIO_PRINT_COLOR_END :: string where "BIO_PRINT_COLOR_END = escape ''0''"

text \<open>\<open>atoi\<close>: blanks, a sign, digits; a number outside \<open>int\<close> is not defined in C.\<close>

definition is_digit :: "char \<Rightarrow> bool" where
  "is_digit c \<longleftrightarrow> 48 \<le> (of_char c :: nat) \<and> (of_char c :: nat) \<le> 57"

definition is_blank :: "char \<Rightarrow> bool" where
  "is_blank c \<longleftrightarrow> c = CHR '' '' \<or> 9 \<le> (of_char c :: nat) \<and> (of_char c :: nat) \<le> 13"

definition number :: "string \<Rightarrow> int" where
  "number s = foldl (\<lambda>n c. 10 * n + (of_char c - 48)) 0 (takeWhile is_digit s)"

definition atoi :: "string \<Rightarrow> int res" where
  "atoi s =
     (case dropWhile is_blank s of
        [] \<Rightarrow> Inr 0
      | c # cs \<Rightarrow> c_int (if c = CHR ''-'' then - number cs else if c = CHR ''+'' then number cs else number (c # cs)))"

section \<open>Printing at a level\<close>

text \<open>The streams: what goes to \<open>stderr\<close> is marked with \<open>True\<close>.\<close>

type_synonym printed = "(bool \<times> string) list"

definition level_color :: "int \<Rightarrow> bool \<times> string" where
  "level_color level =
     (if level \<in> {BIO_PRINT_LEVEL_EMERG, BIO_PRINT_LEVEL_ALERT, BIO_PRINT_LEVEL_CRIT, BIO_PRINT_LEVEL_ERROR}
      then (True, BIO_PRINT_COLOR_RED)
      else if level = BIO_PRINT_LEVEL_WARN then (False, BIO_PRINT_COLOR_PURPLE)
      else if level = BIO_PRINT_LEVEL_NOTICE then (False, BIO_PRINT_COLOR_BLUE)
      else if level = BIO_PRINT_LEVEL_INFO then (False, BIO_PRINT_COLOR_CYAN)
      else if level = BIO_PRINT_LEVEL_DEBUG then (False, BIO_PRINT_COLOR_YELLOW)
      else (False, BIO_PRINT_COLOR_WHITE))"

definition level_label :: "int \<Rightarrow> bool \<times> string" where
  "level_label level =
     (if level = BIO_PRINT_LEVEL_EMERG then (True, ''[EMERG] '')
      else if level = BIO_PRINT_LEVEL_ALERT then (True, ''[ALERT] '')
      else if level = BIO_PRINT_LEVEL_CRIT then (True, ''[ CRIT] '')
      else if level = BIO_PRINT_LEVEL_ERROR then (True, ''[ERROR] '')
      else if level = BIO_PRINT_LEVEL_WARN then (False, ''[ WARN] '')
      else if level = BIO_PRINT_LEVEL_NOTICE then (False, ''[ NOTE] '')
      else if level = BIO_PRINT_LEVEL_INFO then (False, ''[ INFO] '')
      else if level = BIO_PRINT_LEVEL_DEBUG then (False, ''[DEBUG] '')
      else (False, ''[UKNOW] ''))"

text \<open>
  \<open>getenv\<close> is an argument; the text is already formatted. The result counts the characters of the
  text, when it is printed.
\<close>

definition bio_vprint_by_level :: "(string \<Rightarrow> string option) \<Rightarrow> int \<Rightarrow> bool \<Rightarrow> string \<Rightarrow> (int \<times> printed) res" where
  "bio_vprint_by_level getenv level stream text =
     bindR (case getenv ''BIO_PRINT_LEVEL'' of None \<Rightarrow> Inr BIO_PRINT_LEVEL_DEFAULT | Some s \<Rightarrow> atoi s) (\<lambda>level_int.
     if level_int < level then Inr (0, [])
     else bindR (case getenv ''BIO_PRINT_COLOR'' of None \<Rightarrow> Inr 0 | Some s \<Rightarrow> atoi s) (\<lambda>color_int.
          Inr (int (length text),
               (if color_int = 1 then [level_color level] else [])
               @ [level_label level, (stream, text)]
               @ (if color_int = 1
                  then [(level \<le> BIO_PRINT_LEVEL_ERROR \<and> 0 \<le> level, BIO_PRINT_COLOR_END)] else []))))"

definition bio_print_by_level :: "(string \<Rightarrow> string option) \<Rightarrow> int \<Rightarrow> bool \<Rightarrow> string \<Rightarrow> (int \<times> printed) res" where
  "bio_print_by_level = bio_vprint_by_level"

definition bio_print_debug :: "(string \<Rightarrow> string option) \<Rightarrow> string \<Rightarrow> (int \<times> printed) res" where
  "bio_print_debug getenv = bio_vprint_by_level getenv BIO_PRINT_LEVEL_DEBUG False"
definition bio_print_info :: "(string \<Rightarrow> string option) \<Rightarrow> string \<Rightarrow> (int \<times> printed) res" where
  "bio_print_info getenv = bio_vprint_by_level getenv BIO_PRINT_LEVEL_INFO False"
definition bio_print_notice :: "(string \<Rightarrow> string option) \<Rightarrow> string \<Rightarrow> (int \<times> printed) res" where
  "bio_print_notice getenv = bio_vprint_by_level getenv BIO_PRINT_LEVEL_NOTICE False"
definition bio_print_warning :: "(string \<Rightarrow> string option) \<Rightarrow> string \<Rightarrow> (int \<times> printed) res" where
  "bio_print_warning getenv = bio_vprint_by_level getenv BIO_PRINT_LEVEL_WARN False"
definition bio_print_error :: "(string \<Rightarrow> string option) \<Rightarrow> string \<Rightarrow> (int \<times> printed) res" where
  "bio_print_error getenv = bio_vprint_by_level getenv BIO_PRINT_LEVEL_ERROR True"

text \<open>The functions that print a list choose the function by the level, and debug for any other.\<close>

definition print_at :: "(string \<Rightarrow> string option) \<Rightarrow> int \<Rightarrow> string \<Rightarrow> (int \<times> printed) res" where
  "print_at getenv print_level text =
     (if print_level = BIO_PRINT_LEVEL_ERROR then bio_print_error getenv text
      else if print_level = BIO_PRINT_LEVEL_WARN then bio_print_warning getenv text
      else if print_level = BIO_PRINT_LEVEL_NOTICE then bio_print_notice getenv text
      else if print_level = BIO_PRINT_LEVEL_INFO then bio_print_info getenv text
      else bio_print_debug getenv text)"

definition bio_print_drv_list :: "(string \<Rightarrow> string option) \<Rightarrow> int \<Rightarrow> 'p framework \<Rightarrow> (int \<times> printed) res" where
  "bio_print_drv_list getenv print_level fw =
     print_at getenv print_level (''Current driver list:''
       @ concat (map (\<lambda>(dev, _). text_of (device_name dev) @ (if enable dev \<noteq> 0 then ''[T] -> '' else ''[F] -> '')) (bio_drv_list fw))
       @ ''NULL'' @ [CHR 0x0A])"

definition bio_print_dev_list :: "(string \<Rightarrow> string option) \<Rightarrow> int \<Rightarrow> 'p framework \<Rightarrow> (int \<times> printed) res" where
  "bio_print_dev_list getenv print_level fw =
     print_at getenv print_level (''Current device list:''
       @ concat (map (\<lambda>i. let dev = fw_dev fw i in
           if enable dev \<noteq> 0 then text_of (device_name dev) @ ''['' @ show_int (dev_num dev) @ ''] -> '' else '''') (bio_dev_list fw))
       @ ''NULL'' @ [CHR 0x0A])"

text \<open>Without the variables of the environment, \<open>debug\<close> and \<open>info\<close> print nothing, and an error goes to \<open>stderr\<close>.\<close>

lemma printed_by_default:
  "bio_print_debug (\<lambda>_. None) text = Inr (0, [])"
  "bio_print_info (\<lambda>_. None) text = Inr (0, [])"
  "bio_print_error (\<lambda>_. None) text = Inr (int (length text), [(True, ''[ERROR] ''), (True, text)])"
  by (simp_all add: bio_print_debug_def bio_print_info_def bio_print_error_def bio_vprint_by_level_def
      BIO_PRINT_LEVEL_DEFAULT_def level_label_def)

section \<open>The table of features\<close>

text \<open>
  C24. The buffers have 1024 bytes whatever the texts: the name of an index, which a user chooses, is
  written past the end of its buffer when it has 1015 bytes or more and its feature comes first.
\<close>

theorem long_name_overflows:
  assumes "fi_index_name i = Some name" "1015 \<le> length name" "fi_index i \<noteq> -1"
  shows "print_feature_info (i # infos) = Inl Out_of_bounds"
  using assms by (rule long_name_faults)

definition demo_named :: "nat \<Rightarrow> feature_info" where
  "demo_named n = \<lparr>fi_uid = 1000, fi_biotype = 0, fi_driver = Some ''upekts'', fi_index = 1,
     fi_index_name = Some (replicate n CHR ''a''),
     fi_sample = [\<lparr>sa_dbid = 0, sa_no = 0, sa_data = Some ''AAAA''\<rparr>]\<rparr>"

theorem long_name_overflows_witness: "print_feature_info [demo_named 1015] = Inl Out_of_bounds"
  by (rule long_name_overflows [of "demo_named 1015" "replicate 1015 CHR ''a''" "[]"])
    (simp_all add: demo_named_def)

lemma short_name_printed:
  "\<exists>lines. print_feature_info [demo_named 4] = Inr lines \<and> length lines = 1"
proof -
  have "printable (demo_named 4)" by code_simp
  then show ?thesis using print_feature_info_lines [of "[demo_named 4]"] by (simp add: demo_named_def)
qed

end
