(* ===== verification/Feature_Memory.thy ===== *)
theory Feature_Memory
  imports Storage_Query
begin

text \<open>
  The lists of features as they are in memory (\<open>src/src/lib/biometric_storage.c\<close>): linked structures and
  strings that functions allocate, link, hand over and free. Elsewhere in the development such a list is
  a value; here the loop that builds it and the functions that free it work on blocks.
\<close>

section \<open>Memory\<close>

text \<open>
  The blocks in use, by address; \<open>brk\<close> is above all addresses given out so far. \<open>malloc_fails\<close> is the
  schedule of the allocator: \<open>True\<close> for a call that answers null; when it ends, no call fails.
\<close>

record sample_cell =
  c_dbid :: int
  c_no :: int
  c_data :: "nat option"
  c_next :: "nat option"

record info_cell =
  c_uid :: int
  c_biotype :: int
  c_driver :: "nat option"
  c_index :: int
  c_index_name :: "nat option"
  c_sample :: "nat option"
  c_info_next :: "nat option"

datatype block = Text string | Sample sample_cell | Info info_cell

record memory =
  cells :: "nat \<Rightarrow> block option"
  brk :: nat
  malloc_fails :: "bool list"

definition malloc :: "block \<Rightarrow> memory \<Rightarrow> nat option \<times> memory" where
  "malloc b H =
     (case malloc_fails H of
        True # fs \<Rightarrow> (None, H\<lparr>malloc_fails := fs\<rparr>)
      | fs \<Rightarrow> (Some (brk H), H\<lparr>cells := (cells H)(brk H \<mapsto> b), brk := brk H + 1, malloc_fails := tl fs\<rparr>))"

text \<open>An access through a null pointer, and one to a block that is not in use or not of the type.\<close>

definition block_at :: "nat \<Rightarrow> memory \<Rightarrow> block option" where
  "block_at a H = (if a < brk H then cells H a else None)"

definition load :: "nat option \<Rightarrow> memory \<Rightarrow> block res" where
  "load p H =
     (case p of
        None \<Rightarrow> Inl Null_deref
      | Some a \<Rightarrow> (case block_at a H of None \<Rightarrow> Inl Bad_memory | Some b \<Rightarrow> Inr b))"

definition load_text :: "nat option \<Rightarrow> memory \<Rightarrow> string res" where
  "load_text p H = bindR (load p H) (\<lambda>b. case b of Text s \<Rightarrow> Inr s | _ \<Rightarrow> Inl Bad_memory)"

definition load_sample :: "nat option \<Rightarrow> memory \<Rightarrow> sample_cell res" where
  "load_sample p H = bindR (load p H) (\<lambda>b. case b of Sample c \<Rightarrow> Inr c | _ \<Rightarrow> Inl Bad_memory)"

definition load_info :: "nat option \<Rightarrow> memory \<Rightarrow> info_cell res" where
  "load_info p H = bindR (load p H) (\<lambda>b. case b of Info c \<Rightarrow> Inr c | _ \<Rightarrow> Inl Bad_memory)"

definition upd_sample :: "nat option \<Rightarrow> (sample_cell \<Rightarrow> sample_cell) \<Rightarrow> memory \<Rightarrow> memory res" where
  "upd_sample p f H = bindR (load_sample p H) (\<lambda>c. Inr (H\<lparr>cells := (cells H)(the p \<mapsto> Sample (f c))\<rparr>))"

definition upd_info :: "nat option \<Rightarrow> (info_cell \<Rightarrow> info_cell) \<Rightarrow> memory \<Rightarrow> memory res" where
  "upd_info p f H = bindR (load_info p H) (\<lambda>c. Inr (H\<lparr>cells := (cells H)(the p \<mapsto> Info (f c))\<rparr>))"

text \<open>\<open>free\<close> of a null pointer does nothing; of a block that is not in use, it is a fault.\<close>

definition free :: "nat option \<Rightarrow> memory \<Rightarrow> memory res" where
  "free p H =
     (case p of None \<Rightarrow> Inr H | Some a \<Rightarrow> bindR (load p H) (\<lambda>_. Inr (H\<lparr>cells := (cells H)(a := None)\<rparr>)))"

text \<open>How many blocks are in use: freeing one makes it smaller, so that the loops that free end.\<close>

definition in_use :: "memory \<Rightarrow> nat" where
  "in_use H = card {a. a < brk H \<and> cells H a \<noteq> None}"

lemma free_in_use: "free p H = Inr H' \<Longrightarrow> in_use H' \<le> in_use H" "free (Some a) H = Inr H' \<Longrightarrow> in_use H' < in_use H"
proof -
  have less: "in_use H' < in_use H" if "free (Some a) H = Inr H'" for a
  proof -
    have H': "a < brk H" "cells H a \<noteq> None" "H' = H\<lparr>cells := (cells H)(a := None)\<rparr>"
      using that by (auto simp: free_def load_def block_at_def bindR_eq_Inr split: option.splits if_splits)
    then have "{b. b < brk H' \<and> cells H' b \<noteq> None} \<subset> {b. b < brk H \<and> cells H b \<noteq> None}" by auto
    then show ?thesis unfolding in_use_def by (rule psubset_card_mono [rotated]) simp
  qed
  show "free (Some a) H = Inr H' \<Longrightarrow> in_use H' < in_use H" by (rule less)
  show "free p H = Inr H' \<Longrightarrow> in_use H' \<le> in_use H"
    using less by (cases p) (auto simp: free_def less_imp_le)
qed

section \<open>Freeing\<close>

lemma free_unless_null: "(if p \<noteq> None then free p H else Inr H) = free p H"
  by (cases p) (simp_all add: free_def)

definition bio_sto_free_feature_sample :: "nat option \<Rightarrow> memory \<Rightarrow> memory res" where
  "bio_sto_free_feature_sample p H =
     (if p = None then Inr H
      else bindR (load_sample p H) (\<lambda>c.
           bindR (if c_data c \<noteq> None then free (c_data c) H else Inr H) (free p)))"

lemma free_sample_in_use:
  assumes "bio_sto_free_feature_sample (Some a) H = Inr H'"
  shows "in_use H' < in_use H"
proof -
  obtain c :: sample_cell and H1 where "free (c_data c) H = Inr H1" "free (Some a) H1 = Inr H'"
    using assms unfolding bio_sto_free_feature_sample_def free_unless_null by (auto simp: bindR_eq_Inr)
  then have "in_use H1 \<le> in_use H" "in_use H' < in_use H1" using free_in_use by blast+
  then show ?thesis by simp
qed

function bio_sto_free_feature_sample_list :: "nat option \<Rightarrow> memory \<Rightarrow> memory res" where
  "bio_sto_free_feature_sample_list None H = Inr H"
| "bio_sto_free_feature_sample_list (Some a) H =
     bindR (load_sample (Some a) H) (\<lambda>c.
     bindR (bio_sto_free_feature_sample (Some a) H) (\<lambda>H. bio_sto_free_feature_sample_list (c_next c) H))"
  by pat_completeness auto
termination
  by (relation "measure (\<lambda>(_, H). in_use H)") (auto dest: free_sample_in_use)

declare bio_sto_free_feature_sample_list.simps(2) [simp del]

definition bio_sto_free_feature_info :: "nat option \<Rightarrow> memory \<Rightarrow> memory res" where
  "bio_sto_free_feature_info p H =
     (if p = None then Inr H
      else bindR (load_info p H) (\<lambda>c.
           bindR (if c_driver c \<noteq> None then free (c_driver c) H else Inr H) (\<lambda>H.
           bindR (if c_index_name c \<noteq> None then free (c_index_name c) H else Inr H) (\<lambda>H.
           bindR (bio_sto_free_feature_sample_list (c_sample c) H) (free p)))))"

lemma free_sample_list_in_use: "bio_sto_free_feature_sample_list p H = Inr H' \<Longrightarrow> in_use H' \<le> in_use H"
proof (induction p H rule: bio_sto_free_feature_sample_list.induct)
  case (2 a H)
  then obtain c H1 where "load_sample (Some a) H = Inr c" "bio_sto_free_feature_sample (Some a) H = Inr H1"
    "bio_sto_free_feature_sample_list (c_next c) H1 = Inr H'"
    by (auto simp: bio_sto_free_feature_sample_list.simps(2) bindR_eq_Inr)
  then show ?case using 2(1) free_sample_in_use by fastforce
qed simp

lemma free_info_in_use:
  assumes "bio_sto_free_feature_info (Some a) H = Inr H'"
  shows "in_use H' < in_use H"
proof -
  obtain c :: info_cell and H1 H2 H3 where "free (c_driver c) H = Inr H1" "free (c_index_name c) H1 = Inr H2"
    "bio_sto_free_feature_sample_list (c_sample c) H2 = Inr H3" "free (Some a) H3 = Inr H'"
    using assms unfolding bio_sto_free_feature_info_def free_unless_null by (auto simp: bindR_eq_Inr)
  then have "in_use H1 \<le> in_use H" "in_use H2 \<le> in_use H1" "in_use H3 \<le> in_use H2" "in_use H' < in_use H3"
    using free_in_use free_sample_list_in_use by blast+
  then show ?thesis by simp
qed

function bio_sto_free_feature_info_list :: "nat option \<Rightarrow> memory \<Rightarrow> memory res" where
  "bio_sto_free_feature_info_list None H = Inr H"
| "bio_sto_free_feature_info_list (Some a) H =
     bindR (load_info (Some a) H) (\<lambda>c.
     bindR (bio_sto_free_feature_info (Some a) H) (\<lambda>H. bio_sto_free_feature_info_list (c_info_next c) H))"
  by pat_completeness auto
termination
  by (relation "measure (\<lambda>(_, H). in_use H)") (auto dest: free_info_in_use)

declare bio_sto_free_feature_info_list.simps(2) [simp del]

section \<open>Building\<close>

text \<open>\<open>internal_newstr\<close>; cells start as zeros.\<close>

definition newstr :: "string option \<Rightarrow> memory \<Rightarrow> nat option \<times> memory" where
  "newstr s H = malloc (Text (internal_newstr s)) H"

definition zero_sample :: sample_cell where
  "zero_sample = \<lparr>c_dbid = 0, c_no = 0, c_data = None, c_next = None\<rparr>"

definition zero_info :: info_cell where
  "zero_info = \<lparr>c_uid = 0, c_biotype = 0, c_driver = None, c_index = 0, c_index_name = None, c_sample = None, c_info_next = None\<rparr>"

text \<open>
  The variables of the row loop: those of \<open>get_vars\<close>, where \<open>old_driver\<close> points to a string, and the
  pointers to the item and the sample filled last. What the loop leaves is nothing when it has
  freed its list and returned.
\<close>

record row_vars =
  rv_old_uuid :: string
  rv_old_uid :: int
  rv_old_bio_type :: int
  rv_old_driver :: "nat option"
  rv_old_idx :: int
  rv_user_uuid :: string
  rv_info :: "nat option"
  rv_sample :: "nat option"

definition row_vars_init :: "nat option \<Rightarrow> row_vars" where
  "row_vars_init head = \<lparr>rv_old_uuid = '''', rv_old_uid = -1, rv_old_bio_type = -1, rv_old_driver = None,
     rv_old_idx = -1, rv_user_uuid = '''', rv_info = head, rv_sample = None\<rparr>"

definition row_opens :: "row_vars \<Rightarrow> eigen_row \<Rightarrow> string \<Rightarrow> memory \<Rightarrow> bool res" where
  "row_opens v r uuid H =
     (if rv_old_uid v < r_uid r \<or> rv_old_bio_type v < r_biotype r then Inr True
      else bindR (load_text (rv_old_driver v) H) (\<lambda>d.
           Inr (d \<noteq> r_driver r \<or> rv_old_idx v < r_index r \<or> rv_old_uuid v \<noteq> uuid)))"

definition row_user_uuid :: "host \<Rightarrow> eigen_row \<Rightarrow> row_vars \<Rightarrow> users \<Rightarrow> (row_vars \<times> users) res" where
  "row_user_uuid h r v us =
     (if rv_old_uid v \<noteq> r_uid r
      then bindR (internal_get_uuid_by_uid h (r_uid r) us)
             (\<lambda>(u, us). Inr (v\<lparr>rv_user_uuid := u, rv_old_uid := r_uid r\<rparr>, us))
      else Inr (v, us))"

definition fill_sample :: "nat option \<Rightarrow> eigen_row \<Rightarrow> memory \<Rightarrow> memory res" where
  "fill_sample p r H =
     (let (t, H) = newstr (Some (r_data r)) H
      in upd_sample p (\<lambda>c. c\<lparr>c_dbid := r_id r, c_no := r_sample_no r, c_data := t\<rparr>) H)"

definition give_up :: "nat option \<Rightarrow> memory \<Rightarrow> (row_vars option \<times> memory) res" where
  "give_up head H = bindR (bio_sto_free_feature_info_list head H) (\<lambda>H. Inr (None, H))"

definition row_new_item ::
    "nat option \<Rightarrow> eigen_row \<Rightarrow> string \<Rightarrow> row_vars \<Rightarrow> memory \<Rightarrow> (row_vars option \<times> memory) res" where
  "row_new_item head r uuid v H =
     (let (d, H) = newstr (Some (r_driver r)) H;
          (a, H) = malloc (Info zero_info) H
      in bindR (upd_info (rv_info v) (\<lambda>c. c\<lparr>c_info_next := a\<rparr>) H) (\<lambda>H.
         if a = None then give_up head H
         else let (n, H) = newstr (Some (r_index_name r)) H
              in bindR (upd_info a (\<lambda>c. c\<lparr>c_uid := r_uid r, c_biotype := r_biotype r, c_driver := d,
                          c_index := r_index r, c_index_name := n\<rparr>) H) (\<lambda>H.
                 let (s, H) = malloc (Sample zero_sample) H
                 in if s = None then give_up head H
                    else bindR (upd_info a (\<lambda>c. c\<lparr>c_sample := s\<rparr>) H) (\<lambda>H.
                         bindR (fill_sample s r H) (\<lambda>H.
                         Inr (Some (v\<lparr>rv_old_uid := r_uid r, rv_old_bio_type := r_biotype r, rv_old_driver := d,
                                rv_old_idx := r_index r, rv_old_uuid := uuid, rv_info := a, rv_sample := s\<rparr>), H))))))"

definition row_add_sample ::
    "nat option \<Rightarrow> eigen_row \<Rightarrow> row_vars \<Rightarrow> memory \<Rightarrow> (row_vars option \<times> memory) res" where
  "row_add_sample head r v H =
     (let (s, H) = malloc (Sample zero_sample) H
      in bindR (upd_sample (rv_sample v) (\<lambda>c. c\<lparr>c_next := s\<rparr>) H) (\<lambda>H.
         if s = None then give_up head H
         else bindR (fill_sample s r H) (\<lambda>H. Inr (Some (v\<lparr>rv_sample := s\<rparr>), H))))"

definition row_in_memory ::
    "host \<Rightarrow> nat option \<Rightarrow> eigen_row \<Rightarrow> row_vars \<times> users \<times> memory \<Rightarrow> (row_vars option \<times> users \<times> memory) res" where
  "row_in_memory h head r = (\<lambda>(v, us, H).
     case r_uuid r of
       None \<Rightarrow> Inl Null_deref
     | Some column \<Rightarrow>
         let uuid = take UUID_BUF_LEN column
         in bindR (row_opens v r uuid H) (\<lambda>opens.
              if opens
              then bindR (row_user_uuid h r v us) (\<lambda>(v, us).
                     if uuid \<noteq> rv_user_uuid v then Inr (Some v, us, H)
                     else bindR (row_new_item head r uuid v H) (\<lambda>(v, H). Inr (v, us, H)))
              else if uuid \<noteq> rv_user_uuid v then Inr (Some v, us, H)
              else bindR (row_add_sample head r v H) (\<lambda>(v, H). Inr (v, us, H))))"

text \<open>The rows are stepped to one by one: where the loop gives up, the steps after are not made.\<close>

fun rows_in_memory ::
    "host \<Rightarrow> nat option \<Rightarrow> eigen_row list \<Rightarrow> row_vars \<times> store \<times> memory \<Rightarrow> (row_vars option \<times> store \<times> memory) res" where
  "rows_in_memory h head [] (v, s, H) = Inr (Some v, s\<lparr>s_db := snd (sql_call (s_db s))\<rparr>, H)"
| "rows_in_memory h head (r # rs) (v, s, H) =
     (let (ok, db) = sql_call (s_db s); s = s\<lparr>s_db := db\<rparr>
      in if \<not> ok then Inr (Some v, s, H)
         else bindR (row_in_memory h head r (v, s_users s, H)) (\<lambda>(v, us, H).
                let s = s\<lparr>s_users := us\<rparr>
                in case v of None \<Rightarrow> Inr (None, s, H) | Some v \<Rightarrow> rows_in_memory h head rs (v, s, H)))"

text \<open>The statement is put together in a buffer of \<open>sql_size\<close> bytes.\<close>

definition base_sql :: string where
  "base_sql = ''SELECT ID, UID, UUID, BioType, Driver, EigenIndex,   EigenIndexName, SampleNo, EigenData FROM EIGEN_INFO WHERE EigenIndex >= :index_start''"

definition uid_sql :: string where "uid_sql = '' AND UID = :uid ''"

definition biotype_sql :: string where "biotype_sql = '' AND BioType = :biotype ''"

definition driver_sql :: string where "driver_sql = '' AND Driver = :driver ''"

definition idx_end_sql :: string where "idx_end_sql = '' AND EigenIndex <= :index_end ''"

definition order_sql :: string where
  "order_sql = '' ORDER BY UID, UUID, BioType, Driver, EigenIndex, EigenIndexName, SampleNo ''"

definition get_sql :: "int \<Rightarrow> int \<Rightarrow> string option \<Rightarrow> int \<Rightarrow> string" where
  "get_sql uid biotype driver index_end =
     base_sql @ (if uid \<noteq> -1 then uid_sql else []) @ (if biotype \<noteq> -1 then biotype_sql else [])
       @ (if driver \<noteq> None then driver_sql else []) @ (if index_end \<noteq> -1 then idx_end_sql else []) @ order_sql"

definition sql_size :: nat where
  "sql_size = length base_sql + length uid_sql + length biotype_sql + length driver_sql + length idx_end_sql
     + length order_sql + 1"

lemma get_sql_fits: "length (get_sql uid biotype driver index_end) + 1 \<le> sql_size"
  by (simp add: get_sql_def sql_size_def)

text \<open>The whole function. The list has an empty item at its head, which is removed at the end.\<close>

definition features_in_memory ::
    "host \<Rightarrow> bool \<Rightarrow> int \<Rightarrow> int \<Rightarrow> string option \<Rightarrow> int \<Rightarrow> int \<Rightarrow> store \<Rightarrow> memory \<Rightarrow> (nat option \<times> store \<times> memory) res" where
  "features_in_memory h handle uid biotype driver index_start index_end s H =
     (let (sql, H) = malloc (Text (get_sql uid biotype driver index_end)) H
      in if sql = None then Inr (None, s, H)
         else let (ok, db) = sqlite3_prepare handle (has_uuid_column (tables_of (s_db s))) (s_db s);
                  s = s\<lparr>s_db := db\<rparr>
              in bindR (free sql H) (\<lambda>H.
                 if \<not> ok then Inr (None, s, H)
                 else let selected = sort_key row_key
                            (filter (row_selected uid biotype driver index_start index_end)
                                    (eigen_rows (tables_of db)));
                          (head, H) = malloc (Info zero_info) H
                      in if head = None then Inr (None, s, H)
                         else bindR (rows_in_memory h head selected (row_vars_init head, s, H)) (\<lambda>(v, s, H).
                              if v = None then Inr (None, s, H)
                              else bindR (load_info head H) (\<lambda>c.
                                   bindR (free head H) (\<lambda>H. Inr (c_info_next c, s, H))))))"

section \<open>Lists in memory\<close>

text \<open>
  What a part of memory holds: \<open>m\<close> is exactly the blocks of the value, and the blocks of its parts
  are apart from each other. A segment goes from one pointer to another.
\<close>

fun string_at :: "nat option \<Rightarrow> string option \<Rightarrow> (nat \<Rightarrow> block option) \<Rightarrow> bool" where
  "string_at None s m \<longleftrightarrow> s = None \<and> m = Map.empty"
| "string_at (Some a) s m \<longleftrightarrow> (\<exists>t. s = Some t \<and> m = [a \<mapsto> Text t])"

type_synonym 'x cell_at = "nat \<Rightarrow> 'x \<Rightarrow> nat option \<Rightarrow> (nat \<Rightarrow> block option) \<Rightarrow> bool"

fun segment :: "'x cell_at \<Rightarrow> nat option \<Rightarrow> 'x list \<Rightarrow> nat option \<Rightarrow> (nat \<Rightarrow> block option) \<Rightarrow> bool" where
  "segment at p [] q m \<longleftrightarrow> p = q \<and> m = Map.empty"
| "segment at p (x # xs) q m \<longleftrightarrow>
     (\<exists>a p' m1 m2. p = Some a \<and> at a x p' m1 \<and> segment at p' xs q m2 \<and> dom m1 \<inter> dom m2 = {} \<and> m = m1 ++ m2)"

definition sample_at :: "feature_sample cell_at" where
  "sample_at a s q m \<longleftrightarrow>
     (\<exists>c md. c_dbid c = sa_dbid s \<and> c_no c = sa_no s \<and> c_next c = q \<and> string_at (c_data c) (sa_data s) md
       \<and> a \<notin> dom md \<and> m = md(a \<mapsto> Sample c))"

definition info_at :: "feature_info cell_at" where
  "info_at a i q m \<longleftrightarrow>
     (\<exists>c md mn ms. c_uid c = fi_uid i \<and> c_biotype c = fi_biotype i \<and> c_index c = fi_index i \<and> c_info_next c = q
       \<and> string_at (c_driver c) (fi_driver i) md \<and> string_at (c_index_name c) (fi_index_name i) mn
       \<and> segment sample_at (c_sample c) (fi_sample i) None ms
       \<and> dom md \<inter> dom mn = {} \<and> (dom md \<union> dom mn) \<inter> dom ms = {} \<and> a \<notin> dom md \<union> dom mn \<union> dom ms
       \<and> m = (md ++ mn ++ ms)(a \<mapsto> Info c))"

lemma segment_snoc:
  "segment at p (xs @ [x]) q m \<longleftrightarrow>
     (\<exists>a m1 m2. segment at p xs (Some a) m1 \<and> at a x q m2 \<and> dom m1 \<inter> dom m2 = {} \<and> m = m1 ++ m2)"
proof (induction xs arbitrary: p m)
  case Nil
  show ?case by auto
next
  case (Cons y ys)
  show ?case
  proof
    assume "segment at p ((y # ys) @ [x]) q m"
    then obtain a p' m1 m2 where 1: "p = Some a" "at a y p' m1" "segment at p' (ys @ [x]) q m2" "dom m1 \<inter> dom m2 = {}" "m = m1 ++ m2"
      by auto
    obtain b n1 n2 where 2: "segment at p' ys (Some b) n1" "at b x q n2" "dom n1 \<inter> dom n2 = {}" "m2 = n1 ++ n2"
      using 1(3) Cons.IH by blast
    have "dom m1 \<inter> dom n1 = {}" using 1(4) 2(4) by auto
    then have "segment at p (y # ys) (Some b) (m1 ++ n1)" using 1(1,2) 2(1) by fastforce
    moreover have "dom (m1 ++ n1) \<inter> dom n2 = {}" "m = (m1 ++ n1) ++ n2" using 1 2 by (auto simp: dom_map_add)
    ultimately show "\<exists>a m1 m2. segment at p (y # ys) (Some a) m1 \<and> at a x q m2 \<and> dom m1 \<inter> dom m2 = {} \<and> m = m1 ++ m2"
      using 2(2) by blast
  next
    assume "\<exists>a m1 m2. segment at p (y # ys) (Some a) m1 \<and> at a x q m2 \<and> dom m1 \<inter> dom m2 = {} \<and> m = m1 ++ m2"
    then obtain b k n2 a p' m1 n1 where 1: "at b x q n2" "dom k \<inter> dom n2 = {}" "m = k ++ n2"
      "p = Some a" "at a y p' m1" "segment at p' ys (Some b) n1" "dom m1 \<inter> dom n1 = {}" "k = m1 ++ n1"
      by auto
    then have "dom n1 \<inter> dom n2 = {}" by auto
    then have "segment at p' (ys @ [x]) q (n1 ++ n2)" using Cons.IH 1(1,6) by blast
    moreover have "dom m1 \<inter> dom (n1 ++ n2) = {}" "m = m1 ++ (n1 ++ n2)" using 1 by (auto simp: dom_map_add)
    ultimately show "segment at p ((y # ys) @ [x]) q m"
      unfolding append_Cons segment.simps using 1(4,5) \<open>segment at p' (ys @ [x]) q (n1 ++ n2)\<close> by blast
  qed
qed

section \<open>Owning and freeing\<close>

definition owns :: "memory \<Rightarrow> (nat \<Rightarrow> block option) \<Rightarrow> bool" where
  "owns H m \<longleftrightarrow> (\<forall>a b. m a = Some b \<longrightarrow> block_at a H = Some b)"

definition without :: "memory \<Rightarrow> nat set \<Rightarrow> memory" where
  "without H A = H\<lparr>cells := (\<lambda>a. if a \<in> A then None else cells H a)\<rparr>"

lemma owns_empty [simp]: "owns H Map.empty"
  by (simp add: owns_def)

lemma owns_add: "dom m1 \<inter> dom m2 = {} \<Longrightarrow> owns H (m1 ++ m2) \<longleftrightarrow> owns H m1 \<and> owns H m2"
  unfolding owns_def map_add_Some_iff by (metis disjoint_iff domI not_None_eq)

lemma owns_upd: "a \<notin> dom m \<Longrightarrow> owns H (m(a \<mapsto> b)) \<longleftrightarrow> owns H m \<and> block_at a H = Some b"
  unfolding owns_def by (auto simp: dom_def)

lemma owns_without: "owns H m \<Longrightarrow> dom m \<inter> A = {} \<Longrightarrow> owns (without H A) m"
  by (auto simp: owns_def without_def block_at_def dom_def split: if_splits)

lemma without_simps [simp]:
  "without (without H A) B = without H (A \<union> B)" "without H {} = H"
  "brk (without H A) = brk H" "malloc_fails (without H A) = malloc_fails H"
  by (simp_all add: without_def fun_eq_iff)

lemma block_at_without [simp]: "block_at a (without H A) = (if a \<in> A then None else block_at a H)"
  by (simp add: block_at_def without_def)

lemma load_block: "block_at a H = Some b \<Longrightarrow> load (Some a) H = Inr b"
  by (simp add: load_def)

lemma free_block: "block_at a H = Some b \<Longrightarrow> free (Some a) H = Inr (without H {a})"
  by (simp add: free_def load_block without_def fun_eq_iff fun_upd_def)

lemma free_string: "string_at p s m \<Longrightarrow> owns H m \<Longrightarrow> free p H = Inr (without H (dom m))"
  by (cases p) (auto simp: free_def [of None] owns_def free_block)

lemma sample_at_owned:
  assumes "sample_at a s q m" "owns H m"
  shows "bindR (load_sample (Some a) H) (\<lambda>c. Inr (c_next c)) = Inr q"
    "bio_sto_free_feature_sample (Some a) H = Inr (without H (dom m))"
proof -
  obtain c md where c: "c_next c = q" "string_at (c_data c) (sa_data s) md" "a \<notin> dom md" "m = md(a \<mapsto> Sample c)"
    using assms(1) by (auto simp: sample_at_def)
  then have o: "owns H md" "block_at a H = Some (Sample c)" using assms(2) by (simp_all add: owns_upd)
  then have l: "load_sample (Some a) H = Inr c" by (simp add: load_sample_def load_block)
  then show "bindR (load_sample (Some a) H) (\<lambda>c. Inr (c_next c)) = Inr q" using c(1) by simp
  show "bio_sto_free_feature_sample (Some a) H = Inr (without H (dom m))"
    using l free_string [OF c(2) o(1)] free_block [of a "without H (dom md)"] o(2) c(3,4)
    unfolding bio_sto_free_feature_sample_def free_unless_null by simp
qed

text \<open>
  A loop that reads the next pointer, frees the cell and goes on: where each cell is freed with all it
  owns, so is the list, and nothing else.
\<close>

locale freed_list =
  fixes cell :: "'x cell_at"
    and next_of :: "nat option \<Rightarrow> memory \<Rightarrow> nat option res"
    and free_one :: "nat option \<Rightarrow> memory \<Rightarrow> memory res"
    and free_all :: "nat option \<Rightarrow> memory \<Rightarrow> memory res"
  assumes free_null: "free_all None H = Inr H"
    and free_step: "free_all (Some a) H = bindR (next_of (Some a) H) (\<lambda>q. bindR (free_one (Some a) H) (free_all q))"
    and next_read: "cell a x q m \<Longrightarrow> owns H m \<Longrightarrow> next_of (Some a) H = Inr q"
    and one_freed: "cell a x q m \<Longrightarrow> owns H m \<Longrightarrow> free_one (Some a) H = Inr (without H (dom m))"
begin

lemma all_freed: "segment cell p xs None m \<Longrightarrow> owns H m \<Longrightarrow> free_all p H = Inr (without H (dom m))"
proof (induction xs arbitrary: p m H)
  case (Cons x xs)
  then obtain a p' m1 m2 where c: "p = Some a" "cell a x p' m1" "segment cell p' xs None m2" "dom m1 \<inter> dom m2 = {}" "m = m1 ++ m2"
    by auto
  then have o: "owns H m1" "owns H m2" using Cons.prems(2) by (simp_all add: owns_add)
  have "owns (without H (dom m1)) m2" using o(2) c(4) by (auto intro: owns_without)
  then show ?case
    using Cons.IH [OF c(3)] next_read [OF c(2) o(1)] one_freed [OF c(2) o(1)] c(1,5) by (simp add: free_step Un_commute)
qed (simp add: free_null)

end

interpretation samples: freed_list sample_at "\<lambda>p H. bindR (load_sample p H) (\<lambda>c. Inr (c_next c))"
    bio_sto_free_feature_sample bio_sto_free_feature_sample_list
  by unfold_locales
    (simp_all add: sample_at_owned bio_sto_free_feature_sample_list.simps(2) bindR_assoc)

lemma info_at_owned:
  assumes "info_at a i q m" "owns H m"
  shows "bindR (load_info (Some a) H) (\<lambda>c. Inr (c_info_next c)) = Inr q"
    "bio_sto_free_feature_info (Some a) H = Inr (without H (dom m))"
proof -
  obtain c md mn ms where c: "c_info_next c = q" "string_at (c_driver c) (fi_driver i) md"
    "string_at (c_index_name c) (fi_index_name i) mn" "segment sample_at (c_sample c) (fi_sample i) None ms"
    "dom md \<inter> dom mn = {}" "(dom md \<union> dom mn) \<inter> dom ms = {}" "a \<notin> dom md \<union> dom mn \<union> dom ms"
    "m = (md ++ mn ++ ms)(a \<mapsto> Info c)"
    using assms(1) unfolding info_at_def by blast
  have disj: "dom (md ++ mn) \<inter> dom ms = {}" "a \<notin> dom (md ++ mn ++ ms)" using c(6,7) by auto
  have o: "owns H md" "owns H mn" "owns H ms" "block_at a H = Some (Info c)"
    using assms(2) disj c(5) unfolding c(8) by (simp_all add: owns_upd owns_add)
  then have l: "load_info (Some a) H = Inr c" by (simp add: load_info_def load_block)
  then show "bindR (load_info (Some a) H) (\<lambda>c. Inr (c_info_next c)) = Inr q" using c(1) by simp
  have 1: "free (c_driver c) H = Inr (without H (dom md))" by (rule free_string [OF c(2) o(1)])
  have 2: "free (c_index_name c) (without H (dom md)) = Inr (without H (dom md \<union> dom mn))"
    using free_string [OF c(3) owns_without [OF o(2)]] c(5) by (simp add: Int_commute)
  have 3: "bio_sto_free_feature_sample_list (c_sample c) (without H (dom md \<union> dom mn)) = Inr (without H (dom md \<union> dom mn \<union> dom ms))"
    using samples.all_freed [OF c(4) owns_without [OF o(3)]] c(6) by (simp add: Int_commute)
  have "free (Some a) (without H (dom md \<union> dom mn \<union> dom ms)) = Inr (without H (insert a (dom md \<union> dom mn \<union> dom ms)))"
    using free_block [of a "without H (dom md \<union> dom mn \<union> dom ms)"] o(4) c(7) by simp
  moreover have "dom m = insert a (dom md \<union> dom mn \<union> dom ms)" by (auto simp: c(8))
  ultimately show "bio_sto_free_feature_info (Some a) H = Inr (without H (dom m))"
    using l 1 2 3 unfolding bio_sto_free_feature_info_def free_unless_null by simp
qed

interpretation infos: freed_list info_at "\<lambda>p H. bindR (load_info p H) (\<lambda>c. Inr (c_info_next c))"
    bio_sto_free_feature_info bio_sto_free_feature_info_list
  by unfold_locales
    (simp_all add: info_at_owned bio_sto_free_feature_info_list.simps(2) bindR_assoc)

text \<open>
  C11. Freeing a list of features that is in memory, wherever its blocks are, ends without a fault and frees every
  block of it (items, samples and strings) exactly once, and no other block.
\<close>

theorem list_freed_exactly:
  assumes "segment info_at p infos None m" "owns H m"
  shows "bio_sto_free_feature_info_list p H = Inr (without H (dom m))"
  by (rule infos.all_freed [OF assms])

text \<open>
  The handlers of the service that list features call the function for one item on the list: the blocks of
  all items but the first stay in use.
\<close>

lemma first_freed_only:
  assumes "segment info_at p (i # infos) None m" "owns H m"
  shows "\<exists>q m1 m2. m = m1 ++ m2 \<and> dom m1 \<inter> dom m2 = {} \<and> segment info_at q infos None m2
     \<and> bio_sto_free_feature_info p H = Inr (without H (dom m1)) \<and> owns (without H (dom m1)) m2"
proof -
  obtain a q m1 m2 where c: "p = Some a" "info_at a i q m1" "segment info_at q infos None m2" "dom m1 \<inter> dom m2 = {}" "m = m1 ++ m2"
    using assms(1) by auto
  then have "owns H m1" "owns H m2" using assms(2) by (simp_all add: owns_add)
  then show ?thesis using c info_at_owned(2) [OF c(2)] owns_without [of H m2 "dom m1"] by (auto simp: Int_commute)
qed

section \<open>What building does\<close>

text \<open>The blocks in use; \<open>built\<close>: those of before are untouched, and the new ones are \<open>m\<close>, above them.\<close>

definition blocks :: "memory \<Rightarrow> nat \<Rightarrow> block option" where
  "blocks H = (\<lambda>a. block_at a H)"

definition built :: "memory \<Rightarrow> (nat \<Rightarrow> block option) \<Rightarrow> memory \<Rightarrow> bool" where
  "built H0 m H \<longleftrightarrow> blocks H = blocks H0 ++ m \<and> dom m \<subseteq> {brk H0..<brk H} \<and> brk H0 \<le> brk H
     \<and> True \<notin> set (malloc_fails H)"

lemma built_block: "built H0 m H \<Longrightarrow> m a = Some b \<Longrightarrow> block_at a H = Some b"
  by (auto simp: built_def blocks_def fun_eq_iff)

lemma built_owns: "built H0 m H \<Longrightarrow> owns H m"
  using built_block by (auto simp: owns_def)

lemma built_below: "built H0 m H \<Longrightarrow> a \<in> dom m \<Longrightarrow> a < brk H"
  by (auto simp: built_def)

lemma built_malloc:
  assumes "built H0 m H"
  obtains H' where "malloc b H = (Some (brk H), H')" "built H0 (m(brk H \<mapsto> b)) H'" "brk H' = Suc (brk H)"
proof -
  let ?H = "H\<lparr>cells := (cells H)(brk H \<mapsto> b), brk := brk H + 1, malloc_fails := tl (malloc_fails H)\<rparr>"
  have "malloc b H = (Some (brk H), ?H)"
    using assms by (auto simp: malloc_def built_def split: list.split bool.split)
  moreover have "blocks ?H = (blocks H)(brk H \<mapsto> b)"
    by (auto simp: blocks_def block_at_def fun_eq_iff)
  then have "built H0 (m(brk H \<mapsto> b)) ?H"
    using assms by (cases "malloc_fails H") (auto simp: built_def)
  ultimately show ?thesis using that by simp
qed

lemma built_upd_info:
  assumes "built H0 m H" "m a = Some (Info c)"
  obtains H' where "upd_info (Some a) f H = Inr H'" "built H0 (m(a \<mapsto> Info (f c))) H'" "brk H' = brk H"
proof -
  let ?H = "H\<lparr>cells := (cells H)(a \<mapsto> Info (f c))\<rparr>"
  have b: "block_at a H = Some (Info c)" "a < brk H" using built_block [OF assms] built_below [OF assms(1)] assms(2) by auto
  then have "upd_info (Some a) f H = Inr ?H" by (simp add: upd_info_def load_info_def load_block)
  moreover have "blocks ?H = (blocks H)(a \<mapsto> Info (f c))" using b(2) by (auto simp: blocks_def block_at_def fun_eq_iff)
  then have "built H0 (m(a \<mapsto> Info (f c))) ?H" using assms by (auto simp: built_def)
  ultimately show ?thesis using that by simp
qed

lemma built_upd_sample:
  assumes "built H0 m H" "m a = Some (Sample c)"
  obtains H' where "upd_sample (Some a) f H = Inr H'" "built H0 (m(a \<mapsto> Sample (f c))) H'" "brk H' = brk H"
proof -
  let ?H = "H\<lparr>cells := (cells H)(a \<mapsto> Sample (f c))\<rparr>"
  have b: "block_at a H = Some (Sample c)" "a < brk H" using built_block [OF assms] built_below [OF assms(1)] assms(2) by auto
  then have "upd_sample (Some a) f H = Inr ?H" by (simp add: upd_sample_def load_sample_def load_block)
  moreover have "blocks ?H = (blocks H)(a \<mapsto> Sample (f c))" using b(2) by (auto simp: blocks_def block_at_def fun_eq_iff)
  then have "built H0 (m(a \<mapsto> Sample (f c))) ?H" using assms by (auto simp: built_def)
  ultimately show ?thesis using that by simp
qed

text \<open>The blocks of a new sample and of a new item, from their addresses.\<close>

definition sample_blocks :: "nat \<Rightarrow> nat \<Rightarrow> eigen_row \<Rightarrow> nat \<Rightarrow> block option" where
  "sample_blocks s t r =
     [t \<mapsto> Text (r_data r), s \<mapsto> Sample \<lparr>c_dbid = r_id r, c_no = r_sample_no r, c_data = Some t, c_next = None\<rparr>]"

definition item_blocks :: "nat \<Rightarrow> eigen_row \<Rightarrow> nat \<Rightarrow> block option" where
  "item_blocks k r = ([k \<mapsto> Text (r_driver r)] ++ [k + 2 \<mapsto> Text (r_index_name r)] ++ sample_blocks (k + 3) (k + 4) r)
     (k + 1 \<mapsto> Info \<lparr>c_uid = r_uid r, c_biotype = r_biotype r, c_driver = Some k, c_index = r_index r,
        c_index_name = Some (k + 2), c_sample = Some (k + 3), c_info_next = None\<rparr>)"

lemma newstr_some: "newstr (Some s) H = malloc (Text s) H"
  by (simp add: newstr_def internal_newstr_def)

lemma fill_sample_run:
  assumes "built H0 m H" "m s = Some (Sample c)" "c_next c = None"
  obtains H' where "fill_sample (Some s) r H = Inr H'" "built H0 (m ++ sample_blocks s (brk H) r) H'"
    "brk H' = Suc (brk H)"
proof -
  obtain H1 where 1: "malloc (Text (r_data r)) H = (Some (brk H), H1)" "built H0 (m(brk H \<mapsto> Text (r_data r))) H1"
    "brk H1 = Suc (brk H)"
    using built_malloc [OF assms(1)] .
  have s: "s \<noteq> brk H" using built_below [OF assms(1), of s] assms(2) by auto
  then have "(m(brk H \<mapsto> Text (r_data r))) s = Some (Sample c)" using assms(2) by simp
  from built_upd_sample [OF 1(2) this, where f = "\<lambda>c. c\<lparr>c_dbid := r_id r, c_no := r_sample_no r, c_data := Some (brk H)\<rparr>"]
  obtain H2 where 2: "upd_sample (Some s) (\<lambda>c. c\<lparr>c_dbid := r_id r, c_no := r_sample_no r, c_data := Some (brk H)\<rparr>) H1 = Inr H2"
    "built H0 (m(brk H \<mapsto> Text (r_data r), s \<mapsto> Sample (c\<lparr>c_dbid := r_id r, c_no := r_sample_no r, c_data := Some (brk H)\<rparr>))) H2"
    "brk H2 = brk H1" .
  have "c\<lparr>c_dbid := r_id r, c_no := r_sample_no r, c_data := Some (brk H)\<rparr>
      = \<lparr>c_dbid = r_id r, c_no = r_sample_no r, c_data = Some (brk H), c_next = None\<rparr>"
    using assms(3) by (cases c) simp
  then have "m(brk H \<mapsto> Text (r_data r), s \<mapsto> Sample (c\<lparr>c_dbid := r_id r, c_no := r_sample_no r, c_data := Some (brk H)\<rparr>))
      = m ++ sample_blocks s (brk H) r"
    by (simp add: sample_blocks_def)
  then show ?thesis using that [of H2] 1 2 by (simp add: fill_sample_def newstr_some)
qed

lemma zero_cells [simp]: "c_next zero_sample = None"
  by (simp add: zero_sample_def)

lemma add_sample_run:
  assumes "built H0 m H" "rv_sample v = Some s" "m s = Some (Sample c)" "k = brk H" "k' = Suc k"
  obtains H' where "row_add_sample head r v H = Inr (Some (v\<lparr>rv_sample := Some k\<rparr>), H')"
    "built H0 (m(s \<mapsto> Sample (c\<lparr>c_next := Some k\<rparr>)) ++ sample_blocks k k' r) H'"
proof -
  define f where "f = (\<lambda>c :: sample_cell. c\<lparr>c_next := Some k\<rparr>)"
  obtain H1 where 1: "malloc (Sample zero_sample) H = (Some k, H1)" "built H0 (m(k \<mapsto> Sample zero_sample)) H1" "brk H1 = k'"
    using built_malloc [OF assms(1), folded assms(4), folded assms(5)] .
  have s: "s \<noteq> k" using built_below [OF assms(1), of s] assms(3,4) by auto
  then have "(m(k \<mapsto> Sample zero_sample)) s = Some (Sample c)" using assms(3) by simp
  from built_upd_sample [OF 1(2) this, where f = f]
  obtain H2 where 2: "upd_sample (Some s) f H1 = Inr H2" "built H0 (m(k \<mapsto> Sample zero_sample, s \<mapsto> Sample (f c))) H2" "brk H2 = k'"
    unfolding 1(3) .
  have "(m(k \<mapsto> Sample zero_sample, s \<mapsto> Sample (f c))) k = Some (Sample zero_sample)" using s by simp
  from fill_sample_run [OF 2(2) this zero_cells, of r]
  obtain H3 where 3: "fill_sample (Some k) r H2 = Inr H3"
    "built H0 (m(k \<mapsto> Sample zero_sample, s \<mapsto> Sample (f c)) ++ sample_blocks k k' r) H3"
    unfolding 2(3) .
  have "m(k \<mapsto> Sample zero_sample, s \<mapsto> Sample (f c)) ++ sample_blocks k k' r = m(s \<mapsto> Sample (f c)) ++ sample_blocks k k' r"
    using s by (simp add: sample_blocks_def fun_upd_twist fun_upd_upd)
  then have "built H0 (m(s \<mapsto> Sample (f c)) ++ sample_blocks k k' r) H3" using 3(2) by simp
  moreover have "row_add_sample head r v H = Inr (Some (v\<lparr>rv_sample := Some k\<rparr>), H3)"
    using 1(1) 2(1) 3(1) assms(2) by (simp add: row_add_sample_def f_def)
  ultimately show ?thesis by (rule that [rotated, unfolded f_def [symmetric]])
qed

lemma new_item_run:
  assumes "built H0 m H" "rv_info v = Some a" "m a = Some (Info c)" "k = brk H"
  obtains H' where "row_new_item head r uuid v H =
      Inr (Some (v\<lparr>rv_old_uid := r_uid r, rv_old_bio_type := r_biotype r, rv_old_driver := Some k, rv_old_idx := r_index r,
        rv_old_uuid := uuid, rv_info := Some (k + 1), rv_sample := Some (k + 3)\<rparr>), H')"
    "built H0 (m(a \<mapsto> Info (c\<lparr>c_info_next := Some (k + 1)\<rparr>)) ++ item_blocks k r) H'"
proof -
  define k1 where "k1 = Suc k"
  define k2 where "k2 = Suc k1"
  define k3 where "k3 = Suc k2"
  define k4 where "k4 = Suc k3"
  define f where "f = (\<lambda>c :: info_cell. c\<lparr>c_info_next := Some k1\<rparr>)"
  define g where "g = (\<lambda>c :: info_cell. c\<lparr>c_uid := r_uid r, c_biotype := r_biotype r, c_driver := Some k, c_index := r_index r, c_index_name := Some k2\<rparr>)"
  define l where "l = (\<lambda>c :: info_cell. c\<lparr>c_sample := Some k3\<rparr>)"
  note ks = k1_def k2_def k3_def k4_def
  have a: "a < k" using built_below [OF assms(1), of a] assms(3,4) by auto
  then have ne: "a \<noteq> k" "a \<noteq> k1" "a \<noteq> k2" "a \<noteq> k3" "a \<noteq> k4" "k \<noteq> k1" "k \<noteq> k2" "k \<noteq> k3" "k \<noteq> k4" "k1 \<noteq> k2" "k1 \<noteq> k3"
    "k1 \<noteq> k4" "k2 \<noteq> k3" "k2 \<noteq> k4" "k3 \<noteq> k4" by (simp_all add: ks)
  define m1 where "m1 = m(k \<mapsto> Text (r_driver r))"
  define m2 where "m2 = m1(k1 \<mapsto> Info zero_info)"
  define m3 where "m3 = m2(a \<mapsto> Info (f c))"
  define m4 where "m4 = m3(k2 \<mapsto> Text (r_index_name r))"
  define m5 where "m5 = m4(k1 \<mapsto> Info (g zero_info))"
  define m6 where "m6 = m5(k3 \<mapsto> Sample zero_sample)"
  define m7 where "m7 = m6(k1 \<mapsto> Info (l (g zero_info)))"
  note ms = m1_def m2_def m3_def m4_def m5_def m6_def m7_def
  obtain H1 where 1: "malloc (Text (r_driver r)) H = (Some k, H1)" "built H0 m1 H1" "brk H1 = k1"
    using built_malloc [OF assms(1), folded assms(4), folded k1_def] unfolding m1_def .
  obtain H2 where 2: "malloc (Info zero_info) H1 = (Some k1, H2)" "built H0 m2 H2" "brk H2 = k2"
    using built_malloc [OF 1(2), unfolded 1(3), folded k2_def] unfolding m2_def .
  have "m2 a = Some (Info c)" using assms(3) ne by (simp add: ms)
  from built_upd_info [OF 2(2) this, where f = f]
  obtain H3 where 3: "upd_info (Some a) f H2 = Inr H3" "built H0 m3 H3" "brk H3 = k2" unfolding 2(3) m3_def .
  obtain H4 where 4: "malloc (Text (r_index_name r)) H3 = (Some k2, H4)" "built H0 m4 H4" "brk H4 = k3"
    using built_malloc [OF 3(2), unfolded 3(3), folded k3_def] unfolding m4_def .
  have "m4 k1 = Some (Info zero_info)" using ne by (simp add: ms)
  from built_upd_info [OF 4(2) this, where f = g]
  obtain H5 where 5: "upd_info (Some k1) g H4 = Inr H5" "built H0 m5 H5" "brk H5 = k3" unfolding 4(3) m5_def .
  obtain H6 where 6: "malloc (Sample zero_sample) H5 = (Some k3, H6)" "built H0 m6 H6" "brk H6 = k4"
    using built_malloc [OF 5(2), unfolded 5(3), folded k4_def] unfolding m6_def .
  have "m6 k1 = Some (Info (g zero_info))" using ne by (simp add: ms)
  from built_upd_info [OF 6(2) this, where f = l]
  obtain H7 where 7: "upd_info (Some k1) l H6 = Inr H7" "built H0 m7 H7" "brk H7 = k4" unfolding 6(3) m7_def .
  have "m7 k3 = Some (Sample zero_sample)" using ne by (simp add: ms)
  from fill_sample_run [OF 7(2) this zero_cells, of r]
  obtain H8 where 8: "fill_sample (Some k3) r H7 = Inr H8" "built H0 (m7 ++ sample_blocks k3 k4 r) H8" unfolding 7(3) .
  have k: "k + 1 = k1" "k + 2 = k2" "k + 3 = k3" "k + 4 = k4" by (simp_all add: ks)
  have i: "item_blocks k r = ([k \<mapsto> Text (r_driver r)] ++ [k2 \<mapsto> Text (r_index_name r)] ++ sample_blocks k3 k4 r)(k1 \<mapsto> Info (l (g zero_info)))"
    unfolding item_blocks_def k by (simp add: l_def g_def zero_info_def)
  have "(m7 ++ sample_blocks k3 k4 r) x = (m(a \<mapsto> Info (f c)) ++ item_blocks k r) x" for x
    using ne by (simp add: i ms sample_blocks_def map_add_def)
  then have "built H0 (m(a \<mapsto> Info (f c)) ++ item_blocks k r) H8" using 8(2) ext [of "m7 ++ sample_blocks k3 k4 r"] by metis
  moreover have "row_new_item head r uuid v H =
      Inr (Some (v\<lparr>rv_old_uid := r_uid r, rv_old_bio_type := r_biotype r, rv_old_driver := Some k, rv_old_idx := r_index r,
        rv_old_uuid := uuid, rv_info := Some k1, rv_sample := Some k3\<rparr>), H8)"
    using 3(1) 5(1) 7(1) 8(1) by (simp add: row_new_item_def newstr_some assms(2) 1(1) 2(1) 4(1) 6(1) f_def g_def l_def)
  ultimately show ?thesis using that [of H8] unfolding k by (simp add: f_def)
qed

section \<open>Linking\<close>

text \<open>A cell of a list, made to point to a next one.\<close>

lemma sample_linked:
  assumes "sample_at s x None m"
  shows "\<exists>c. m s = Some (Sample c) \<and> (\<forall>q. sample_at s x q (m(s \<mapsto> Sample (c\<lparr>c_next := q\<rparr>))))"
proof -
  obtain c md where c: "c_dbid c = sa_dbid x" "c_no c = sa_no x" "string_at (c_data c) (sa_data x) md" "s \<notin> dom md" "m = md(s \<mapsto> Sample c)"
    using assms unfolding sample_at_def by blast
  have "sample_at s x q (m(s \<mapsto> Sample (c\<lparr>c_next := q\<rparr>)))" for q
    unfolding sample_at_def
    by (rule exI [of _ "c\<lparr>c_next := q\<rparr>"], rule exI [of _ md]) (use c in simp)
  then show ?thesis using c(5) by auto
qed

lemma info_linked:
  assumes "info_at a i None m"
  shows "\<exists>c. m a = Some (Info c) \<and> (\<forall>q. info_at a i q (m(a \<mapsto> Info (c\<lparr>c_info_next := q\<rparr>))))"
proof -
  obtain c md mn ms where c: "c_uid c = fi_uid i" "c_biotype c = fi_biotype i" "c_index c = fi_index i"
    "string_at (c_driver c) (fi_driver i) md" "string_at (c_index_name c) (fi_index_name i) mn"
    "segment sample_at (c_sample c) (fi_sample i) None ms"
    "dom md \<inter> dom mn = {}" "(dom md \<union> dom mn) \<inter> dom ms = {}" "a \<notin> dom md \<union> dom mn \<union> dom ms"
    "m = (md ++ mn ++ ms)(a \<mapsto> Info c)"
    using assms unfolding info_at_def by blast
  have "info_at a i q (m(a \<mapsto> Info (c\<lparr>c_info_next := q\<rparr>)))" for q
    unfolding info_at_def
    by (rule exI [of _ "c\<lparr>c_info_next := q\<rparr>"], rule exI [of _ md], rule exI [of _ mn], rule exI [of _ ms])
      (use c in simp)
  then show ?thesis using c(10) by auto
qed

text \<open>
  The list while it is built: the last item, at \<open>a\<close>, points to no next one, and its last sample is at
  \<open>t\<close>, when it has samples.
\<close>

definition last_item :: "nat \<Rightarrow> feature_info \<Rightarrow> nat option \<Rightarrow> (nat \<Rightarrow> block option) \<Rightarrow> bool" where
  "last_item a i t m \<longleftrightarrow>
     (\<exists>c md mn ms ml. c_uid c = fi_uid i \<and> c_biotype c = fi_biotype i \<and> c_index c = fi_index i \<and> c_info_next c = None
       \<and> string_at (c_driver c) (fi_driver i) md \<and> string_at (c_index_name c) (fi_index_name i) mn
       \<and> (if fi_sample i = [] then c_sample c = None \<and> ms = Map.empty \<and> ml = Map.empty
          else \<exists>s. t = Some s \<and> segment sample_at (c_sample c) (butlast (fi_sample i)) (Some s) ms
                 \<and> sample_at s (last (fi_sample i)) None ml)
       \<and> dom md \<inter> dom mn = {} \<and> (dom md \<union> dom mn) \<inter> (dom ms \<union> dom ml) = {} \<and> dom ms \<inter> dom ml = {}
       \<and> a \<notin> dom md \<union> dom mn \<union> dom ms \<union> dom ml
       \<and> m = (md ++ mn ++ (ms ++ ml))(a \<mapsto> Info c))"

lemma last_item_at: "last_item a i t m \<Longrightarrow> info_at a i None m"
proof -
  assume "last_item a i t m"
  then obtain c md mn ms ml where c: "c_uid c = fi_uid i" "c_biotype c = fi_biotype i" "c_index c = fi_index i" "c_info_next c = None"
    "string_at (c_driver c) (fi_driver i) md" "string_at (c_index_name c) (fi_index_name i) mn"
    "if fi_sample i = [] then c_sample c = None \<and> ms = Map.empty \<and> ml = Map.empty
     else \<exists>s. t = Some s \<and> segment sample_at (c_sample c) (butlast (fi_sample i)) (Some s) ms \<and> sample_at s (last (fi_sample i)) None ml"
    "dom md \<inter> dom mn = {}" "(dom md \<union> dom mn) \<inter> (dom ms \<union> dom ml) = {}" "dom ms \<inter> dom ml = {}"
    "a \<notin> dom md \<union> dom mn \<union> dom ms \<union> dom ml" "m = (md ++ mn ++ (ms ++ ml))(a \<mapsto> Info c)"
    unfolding last_item_def by blast
  have "segment sample_at (c_sample c) (fi_sample i) None (ms ++ ml)"
  proof (cases "fi_sample i = []")
    case False
    then have "segment sample_at (c_sample c) (butlast (fi_sample i) @ [last (fi_sample i)]) None (ms ++ ml)"
      unfolding segment_snoc using c(7,10) by auto
    then show ?thesis using False by simp
  qed (use c(7) in simp)
  then show ?thesis
    unfolding info_at_def
    by (intro exI [of _ c] exI [of _ md] exI [of _ mn] exI [of _ "ms ++ ml"]) (use c in auto)
qed

lemma last_item_grows:
  assumes "last_item a i (Some s) m" "fi_sample i \<noteq> []"
  shows "\<exists>c. m s = Some (Sample c) \<and> (\<forall>k x mk. sample_at k x None mk \<longrightarrow> dom mk \<inter> dom m = {} \<longrightarrow>
    last_item a (i\<lparr>fi_sample := fi_sample i @ [x]\<rparr>) (Some k) (m(s \<mapsto> Sample (c\<lparr>c_next := Some k\<rparr>)) ++ mk))"
proof -
  obtain c md mn ms ml where c: "c_uid c = fi_uid i" "c_biotype c = fi_biotype i" "c_index c = fi_index i" "c_info_next c = None"
    "string_at (c_driver c) (fi_driver i) md" "string_at (c_index_name c) (fi_index_name i) mn"
    "segment sample_at (c_sample c) (butlast (fi_sample i)) (Some s) ms" "sample_at s (last (fi_sample i)) None ml"
    "dom md \<inter> dom mn = {}" "(dom md \<union> dom mn) \<inter> (dom ms \<union> dom ml) = {}" "dom ms \<inter> dom ml = {}"
    "a \<notin> dom md \<union> dom mn \<union> dom ms \<union> dom ml" "m = (md ++ mn ++ (ms ++ ml))(a \<mapsto> Info c)"
    using assms(1) unfolding last_item_def if_not_P [OF assms(2)] by (metis option.inject)
  obtain d where d: "ml s = Some (Sample d)" "\<And>q. sample_at s (last (fi_sample i)) q (ml(s \<mapsto> Sample (d\<lparr>c_next := q\<rparr>)))"
    using sample_linked [OF c(8)] by blast
  have s: "s \<in> dom ml" "s \<noteq> a" using d(1) c(12) by auto
  have ms: "m s = Some (Sample d)" using d(1) s(2) c(13) by simp
  have "last_item a (i\<lparr>fi_sample := fi_sample i @ [x]\<rparr>) (Some k) (m(s \<mapsto> Sample (d\<lparr>c_next := Some k\<rparr>)) ++ mk)"
    if mk: "sample_at k x None mk" "dom mk \<inter> dom m = {}" for k x mk
  proof -
    let ?ml = "ml(s \<mapsto> Sample (d\<lparr>c_next := Some k\<rparr>))"
    have dom: "dom ?ml = dom ml" "dom m = insert a (dom md \<union> dom mn \<union> dom ms \<union> dom ml)" using s(1) c(13) by auto
    have "segment sample_at (c_sample c) (butlast (fi_sample i) @ [last (fi_sample i)]) (Some k) (ms ++ ?ml)"
      unfolding segment_snoc using c(7,11) d(2) dom(1) by metis
    then have seg: "segment sample_at (c_sample c) (fi_sample i) (Some k) (ms ++ ?ml)" using assms(2) by simp
    have "a \<notin> dom mk" using mk(2) dom(2) by auto
    then have "m(s \<mapsto> Sample (d\<lparr>c_next := Some k\<rparr>)) ++ mk = (md ++ mn ++ ((ms ++ ?ml) ++ mk))(a \<mapsto> Info c)"
      using s(2) unfolding c(13) by (auto simp: fun_eq_iff map_add_def split: option.split)
    moreover have "dom md \<inter> dom mn = {} \<and> (dom md \<union> dom mn) \<inter> (dom (ms ++ ?ml) \<union> dom mk) = {} \<and> dom (ms ++ ?ml) \<inter> dom mk = {}
       \<and> a \<notin> dom md \<union> dom mn \<union> dom (ms ++ ?ml) \<union> dom mk"
      using c(9-12) mk(2) dom s(1) by auto
    ultimately show ?thesis
      unfolding last_item_def
      by (intro exI [of _ c] exI [of _ md] exI [of _ mn] exI [of _ "ms ++ ?ml"] exI [of _ mk])
        (use c(1-6) seg mk(1) in simp)
  qed
  then show ?thesis using ms by blast
qed

definition open_list :: "nat option \<Rightarrow> feature_info list \<Rightarrow> nat \<Rightarrow> nat option \<Rightarrow> (nat \<Rightarrow> block option) \<Rightarrow> bool" where
  "open_list head is a t m \<longleftrightarrow>
     (\<exists>front i m1 m2. is = front @ [i] \<and> segment info_at head front (Some a) m1 \<and> last_item a i t m2
       \<and> dom m1 \<inter> dom m2 = {} \<and> m = m1 ++ m2)"

lemma open_list_segment: "open_list head is a t m \<Longrightarrow> segment info_at head is None m"
  unfolding open_list_def by (metis segment_snoc last_item_at)

lemma open_list_linked:
  assumes "open_list head is a t m"
  shows "\<exists>c. m a = Some (Info c) \<and> (\<forall>k i s mk. last_item k i s mk \<longrightarrow> dom mk \<inter> dom m = {} \<longrightarrow>
    open_list head (is @ [i]) k s (m(a \<mapsto> Info (c\<lparr>c_info_next := Some k\<rparr>)) ++ mk))"
proof -
  obtain front j m1 m2 where o: "is = front @ [j]" "segment info_at head front (Some a) m1" "last_item a j t m2"
    "dom m1 \<inter> dom m2 = {}" "m = m1 ++ m2"
    using assms unfolding open_list_def by blast
  obtain c where c: "m2 a = Some (Info c)" "\<And>q. info_at a j q (m2(a \<mapsto> Info (c\<lparr>c_info_next := q\<rparr>)))"
    using info_linked [OF last_item_at [OF o(3)]] by blast
  have "open_list head (is @ [i]) k s (m(a \<mapsto> Info (c\<lparr>c_info_next := Some k\<rparr>)) ++ mk)"
    if mk: "last_item k i s mk" "dom mk \<inter> dom m = {}" for k i s mk
  proof -
    let ?m2 = "m2(a \<mapsto> Info (c\<lparr>c_info_next := Some k\<rparr>))"
    have dom: "dom ?m2 = dom m2" using c(1) by auto
    have "segment info_at head is (Some k) (m1 ++ ?m2)"
      unfolding o(1) segment_snoc using o(2,4) c(2) dom by metis
    moreover have "dom (m1 ++ ?m2) \<inter> dom mk = {}" using mk(2) unfolding dom_map_add dom o(5) by (simp only: Int_commute)
    moreover have "m(a \<mapsto> Info (c\<lparr>c_info_next := Some k\<rparr>)) ++ mk = (m1 ++ ?m2) ++ mk" by (simp add: o(5))
    ultimately show ?thesis unfolding open_list_def using mk(1) by blast
  qed
  then show ?thesis using c(1) o(5) by (auto intro!: exI [of _ c])
qed

lemma open_list_grows:
  assumes "open_list head (front @ [i]) a (Some s) m" "fi_sample i \<noteq> []"
  shows "\<exists>c. m s = Some (Sample c) \<and> (\<forall>k x mk. sample_at k x None mk \<longrightarrow> dom mk \<inter> dom m = {} \<longrightarrow>
    open_list head (front @ [i\<lparr>fi_sample := fi_sample i @ [x]\<rparr>]) a (Some k) (m(s \<mapsto> Sample (c\<lparr>c_next := Some k\<rparr>)) ++ mk))"
proof -
  obtain m1 m2 where o: "segment info_at head front (Some a) m1" "last_item a i (Some s) m2" "dom m1 \<inter> dom m2 = {}" "m = m1 ++ m2"
    using assms(1) unfolding open_list_def by auto
  obtain c where c: "m2 s = Some (Sample c)" "\<And>k x mk. sample_at k x None mk \<Longrightarrow> dom mk \<inter> dom m2 = {} \<Longrightarrow>
    last_item a (i\<lparr>fi_sample := fi_sample i @ [x]\<rparr>) (Some k) (m2(s \<mapsto> Sample (c\<lparr>c_next := Some k\<rparr>)) ++ mk)"
    using last_item_grows [OF o(2) assms(2)] by blast
  have "open_list head (front @ [i\<lparr>fi_sample := fi_sample i @ [x]\<rparr>]) a (Some k) (m(s \<mapsto> Sample (c\<lparr>c_next := Some k\<rparr>)) ++ mk)"
    if mk: "sample_at k x None mk" "dom mk \<inter> dom m = {}" for k x mk
  proof -
    let ?m2 = "m2(s \<mapsto> Sample (c\<lparr>c_next := Some k\<rparr>)) ++ mk"
    have "last_item a (i\<lparr>fi_sample := fi_sample i @ [x]\<rparr>) (Some k) ?m2" using c(2) [OF mk(1)] mk(2) o(4) by auto
    moreover have "dom m1 \<inter> dom ?m2 = {}" using c(1) o(3,4) mk(2) by auto
    moreover have "m(s \<mapsto> Sample (c\<lparr>c_next := Some k\<rparr>)) ++ mk = m1 ++ ?m2" by (simp add: o(4))
    ultimately show ?thesis unfolding open_list_def using o(1) by blast
  qed
  then show ?thesis using c(1) o(4) by (auto intro!: exI [of _ c])
qed

text \<open>The new blocks are a sample, and an item with one sample, of the row.\<close>

lemma sample_blocks_at: "s \<noteq> t \<Longrightarrow> sample_at s (sample_of r) None (sample_blocks s t r)"
  unfolding sample_at_def sample_blocks_def sample_of_def
  by (rule exI [of _ "\<lparr>c_dbid = r_id r, c_no = r_sample_no r, c_data = Some t, c_next = None\<rparr>"], rule exI [of _ "[t \<mapsto> Text (r_data r)]"]) simp

lemma item_blocks_last: "last_item (k + 1) (info_of r) (Some (k + 3)) (item_blocks k r)"
proof -
  let ?c = "\<lparr>c_uid = r_uid r, c_biotype = r_biotype r, c_driver = Some k, c_index = r_index r,
        c_index_name = Some (k + 2), c_sample = Some (k + 3), c_info_next = None\<rparr>"
  have s: "sample_at (k + 3) (sample_of r) None (sample_blocks (k + 3) (k + 4) r)" by (rule sample_blocks_at) simp
  have "dom (sample_blocks (k + 3) (k + 4) r) = {k + 3, k + 4}" by (auto simp: sample_blocks_def)
  then show ?thesis
    unfolding last_item_def item_blocks_def
    by (intro exI [of _ ?c] exI [of _ "[k \<mapsto> Text (r_driver r)]"] exI [of _ "[k + 2 \<mapsto> Text (r_index_name r)]"]
        exI [of _ "Map.empty"] exI [of _ "sample_blocks (k + 3) (k + 4) r"]) (use s in \<open>simp add: info_of_def\<close>)
qed

section \<open>The loop builds the list\<close>

text \<open>
  The loop over pointers and the one over lists: the scalars are equal, the memory holds the list so far
  after an empty item, and \<open>old_driver\<close> points to the string of the last item opened.
\<close>

definition zero_feature :: feature_info where
  "zero_feature = \<lparr>fi_uid = 0, fi_biotype = 0, fi_driver = None, fi_index = 0, fi_index_name = None, fi_sample = []\<rparr>"

definition points_to :: "nat option \<Rightarrow> string option \<Rightarrow> (nat \<Rightarrow> block option) \<Rightarrow> bool" where
  "points_to p s m \<longleftrightarrow> (case p of None \<Rightarrow> s = None | Some a \<Rightarrow> \<exists>t. s = Some t \<and> m a = Some (Text t))"

definition same_scalars :: "get_vars \<Rightarrow> row_vars \<Rightarrow> bool" where
  "same_scalars g v \<longleftrightarrow> rv_old_uuid v = g_old_uuid g \<and> rv_old_uid v = g_old_uid g \<and> rv_old_bio_type v = g_old_bio_type g
     \<and> rv_old_idx v = g_old_idx g \<and> rv_user_uuid v = g_user_uuid g"

definition all_sampled :: "get_vars \<Rightarrow> row_vars \<Rightarrow> bool" where
  "all_sampled g v \<longleftrightarrow> list_all (\<lambda>i. fi_sample i \<noteq> []) (g_list g) \<and> (g_list g = [] \<longrightarrow> rv_sample v = None)"

definition row_rel :: "memory \<Rightarrow> nat option \<Rightarrow> get_vars \<Rightarrow> row_vars \<Rightarrow> memory \<Rightarrow> bool" where
  "row_rel H0 head g v H \<longleftrightarrow> same_scalars g v \<and> all_sampled g v
     \<and> (\<exists>a m. rv_info v = Some a \<and> built H0 m H \<and> open_list head (zero_feature # rev (g_list g)) a (rv_sample v) m
          \<and> points_to (rv_old_driver v) (g_old_driver g) m)"

lemma points_to_load: "built H0 m H \<Longrightarrow> points_to p s m \<Longrightarrow>
    load_text p H = (case s of None \<Rightarrow> Inl Null_deref | Some t \<Rightarrow> Inr t)"
  by (cases p) (auto simp: points_to_def load_text_def load_def [of None] load_block [OF built_block])

lemma row_opens_refines: "row_rel H0 head g v H \<Longrightarrow> row_opens v r uuid H = opens_item g r uuid"
  by (auto simp: row_rel_def same_scalars_def row_opens_def opens_item_def points_to_load split: option.split)

lemma row_user_uuid_refines:
  assumes "row_rel H0 head g v H"
  shows "case refresh_user_uuid h r g us of
           Inl e \<Rightarrow> row_user_uuid h r v us = Inl e
         | Inr (g', us') \<Rightarrow> \<exists>v'. row_user_uuid h r v us = Inr (v', us') \<and> row_rel H0 head g' v' H"
  using assms
  by (cases "internal_get_uuid_by_uid h (r_uid r) us")
    (auto simp: refresh_user_uuid_def row_user_uuid_def row_rel_def same_scalars_def all_sampled_def)

lemma new_item_refines:
  assumes "row_rel H0 head g v H"
  shows "\<exists>v' H'. row_new_item head r uuid v H = Inr (Some v', H') \<and> row_rel H0 head (new_item r uuid g) v' H'"
proof -
  obtain a m where m: "rv_info v = Some a" "built H0 m H" "open_list head (zero_feature # rev (g_list g)) a (rv_sample v) m"
    using assms unfolding row_rel_def by blast
  obtain c where c: "m a = Some (Info c)" "\<And>k i s mk. last_item k i s mk \<Longrightarrow> dom mk \<inter> dom m = {} \<Longrightarrow>
      open_list head ((zero_feature # rev (g_list g)) @ [i]) k s (m(a \<mapsto> Info (c\<lparr>c_info_next := Some k\<rparr>)) ++ mk)"
    using open_list_linked [OF m(3)] by blast
  define k where "k = brk H"
  obtain H' where run: "row_new_item head r uuid v H =
      Inr (Some (v\<lparr>rv_old_uid := r_uid r, rv_old_bio_type := r_biotype r, rv_old_driver := Some k, rv_old_idx := r_index r,
        rv_old_uuid := uuid, rv_info := Some (k + 1), rv_sample := Some (k + 3)\<rparr>), H')"
    "built H0 (m(a \<mapsto> Info (c\<lparr>c_info_next := Some (k + 1)\<rparr>)) ++ item_blocks k r) H'"
    using new_item_run [OF m(2,1) c(1) k_def] .
  have "dom (item_blocks k r) = {k, k + 1, k + 2, k + 3, k + 4}"
    by (auto simp: item_blocks_def sample_blocks_def)
  then have "dom (item_blocks k r) \<inter> dom m = {}" using m(2) unfolding built_def k_def by auto
  from c(2) [OF item_blocks_last this]
  have "open_list head (zero_feature # rev (g_list (new_item r uuid g))) (k + 1) (Some (k + 3))
      (m(a \<mapsto> Info (c\<lparr>c_info_next := Some (k + 1)\<rparr>)) ++ item_blocks k r)"
    by (simp add: new_item_def)
  moreover have "item_blocks k r k = Some (Text (r_driver r))"
    by (simp add: item_blocks_def sample_blocks_def map_add_def)
  then have "points_to (Some k) (Some (r_driver r)) (m(a \<mapsto> Info (c\<lparr>c_info_next := Some (k + 1)\<rparr>)) ++ item_blocks k r)"
    by (simp add: points_to_def)
  ultimately have "row_rel H0 head (new_item r uuid g)
      (v\<lparr>rv_old_uid := r_uid r, rv_old_bio_type := r_biotype r, rv_old_driver := Some k, rv_old_idx := r_index r,
        rv_old_uuid := uuid, rv_info := Some (k + 1), rv_sample := Some (k + 3)\<rparr>) H'"
    using assms run(2) unfolding row_rel_def
    by (intro conjI exI [of _ "k + 1"] exI [of _ "m(a \<mapsto> Info (c\<lparr>c_info_next := Some (k + 1)\<rparr>)) ++ item_blocks k r"])
      (simp_all add: same_scalars_def all_sampled_def new_item_def info_of_def)
  then show ?thesis using run(1) by blast
qed

lemma add_sample_refines:
  assumes "row_rel H0 head g v H"
  shows "case add_sample r g of
           Inl e \<Rightarrow> row_add_sample head r v H = Inl e
         | Inr g' \<Rightarrow> \<exists>v' H'. row_add_sample head r v H = Inr (Some v', H') \<and> row_rel H0 head g' v' H'"
proof (cases "g_list g")
  case Nil
  then have "rv_sample v = None" using assms by (simp add: row_rel_def all_sampled_def)
  then have "row_add_sample head r v H = Inl Null_deref"
    by (simp add: row_add_sample_def upd_sample_def load_sample_def load_def split: prod.split)
  then show ?thesis using Nil by (simp add: add_sample_def)
next
  case (Cons i js)
  obtain a m where m: "rv_info v = Some a" "built H0 m H" "open_list head (zero_feature # rev (g_list g)) a (rv_sample v) m"
    "points_to (rv_old_driver v) (g_old_driver g) m" "fi_sample i \<noteq> []"
    using assms Cons unfolding row_rel_def all_sampled_def by auto
  have o: "open_list head ((zero_feature # rev js) @ [i]) a (rv_sample v) m" using m(3) Cons by simp
  then obtain s where s: "rv_sample v = Some s"
    using m(5) unfolding open_list_def last_item_def by auto
  obtain c where c: "m s = Some (Sample c)" "\<And>k x mk. sample_at k x None mk \<Longrightarrow> dom mk \<inter> dom m = {} \<Longrightarrow>
      open_list head ((zero_feature # rev js) @ [i\<lparr>fi_sample := fi_sample i @ [x]\<rparr>]) a (Some k)
        (m(s \<mapsto> Sample (c\<lparr>c_next := Some k\<rparr>)) ++ mk)"
    using open_list_grows [OF o [unfolded s] m(5)] by blast
  define k where "k = brk H"
  define m' where "m' = m(s \<mapsto> Sample (c\<lparr>c_next := Some k\<rparr>)) ++ sample_blocks k (Suc k) r"
  obtain H' where run: "row_add_sample head r v H = Inr (Some (v\<lparr>rv_sample := Some k\<rparr>), H')" "built H0 m' H'"
    using add_sample_run [OF m(2) s c(1) k_def refl] unfolding m'_def .
  have "dom (sample_blocks k (Suc k) r) = {k, Suc k}" by (auto simp: sample_blocks_def)
  then have new: "dom (sample_blocks k (Suc k) r) \<inter> dom m = {}" using m(2) unfolding built_def k_def by auto
  have "open_list head (zero_feature # rev (i\<lparr>fi_sample := fi_sample i @ [sample_of r]\<rparr> # js)) a (Some k) m'"
    using c(2) [OF sample_blocks_at new] unfolding m'_def by simp
  moreover have "points_to (rv_old_driver v) (g_old_driver g) m'"
  proof -
    have "m' x = Some (Text t)" if "m x = Some (Text t)" for x t
    proof -
      have "x \<noteq> s" "sample_blocks k (Suc k) r x = None" using that c(1) new by auto
      then show ?thesis using that by (simp add: m'_def map_add_def)
    qed
    then show ?thesis using m(4) by (auto simp: points_to_def split: option.splits)
  qed
  ultimately have "row_rel H0 head (g\<lparr>g_list := i\<lparr>fi_sample := fi_sample i @ [sample_of r]\<rparr> # js\<rparr>) (v\<lparr>rv_sample := Some k\<rparr>) H'"
    using assms run(2) m(1) Cons unfolding row_rel_def
    by (intro conjI exI [of _ a] exI [of _ m']) (simp_all add: same_scalars_def all_sampled_def)
  then show ?thesis using run(1) Cons by (simp add: add_sample_def)
qed

lemma row_refines:
  assumes "row_rel H0 head g v H"
  shows "case get_row h r (g, us) of
           Inl e \<Rightarrow> row_in_memory h head r (v, us, H) = Inl e
         | Inr (g', us') \<Rightarrow> \<exists>v' H'. row_in_memory h head r (v, us, H) = Inr (Some v', us', H') \<and> row_rel H0 head g' v' H'"
proof (cases "r_uuid r")
  case (Some column)
  let ?u = "take UUID_BUF_LEN column"
  have user: "rv_user_uuid v' = g_user_uuid g'" if "row_rel H0 head g' v' H'" for g' v' H'
    using that by (simp add: row_rel_def same_scalars_def)
  show ?thesis
  proof (cases "opens_item g r ?u")
    case (Inr opens)
    have o: "row_opens v r ?u H = Inr opens" using Inr by (simp add: row_opens_refines [OF assms])
    show ?thesis
    proof (cases opens)
      case True
      show ?thesis
      proof (cases "refresh_user_uuid h r g us")
        case (Inr p)
        then obtain g1 us1 where p: "refresh_user_uuid h r g us = Inr (g1, us1)" by (cases p) simp
        obtain v1 where v1: "row_user_uuid h r v us = Inr (v1, us1)" "row_rel H0 head g1 v1 H"
          using row_user_uuid_refines [OF assms, of h r us] p by auto
        obtain v2 H2 where 2: "row_new_item head r ?u v1 H = Inr (Some v2, H2)" "row_rel H0 head (new_item r ?u g1) v2 H2"
          using new_item_refines [OF v1(2)] by blast
        show ?thesis
          using Some True \<open>opens_item g r ?u = Inr opens\<close> o p v1 2 user [OF v1(2)]
          by (auto simp: get_row_def row_in_memory_def Let_def)
      qed (use row_user_uuid_refines [OF assms, of h r us] Some True Inr o in \<open>simp add: get_row_def row_in_memory_def Let_def\<close>)
    next
      case False
      show ?thesis
        using add_sample_refines [OF assms, of r] Some False Inr o user [OF assms] assms
        by (cases "add_sample r g") (auto simp: get_row_def row_in_memory_def Let_def)
    qed
  qed (use Some row_opens_refines [OF assms] in \<open>simp add: get_row_def row_in_memory_def Let_def\<close>)
qed (simp add: get_row_def row_in_memory_def)

lemma rows_refine:
  assumes "row_rel H0 head g v H"
  shows "case get_rows h (fst (sqlite3_rows rs (s_db s))) (g, s_users s) of
           Inl e \<Rightarrow> rows_in_memory h head rs (v, s, H) = Inl e
         | Inr (g', us') \<Rightarrow> \<exists>v' H'. row_rel H0 head g' v' H'
             \<and> rows_in_memory h head rs (v, s, H) = Inr (Some v', \<lparr>s_db = snd (sqlite3_rows rs (s_db s)), s_users = us'\<rparr>, H')"
  using assms
proof (induction rs arbitrary: g v H s)
  case (Cons r rs)
  obtain ok db where c: "sql_call (s_db s) = (ok, db)" by (cases "sql_call (s_db s)")
  show ?case
  proof (cases ok)
    case True
    obtain rs' db' where q: "sqlite3_rows rs db = (rs', db')" by (cases "sqlite3_rows rs db")
    show ?thesis
    proof (cases "get_row h r (g, s_users s)")
      case (Inr p)
      then obtain g1 us1 where p: "get_row h r (g, s_users s) = Inr (g1, us1)" by (cases p) simp
      obtain v1 H1 where 1: "row_in_memory h head r (v, s_users s, H) = Inr (Some v1, us1, H1)" "row_rel H0 head g1 v1 H1"
        using row_refines [OF Cons.prems, of h r "s_users s"] p by auto
      show ?thesis
        using Cons.IH [OF 1(2), of "s\<lparr>s_db := db, s_users := us1\<rparr>"] p 1(1) c q True by (auto split: sum.splits)
    qed (use row_refines [OF Cons.prems, of h r "s_users s"] c q True in simp)
  qed (use Cons.prems c in auto)
qed auto

text \<open>An empty list, with the empty item at its head.\<close>

lemma empty_list_built:
  assumes "built H0 Map.empty H"
  obtains H' where "malloc (Info zero_info) H = (Some (brk H), H')"
    "row_rel H0 (Some (brk H)) get_vars_init (row_vars_init (Some (brk H))) H'"
proof -
  obtain H' where H': "malloc (Info zero_info) H = (Some (brk H), H')" "built H0 [brk H \<mapsto> Info zero_info] H'"
    using built_malloc [OF assms, of "Info zero_info"] by auto
  have "last_item (brk H) zero_feature None [brk H \<mapsto> Info zero_info]"
    unfolding last_item_def
    by (intro exI [of _ zero_info] exI [of _ Map.empty]) (simp add: zero_info_def zero_feature_def)
  then have "open_list (Some (brk H)) [zero_feature] (brk H) None [brk H \<mapsto> Info zero_info]"
    unfolding open_list_def
    by (intro exI [of _ "[]"] exI [of _ zero_feature] exI [of _ Map.empty] exI [of _ "[brk H \<mapsto> Info zero_info]"]) simp
  then have "row_rel H0 (Some (brk H)) get_vars_init (row_vars_init (Some (brk H))) H'"
    unfolding row_rel_def
    by (intro conjI exI [of _ "brk H"] exI [of _ "[brk H \<mapsto> Info zero_info]"])
      (use H'(2) in \<open>simp_all add: same_scalars_def all_sampled_def get_vars_init_def row_vars_init_def points_to_def\<close>)
  then show ?thesis using that H'(1) by blast
qed

text \<open>The empty item has no string and no sample: removing it frees one block.\<close>

lemma empty_item: "info_at a zero_feature q m \<Longrightarrow> \<exists>c. m = [a \<mapsto> Info c] \<and> c_info_next c = q"
proof -
  assume "info_at a zero_feature q m"
  then obtain c md mn ms where c: "c_info_next c = q" "string_at (c_driver c) None md" "string_at (c_index_name c) None mn"
    "segment sample_at (c_sample c) [] None ms" "m = (md ++ mn ++ ms)(a \<mapsto> Info c)"
    unfolding info_at_def zero_feature_def by auto
  have "string_at p None n \<Longrightarrow> n = Map.empty" for p n by (cases p) auto
  then have "md = Map.empty" "mn = Map.empty" "ms = Map.empty" using c(2-4) by auto
  then show ?thesis using c(1,5) by auto
qed

definition holds_list :: "memory \<Rightarrow> nat option \<Rightarrow> feature_info list \<Rightarrow> memory \<Rightarrow> bool" where
  "holds_list H0 p infos H \<longleftrightarrow> (\<exists>m. segment info_at p infos None m \<and> built H0 m H)"

text \<open>Of the list that is built, the item at the head is removed.\<close>

lemma head_removed:
  assumes "row_rel H0 (Some a) g v H"
  shows "\<exists>p c H'. load_info (Some a) H = Inr c \<and> c_info_next c = p \<and> free (Some a) H = Inr H' \<and> holds_list H0 p (rev (g_list g)) H'"
proof -
  obtain m where m: "built H0 m H" "segment info_at (Some a) (zero_feature # rev (g_list g)) None m"
    using assms open_list_segment unfolding row_rel_def by blast
  obtain q m1 m2 where s: "info_at a zero_feature q m1" "segment info_at q (rev (g_list g)) None m2"
    "dom m1 \<inter> dom m2 = {}" "m = m1 ++ m2"
    using m(2) by auto
  obtain c where c: "m1 = [a \<mapsto> Info c]" "c_info_next c = q" using empty_item [OF s(1)] by blast
  have n: "a \<notin> dom m2" using s(3) c(1) by simp
  then have "m a = Some (Info c)" using s(4) c(1) by (simp add: map_add_dom_app_simps)
  then have b: "block_at a H = Some (Info c)" and above: "brk H0 \<le> a"
    using m(1) built_block [OF m(1)] by (auto simp: built_def)
  have "blocks (without H {a}) x = (blocks H0 ++ m2) x" for x
  proof -
    have "blocks H x = (blocks H0 ++ m) x" "blocks H0 a = None"
      using m(1) above by (simp_all add: built_def blocks_def block_at_def)
    then show ?thesis using n s(4) c(1) by (auto simp: blocks_def map_add_def split: option.split)
  qed
  then have "built H0 m2 (without H {a})" using m(1) s(4) unfolding built_def by (auto simp: fun_eq_iff)
  then show ?thesis using b c(2) s(2) by (auto simp: holds_list_def load_info_def load_block free_block)
qed

text \<open>The text of the statement is gone when the rows are read.\<close>

lemma built_freed:
  assumes "True \<notin> set (malloc_fails H)"
  obtains H1 H2 where "malloc b H = (Some (brk H), H1)" "free (Some (brk H)) H1 = Inr H2" "built H Map.empty H2"
proof -
  have "built H Map.empty H" using assms by (simp add: built_def)
  from built_malloc [OF this, of b]
  obtain H1 where 1: "malloc b H = (Some (brk H), H1)" "built H [brk H \<mapsto> b] H1" by auto
  have "block_at (brk H) H1 = Some b" using built_block [OF 1(2)] by simp
  moreover have "blocks (without H1 {brk H}) x = blocks H x" for x
  proof -
    have "blocks H1 x = (blocks H ++ [brk H \<mapsto> b]) x" "blocks H (brk H) = None"
      using 1(2) by (simp_all add: built_def blocks_def block_at_def)
    then show ?thesis by (auto simp: blocks_def split: if_splits)
  qed
  then have "built H Map.empty (without H1 {brk H})" using 1(2) by (auto simp: built_def fun_eq_iff)
  ultimately show ?thesis using that 1(1) free_block by metis
qed

text \<open>
  C10. As long as no allocation fails, the query over pointers refines the query over lists: it faults where the
  latter does, leaves the same store, and otherwise what it returns points to exactly that list, in
  new blocks, apart from all blocks that were in use; nothing else is left allocated.
\<close>

theorem features_in_memory_refines:
  assumes "True \<notin> set (malloc_fails H)"
  shows "case bio_sto_get_feature_info h handle uid biotype driver index_start index_end s of
           Inl e \<Rightarrow> features_in_memory h handle uid biotype driver index_start index_end s H = Inl e
         | Inr (infos, s') \<Rightarrow> \<exists>p H'. features_in_memory h handle uid biotype driver index_start index_end s H = Inr (p, s', H')
             \<and> holds_list H p infos H'"
proof -
  let ?sql = "Text (get_sql uid biotype driver index_end)"
  obtain H1 H2 where 1: "malloc ?sql H = (Some (brk H), H1)" "free (Some (brk H)) H1 = Inr H2" "built H Map.empty H2"
    using built_freed [OF assms] .
  obtain ok db where ok: "sqlite3_prepare handle (has_uuid_column (tables_of (s_db s))) (s_db s) = (ok, db)"
    by (cases "sqlite3_prepare handle (has_uuid_column (tables_of (s_db s))) (s_db s)")
  show ?thesis
  proof (cases ok)
    case False
    have "holds_list H None [] H2" using 1(3) by (simp add: holds_list_def)
    then show ?thesis using False ok 1(1,2) by (simp add: bio_sto_get_feature_info_def features_in_memory_def)
  next
    case True
    let ?rows = "sort_key row_key (filter (row_selected uid biotype driver index_start index_end) (eigen_rows (tables_of db)))"
    obtain H3 where 3: "malloc (Info zero_info) H2 = (Some (brk H2), H3)"
      "row_rel H (Some (brk H2)) get_vars_init (row_vars_init (Some (brk H2))) H3"
      using empty_list_built [OF 1(3)] .
    obtain rows db' where q: "sqlite3_rows ?rows db = (rows, db')" by (cases "sqlite3_rows ?rows db")
    note loop = rows_refine [OF 3(2), of h ?rows "s\<lparr>s_db := db\<rparr>"]
    note unfolded = bio_sto_get_feature_info_def features_in_memory_def Let_def
    show ?thesis
    proof (cases "get_rows h rows (get_vars_init, s_users s)")
      case (Inl e)
      then show ?thesis using loop True ok 1(1,2) 3(1) q by (simp add: unfolded)
    next
      case (Inr y)
      then obtain g us' where g: "get_rows h rows (get_vars_init, s_users s) = Inr (g, us')" by (cases y) simp
      obtain v2 H4 where 2: "row_rel H (Some (brk H2)) g v2 H4"
        "rows_in_memory h (Some (brk H2)) ?rows (row_vars_init (Some (brk H2)), s\<lparr>s_db := db\<rparr>, H3)
           = Inr (Some v2, \<lparr>s_db = db', s_users = us'\<rparr>, H4)"
        using loop g q by auto
      obtain c H5 where 5: "load_info (Some (brk H2)) H4 = Inr c" "free (Some (brk H2)) H4 = Inr H5"
        "holds_list H (c_info_next c) (rev (g_list g)) H5"
        using head_removed [OF 2(1)] by blast
      then show ?thesis using g True ok 1(1,2) 3(1) q 2(2) by (simp add: unfolded)
    qed
  qed
qed

text \<open>Freeing what was read leaves the blocks of before.\<close>

lemma held_list_freed:
  assumes "holds_list H0 p infos H"
  shows "\<exists>H'. bio_sto_free_feature_info_list p H = Inr H' \<and> blocks H' = blocks H0"
proof -
  obtain m where m: "segment info_at p infos None m" "built H0 m H" using assms unfolding holds_list_def by blast
  have "blocks (without H (dom m)) a = blocks H0 a" for a
  proof -
    have "blocks H a = (blocks H0 ++ m) a" "a \<in> dom m \<Longrightarrow> blocks H0 a = None"
      using m(2) by (auto simp: built_def blocks_def block_at_def)
    then show ?thesis by (auto simp: blocks_def map_add_def dom_def split: option.splits)
  qed
  then show ?thesis using infos.all_freed [OF m(1) built_owns [OF m(2)]] by blast
qed

section \<open>New features\<close>

text \<open>
  \<open>bio_sto_new_feature_sample\<close> clears nothing: \<open>dbid\<close> is what was there before. \<open>bio_sto_new_feature_info\<close>
  frees on its error path what it has allocated.
\<close>

definition new_sample_in_memory :: "int \<Rightarrow> int \<Rightarrow> string option \<Rightarrow> memory \<Rightarrow> (nat option \<times> memory) res" where
  "new_sample_in_memory dbid no data H =
     (let (s, H) = malloc (Sample (zero_sample\<lparr>c_dbid := dbid\<rparr>)) H
      in if s = None then Inr (None, H)
         else let (t, H) = (if data = None then (None, H) else newstr data H)
              in bindR (upd_sample s (\<lambda>c. c\<lparr>c_no := no, c_data := t, c_next := None\<rparr>) H) (\<lambda>H. Inr (s, H)))"

definition info_named ::
    "nat option \<Rightarrow> nat option \<Rightarrow> int \<Rightarrow> int \<Rightarrow> int \<Rightarrow> string option \<Rightarrow> memory \<Rightarrow> (nat option \<times> memory) res" where
  "info_named info d uid biotype index index_name H =
     (let (n, H) = (if index_name = None then (None, H) else newstr index_name H)
      in bindR (upd_info info (\<lambda>c. c\<lparr>c_index_name := n\<rparr>) H) (\<lambda>H.
         if n = None then bindR (free d H) (\<lambda>H. bindR (free info H) (\<lambda>H. Inr (None, H)))
         else bindR (upd_info info (\<lambda>c. c\<lparr>c_uid := uid, c_biotype := biotype, c_index := index,
                c_sample := None, c_info_next := None\<rparr>) H) (\<lambda>H. Inr (info, H))))"

definition new_info_in_memory ::
    "int \<Rightarrow> int \<Rightarrow> string option \<Rightarrow> int \<Rightarrow> string option \<Rightarrow> memory \<Rightarrow> (nat option \<times> memory) res" where
  "new_info_in_memory uid biotype driver index index_name H =
     (let (info, H) = malloc (Info zero_info) H
      in if info = None then Inr (None, H)
         else let (d, H) = (if driver = None then (None, H) else newstr driver H)
              in bindR (upd_info info (\<lambda>c. c\<lparr>c_driver := d\<rparr>) H) (\<lambda>H.
                 if d = None then bindR (free info H) (\<lambda>H. Inr (None, H))
                 else info_named info d uid biotype index index_name H))"

text \<open>The calls by their effect on the blocks.\<close>

lemma blocks_without: "blocks (without H A) = (\<lambda>x. if x \<in> A then None else blocks H x)"
  by (simp add: blocks_def fun_eq_iff)

lemma blocks_fresh [simp]: "blocks H (brk H) = None" "blocks H (Suc (brk H)) = None" "blocks H (Suc (Suc (brk H))) = None"
  by (simp_all add: blocks_def block_at_def)

lemma malloc_blocks:
  obtains (failed) H' where "malloc b H = (None, H')" "blocks H' = blocks H" "brk H' = brk H"
    | (got) H' where "malloc b H = (Some (brk H), H')" "blocks H' = (blocks H)(brk H \<mapsto> b)" "brk H' = Suc (brk H)"
proof -
  let ?F = "H\<lparr>malloc_fails := tl (malloc_fails H)\<rparr>"
  let ?D = "H\<lparr>cells := (cells H)(brk H \<mapsto> b), brk := brk H + 1, malloc_fails := tl (malloc_fails H)\<rparr>"
  have "malloc b H = (None, ?F) \<or> malloc b H = (Some (brk H), ?D)"
    by (auto simp: malloc_def split: list.split bool.split)
  moreover have "blocks ?F = blocks H" "blocks ?D = (blocks H)(brk H \<mapsto> b)" by (auto simp: blocks_def block_at_def fun_eq_iff)
  ultimately show ?thesis using failed [of ?F] got [of ?D] by auto
qed

lemma upd_info_blocks:
  assumes "blocks H a = Some (Info c)"
  obtains H' where "upd_info (Some a) f H = Inr H'" "blocks H' = (blocks H)(a \<mapsto> Info (f c))" "brk H' = brk H"
proof -
  let ?H = "H\<lparr>cells := (cells H)(a \<mapsto> Info (f c))\<rparr>"
  have b: "block_at a H = Some (Info c)" using assms by (simp add: blocks_def)
  then have "upd_info (Some a) f H = Inr ?H" by (simp add: upd_info_def load_info_def load_block)
  moreover have "blocks ?H = (blocks H)(a \<mapsto> Info (f c))"
    using b by (auto simp: blocks_def block_at_def fun_eq_iff split: if_splits)
  ultimately show ?thesis using that by simp
qed

lemma free_blocks: "blocks H a = Some b \<Longrightarrow> free (Some a) H = Inr (without H {a})"
  by (rule free_block) (simp add: blocks_def)

text \<open>The result: null and the blocks of before, or the new feature in new blocks.\<close>

definition all_or_nothing :: "memory \<Rightarrow> feature_info option \<Rightarrow> (nat option \<times> memory) res \<Rightarrow> bool" where
  "all_or_nothing H new result \<longleftrightarrow>
     (\<exists>p H'. result = Inr (p, H') \<and>
        (case p of
           None \<Rightarrow> blocks H' = blocks H
         | Some a \<Rightarrow> \<exists>i m. new = Some i \<and> info_at a i None m \<and> dom m \<inter> dom (blocks H) = {} \<and> blocks H' = blocks H ++ m))"

lemma free_new:
  assumes "blocks H1 = (blocks H)(brk H \<mapsto> b)"
  shows "free (Some (brk H)) H1 = Inr (without H1 {brk H})" "blocks (without H1 {brk H}) = blocks H"
  using assms by (auto simp: free_blocks blocks_without fun_eq_iff)

lemma info_named_all_or_nothing:
  assumes "blocks H2 = (blocks H)(a \<mapsto> Info c, d \<mapsto> Text drv)" "a = brk H" "d = Suc a" "brk H2 = Suc d" "c_driver c = Some d"
  shows "all_or_nothing H (bio_sto_new_feature_info uid biotype (Some drv) index name)
    (info_named (Some a) (Some d) uid biotype index name H2)"
proof -
  note fresh = blocks_fresh [of H, folded assms(2), folded assms(3)]
  have give_up: "all_or_nothing H new (bindR (upd_info (Some a) (\<lambda>c. c\<lparr>c_index_name := None\<rparr>) H3)
      (\<lambda>H. bindR (free (Some d) H) (\<lambda>H. bindR (free (Some a) H) (\<lambda>H. Inr (None, H)))))"
    if 3: "blocks H3 = blocks H2" for H3 new
  proof -
    have "blocks H3 a = Some (Info c)" using 3 assms(1,3) by simp
    then obtain H4 where 4: "upd_info (Some a) (\<lambda>c. c\<lparr>c_index_name := None\<rparr>) H3 = Inr H4"
      "blocks H4 = (blocks H3)(a \<mapsto> Info (c\<lparr>c_index_name := None\<rparr>))"
      by (rule upd_info_blocks)
    then have "free (Some d) H4 = Inr (without H4 {d})" using 3 assms(1,3) by (simp add: free_blocks)
    moreover have "free (Some a) (without H4 {d}) = Inr (without H4 {d, a})"
      using 3 4(2) assms(1,3) by (simp add: free_blocks blocks_without insert_commute)
    moreover have "blocks (without H4 {d, a}) = blocks H" using 3 4(2) assms(1) fresh by (auto simp: blocks_without fun_eq_iff)
    ultimately show ?thesis using 4(1) unfolding all_or_nothing_def by simp
  qed
  show ?thesis
  proof (cases name)
    case None
    then show ?thesis using give_up [of H2] by (simp add: info_named_def)
  next
    case (Some nm)
    show ?thesis
    proof (cases rule: malloc_blocks [of "Text nm" H2])
      case (failed H3)
      then show ?thesis using give_up [of H3] Some by (simp add: info_named_def newstr_some)
    next
      case 3: (got H3)
      define e where "e = brk H2"
      define c' where "c' = c\<lparr>c_index_name := Some e\<rparr>"
      define f where "f = (\<lambda>c :: info_cell. c\<lparr>c_uid := uid, c_biotype := biotype, c_index := index, c_sample := None, c_info_next := None\<rparr>)"
      have e: "e \<noteq> a" "e \<noteq> d" "a \<noteq> d" using assms(3,4) by (simp_all add: e_def)
      have "blocks H3 a = Some (Info c)" using 3 assms(1,3,4) by simp
      then obtain H4 where 4: "upd_info (Some a) (\<lambda>c. c\<lparr>c_index_name := Some e\<rparr>) H3 = Inr H4"
        "blocks H4 = (blocks H3)(a \<mapsto> Info (c\<lparr>c_index_name := Some e\<rparr>))"
        by (rule upd_info_blocks)
      have "blocks H4 a = Some (Info c')" using 4(2) by (simp add: c'_def)
      then obtain H5 where 5: "upd_info (Some a) f H4 = Inr H5" "blocks H5 = (blocks H4)(a \<mapsto> Info (f c'))"
        by (rule upd_info_blocks)
      let ?m = "([d \<mapsto> Text drv] ++ [e \<mapsto> Text nm] ++ Map.empty)(a \<mapsto> Info (f c'))"
      let ?i = "\<lparr>fi_uid = uid, fi_biotype = biotype, fi_driver = Some drv, fi_index = index, fi_index_name = Some nm, fi_sample = []\<rparr>"
      have "info_at a ?i None ?m"
        unfolding info_at_def
        by (rule exI [of _ "f c'"], rule exI [of _ "[d \<mapsto> Text drv]"], rule exI [of _ "[e \<mapsto> Text nm]"], rule exI [of _ Map.empty])
          (use e assms(5) in \<open>simp add: f_def c'_def\<close>)
      moreover have "dom ?m \<inter> dom (blocks H) = {}" using fresh assms(4) by (auto simp: e_def)
      moreover have "blocks H5 = blocks H ++ ?m"
        using e unfolding 5(2) 4(2) 3(2) assms(1) by (auto simp: e_def [symmetric] fun_eq_iff map_add_def)
      moreover have "bio_sto_new_feature_info uid biotype (Some drv) index name = Some ?i"
        using Some by (simp add: bio_sto_new_feature_info_def internal_newstr_def)
      moreover have "info_named (Some a) (Some d) uid biotype index name H2 = Inr (Some a, H5)"
        using 3(1) 4(1) 5(1) Some by (simp add: info_named_def newstr_some e_def f_def)
      ultimately have "\<exists>i m. bio_sto_new_feature_info uid biotype (Some drv) index name = Some i \<and> info_at a i None m
          \<and> dom m \<inter> dom (blocks H) = {} \<and> blocks H5 = blocks H ++ m"
        "info_named (Some a) (Some d) uid biotype index name H2 = Inr (Some a, H5)" by blast+
      then show ?thesis unfolding all_or_nothing_def by simp
    qed
  qed
qed

text \<open>
  C38. Whichever allocations fail, \<open>bio_sto_new_feature_info\<close> does not fault, and either returns null and leaves the blocks in
  use as they were, or returns the new feature, with its strings, in new blocks.
\<close>

theorem new_info_all_or_nothing:
  "all_or_nothing H (bio_sto_new_feature_info uid biotype driver index index_name)
     (new_info_in_memory uid biotype driver index index_name H)"
proof (cases rule: malloc_blocks [of "Info zero_info" H])
  case (failed H1)
  then show ?thesis by (simp add: new_info_in_memory_def all_or_nothing_def)
next
  case 1: (got H1)
  have no_driver: "all_or_nothing H new (bindR (upd_info (Some (brk H)) (\<lambda>c. c\<lparr>c_driver := None\<rparr>) H2)
      (\<lambda>H'. bindR (free (Some (brk H)) H') (\<lambda>H. Inr (None, H))))" if 2: "blocks H2 = blocks H1" for H2 new
  proof -
    have "blocks H2 (brk H) = Some (Info zero_info)" using 1(2) 2 by simp
    then obtain H3 where 3: "upd_info (Some (brk H)) (\<lambda>c. c\<lparr>c_driver := None\<rparr>) H2 = Inr H3"
      "blocks H3 = (blocks H2)(brk H \<mapsto> Info (zero_info\<lparr>c_driver := None\<rparr>))"
      by (rule upd_info_blocks)
    then have "blocks H3 = (blocks H)(brk H \<mapsto> Info (zero_info\<lparr>c_driver := None\<rparr>))" using 1(2) 2 by simp
    from free_new [OF this] show ?thesis using 3(1) unfolding all_or_nothing_def by simp
  qed
  show ?thesis
  proof (cases driver)
    case None
    then show ?thesis using no_driver [of H1] 1(1) by (simp add: new_info_in_memory_def)
  next
    case (Some drv)
    show ?thesis
    proof (cases rule: malloc_blocks [of "Text drv" H1])
      case (failed H2)
      then show ?thesis using no_driver [of H2] 1(1) Some by (simp add: new_info_in_memory_def newstr_some)
    next
      case 2: (got H2)
      define c where "c = zero_info\<lparr>c_driver := Some (Suc (brk H))\<rparr>"
      have "blocks H2 (brk H) = Some (Info zero_info)" using 1(2,3) 2(2) by simp
      then obtain H3 where 3: "upd_info (Some (brk H)) (\<lambda>c. c\<lparr>c_driver := Some (Suc (brk H))\<rparr>) H2 = Inr H3"
        "blocks H3 = (blocks H2)(brk H \<mapsto> Info (zero_info\<lparr>c_driver := Some (Suc (brk H))\<rparr>))" "brk H3 = brk H2"
        by (rule upd_info_blocks)
      then have "blocks H3 = (blocks H)(brk H \<mapsto> Info c, Suc (brk H) \<mapsto> Text drv)"
        using 1(2,3) 2(2) by (auto simp: c_def fun_eq_iff)
      from info_named_all_or_nothing [OF this refl refl] show ?thesis
        using 1 2 3(1,3) Some by (simp add: new_info_in_memory_def newstr_some c_def)
    qed
  qed
qed

section \<open>Examples\<close>

definition empty_memory :: "bool list \<Rightarrow> memory" where
  "empty_memory fails = \<lparr>cells = Map.empty, brk = 0, malloc_fails = fails\<rparr>"

definition lone_item :: info_cell where
  "lone_item = zero_info\<lparr>c_uid := 7, c_driver := Some 1\<rparr>"

theorem list_freed_exactly_witness:
  "bio_sto_free_feature_info_list (Some 0) \<lparr>cells = [0 \<mapsto> Info lone_item, 1 \<mapsto> Text ''d'', 2 \<mapsto> Text ''other''], brk = 3, malloc_fails = []\<rparr>
   = Inr (without \<lparr>cells = [0 \<mapsto> Info lone_item, 1 \<mapsto> Text ''d'', 2 \<mapsto> Text ''other''], brk = 3, malloc_fails = []\<rparr> {0, 1})"
proof -
  let ?m = "[1 \<mapsto> Text ''d'', 0 \<mapsto> Info lone_item]"
  let ?i = "zero_feature\<lparr>fi_uid := 7, fi_driver := Some ''d''\<rparr>"
  have "info_at 0 ?i None ?m"
    unfolding info_at_def
    by (rule exI [of _ lone_item], rule exI [of _ "[1 \<mapsto> Text ''d'']"], rule exI [of _ Map.empty], rule exI [of _ Map.empty])
      (simp add: lone_item_def zero_info_def zero_feature_def)
  then have s: "segment info_at (Some 0) [?i] None ?m" by auto
  have o: "owns \<lparr>cells = [0 \<mapsto> Info lone_item, 1 \<mapsto> Text ''d'', 2 \<mapsto> Text ''other''], brk = 3, malloc_fails = []\<rparr> ?m"
    by (auto simp: owns_def block_at_def split: if_splits)
  show ?thesis using list_freed_exactly [OF s o] by (simp add: insert_commute)
qed

definition shared_rows :: "eigen_row list" where
  "shared_rows = [demo_row 1 7 UUID_DEFAULT 1 0, demo_row 2 8 ''0'' 1 0, demo_row 3 8 UUID_DEFAULT 1 0]"

theorem features_in_memory_refines_witness:
  "\<exists>p H'. features_in_memory demo_host True (-1) (-1) None 0 (-1) (demo_store shared_rows) (empty_memory []) = Inr (p, demo_store shared_rows, H')
     \<and> holds_list (empty_memory []) p [(info_of (demo_row 1 7 UUID_DEFAULT 1 0))\<lparr>fi_sample :=
             [sample_of (demo_row 1 7 UUID_DEFAULT 1 0), sample_of (demo_row 3 8 UUID_DEFAULT 1 0)]\<rparr>] H'"
  using features_in_memory_refines [of "empty_memory []" demo_host True "-1" "-1" None 0 "-1" "demo_store shared_rows"]
    shared_uuid_mixes_users
  by (simp add: empty_memory_def shared_rows_def)

text \<open>
  Where the allocation of the first item fails, the copy of the driver's name is lost; where that of
  the copy fails, the next row of the same user follows the null pointer.
\<close>

definition one_row :: "eigen_row list" where
  "one_row = [demo_row 1 7 UUID_DEFAULT 1 0]"

lemma default_user: "internal_get_uuid_by_uid demo_host 7 us = Inr (UUID_DEFAULT, us)"
  by (simp add: internal_get_uuid_by_uid_def demo_host_def)

lemmas memory_run = features_in_memory_def demo_store_def sqlite3_prepare_def tables_of_def has_uuid_column_def eigen_rows_def
  no_tables_def row_selected_def row_key_def sort_key_def less_eq_prod_def less_prod_def row_in_memory_def row_opens_def
  row_user_uuid_def row_new_item_def row_vars_init_def give_up_def newstr_def malloc_def free_def load_def load_text_def load_info_def
  upd_info_def block_at_def empty_memory_def internal_newstr_def fill_sample_def upd_sample_def load_sample_def default_user
  bio_sto_free_feature_info_list.simps(2) bio_sto_free_feature_info_def zero_info_def zero_sample_def

lemma settled_default: "take UUID_BUF_LEN UUID_DEFAULT = UUID_DEFAULT" "UUID_DEFAULT \<noteq> []"
  by (code_simp, code_simp)

lemma driver_name_lost:
  "\<exists>H'. features_in_memory demo_host True (-1) (-1) None 0 (-1) (demo_store one_row) (empty_memory [False, False, False, True])
     = Inr (None, demo_store one_row, H') \<and> blocks H' = [2 \<mapsto> Text ''aes2501'']"
  by (auto simp: memory_run one_row_def settled_default Let_def blocks_def fun_eq_iff)

lemma driver_name_missing:
  "features_in_memory demo_host True (-1) (-1) None 0 (-1) (demo_store [demo_row 1 7 UUID_DEFAULT 1 0, demo_row 2 7 UUID_DEFAULT 1 1])
     (empty_memory [False, False, True]) = Inl Null_deref"
  by (simp add: memory_run settled_default Let_def)

end
