(* ===== verification/Spec2Isabelle.thy ===== *)
theory Spec2Isabelle
  imports Bio_Prelude Bio_Base64 Aes_Cfb Template_Codec Bio_Status Bio_Version User_Uuid
    Bio_Storage Storage_Query Storage_Update Bio_Db_Upgrade Feature_Print Bio_Index Store_Frame Bio_Ops Bio_Devlist
    Community_Driver Community_Ops Community_Init Driver_Tables Community_Laws Community_Live Enroll_Verify
    Bio_Daemon Daemon_Steps Daemon_Laws Daemon_Start Daemon_Data Enroll_Requests Config_Tool Discover_Tool
    Bio_Print Feature_Memory
begin

text \<open>
  Verification library of the biometric authentication framework (\<open>src/src\<close>): a service over D-Bus
  that enrolls and verifies fingerprints and other features of users, on devices that plugins
  drive. A library (\<open>lib/\<close>) keeps the lists of drivers and devices, offers the operations of a device, and
  keeps features in an SQLite database; the community driver (\<open>drivers/community-multidevice\<close>)
  implements the operations over \<open>libfprint\<close> and is built into twenty plugins; the service
  (\<open>biometric-authenticationd.c\<close>) authorises requests, locks devices and replies; two tools edit
  the configuration of the drivers and list connected devices.

  \<^bold>\<open>The theories, from the bottom up.\<close>

  \<^item> \<open>Bio_Prelude\<close>: faults of C code (null pointers, accesses out of bounds, overflow of \<open>int\<close>, bad
    memory, loops that do not end) as the left side of a sum, their sequencing (\<open>bindR\<close>), partial
    correctness (\<open>on_return\<close>), checked reads of buffers and strings.
  \<^item> \<open>Bio_Base64\<close>, \<open>Aes_Cfb\<close>, \<open>Template_Codec\<close>: \<open>bio_base64_*\<close> of \<open>biometric_common.c\<close>,
    \<open>aes_128_cfb.c\<close>, and the path of a template between \<open>libfprint\<close> and the database (\<open>driver_internal.c\<close>,
    \<open>close.c\<close>). Decoding inverts encoding, decryption inverts encryption, both together give a
    template back byte for byte; the encoder agrees with RFC 4648.
  \<^item> \<open>Bio_Status\<close>, \<open>Bio_Version\<close>: the device record and its three status words with their setters,
    listeners and messages; the checks of API versions.
  \<^item> \<open>User_Uuid\<close>, \<open>Bio_Storage\<close>, \<open>Storage_Query\<close>, \<open>Storage_Update\<close>, \<open>Bio_Db_Upgrade\<close>, \<open>Store_Frame\<close>:
    \<open>biometric_storage.c\<close>. The database is its tables with the transaction; every call of the SQL
    engine asks a schedule whether it succeeds. Queries return the current rows of their clause,
    grouped; updates do what they say or nothing; an upgrade that fails restores the database;
    whatever fails, the rows of other users and drivers stay.
  \<^item> \<open>Feature_Memory\<close>: the same query over blocks of memory and pointers, with an allocator that fails by a
    schedule, and the functions that free. Reading refines the query over lists; freeing is exact. The
    locale \<open>freed_list\<close> is the loop that frees a linked list, for samples and for items.
  \<^item> \<open>Bio_Index\<close>: the helpers for drivers: allocation of indexes, sample numbers and driver ids,
    default listing and renaming, the scan for USB devices. The locale \<open>index_source\<close> states what
    allocation needs of a store, and what storing at the allocated index does; the database is its
    interpretation.
  \<^item> \<open>Feature_Print\<close>: \<open>print_feature_info\<close>, the table of features with its buffers of fixed size. The operations
    that print it fault where it overruns a buffer; it does not for plain names of moderate length.
  \<^item> \<open>Bio_Ops\<close>: the operations on a device (\<open>bio_ops_*\<close>) over the hooks of its driver, with the locale
    \<open>driver_contract\<close> for what a driver promises; \<open>Community_Laws\<close> interprets it.
  \<^item> \<open>Bio_Devlist\<close>, \<open>Driver_Tables\<close>: loading plugins, discovering devices, USB hotplug, and the twenty
    configurations, with the locale \<open>fresh_driver_ids\<close>.
  \<^item> \<open>Community_Driver\<close>, \<open>Community_Ops\<close>, \<open>Community_Init\<close>: the community driver. What the library and
    other threads do while a hook sleeps is a schedule: one batch of events for each sleep. A
    hook whose schedule runs out without the event it waits for faults with \<open>Hang\<close>.
  \<^item> \<open>Community_Laws\<close>, \<open>Community_Live\<close>, \<open>Enroll_Verify\<close>: what the hooks keep whatever happens (the
    locale \<open>world_relation\<close> carries a relation through every step), when they return, that a
    user who enrolled is recognised, and that a long name brings the service down.
  \<^item> \<open>Bio_Daemon\<close>: the state of the service and its handlers. A handler with a lock is composed of three
    parts (\<open>enter\<close>, \<open>run_locked\<close>, \<open>reply_result\<close>), the one that cleans of its beginning, its rounds over the
    drivers and its end. \<open>Daemon_Steps\<close> makes of these parts the steps of a state machine: a request
    arrives, a thread takes a step, a USB device comes or goes, the clock changes.
    \<open>Daemon_Laws\<close>: the locks, as a refinement of a table of owners, authorisation, the replies to every
    request, races. \<open>Daemon_Start\<close>: \<open>main\<close>, and well-formedness of every reachable state. \<open>Daemon_Data\<close>: histories
    of requests; the features of a user change only by authorised requests about that user, from the
    start of the service down to the tables; while a thread has the lock of a device, no other touches its
    record, except to stop operations. \<open>Enroll_Requests\<close>: requests to enroll that leave the index to the
    service.
  \<^item> \<open>Config_Tool\<close>, \<open>Discover_Tool\<close>: the two tools. GLib's key files are a parameter with the locale
    \<open>gkeyfile\<close> of their documented laws. \<open>Bio_Print\<close>: messages by level, printed lists, and where
    the table of features overruns its buffers.

  \<^bold>\<open>Bounds and fuel.\<close> The waiting loops recurse over the schedule of events. The search loop has as fuel one
  more than the batches of the schedule; a theorem of \<open>Community_Live\<close> shows that this is never the reason it ends. Integers of the
  C code are \<open>int\<close> with a fault where an operation leaves the range of the C type; bytes are
  \<open>8 word\<close>.

  \<^bold>\<open>Parameters.\<close> The account database and \<open>libuuid\<close> (\<open>host\<close>), the outcomes of calls of SQLite,
  \<open>libusb\<close>, \<open>libfprint\<close> (\<open>fp_lib\<close> and the schedule), GLib, what the bus and \<open>polkit\<close> answer
  about a caller, and the file system of the process are arguments of the definitions.

  \<^bold>\<open>Simplifications.\<close> A call of the framework is one step of the service: the interleaving inside the
  library is that of the schedules of the driver. Cleaning goes driver by driver: to take the lock of one device,
  clean it and release the lock is one step, and so is the cleaning of the tables at the end. The memory that
  drivers keep behind \<open>dev_priv\<close> is one value that the drivers of a framework share; the
  theorems about it are about one device. An error of a system call that the code only prints is
  not an event of the model.

  Printing the table of features can fault, and is part of the operations that do it. Other messages
  are left out of the operations: the functions that print them are modelled on their own.

  \<^bold>\<open>Not modelled.\<close> Translation, the release of objects of GLib (\<open>bio_close\<close>, \<open>bio_conf_free\<close>), the metadata of a print that only \<open>libfprint\<close> reads
  (\<open>print_create_template\<close>), and the calls that set up GDBus, the main loop and the hotplug thread.
\<close>

end
